(* ===== verification/Prelude.thy ===== *)
theory Prelude
  imports Main "HOL-Library.Multiset" "HOL-Library.Code_Target_Numeral"
begin

text \<open>
  Shared vocabulary of the task-management API model: the types that name
  document identifiers and clock readings, the collections of simplification
  rules the component theories extend, and generic facts on lists and options
  (first-match search, filtering out one value) that the document-store
  operations of every component reduce to.
\<close>

section \<open>Types of the model\<close>

text \<open>
  MongoDB's \<open>ObjectId\<close> is an opaque, unique identifier; the model draws it
  from a counter kept in the store, so an identifier is a natural number.
  JavaScript's \<open>Date.now()\<close> is a count of milliseconds; JSON Web Tokens count
  seconds (\<open>Math.floor(Date.now() / 1000)\<close>).
\<close>

type_synonym oid = nat
type_synonym millis = nat
type_synonym secs = nat

definition to_secs :: "millis \<Rightarrow> secs" where
  "to_secs t = t div 1000"

section \<open>Rule collections\<close>

named_theorems store_simps \<open>evaluation of the document-store queries of the model\<close>
named_theorems codec_simps \<open>decoding of encoded token fields\<close>

section \<open>Generic facts on lists and options\<close>

text \<open>
  \<open>findOne\<close> of MongoDB returns the first document, in natural order, that
  matches the filter; in the model this is \<^const>\<open>find\<close> on the collection.
\<close>

lemma find_SomeD [dest]:
  "find P xs = Some x \<Longrightarrow> x \<in> set xs \<and> P x"
  by (auto simp: find_Some_iff)

lemma find_None_iff' [simp]:
  "(find P xs = None) = (\<forall>x \<in> set xs. \<not> P x)"
  by (induction xs) auto

lemma find_append_skip:
  "\<forall>x \<in> set xs. \<not> P x \<Longrightarrow> find P (xs @ ys) = find P ys"
  by (induction xs) auto

lemma find_distinct_key:
  "distinct (map f xs) \<Longrightarrow> x \<in> set xs \<Longrightarrow> f x = k \<Longrightarrow> find (\<lambda>y. f y = k) xs = Some x"
  by (induction xs) auto

lemma distinct_map_eqD:
  "distinct (map f xs) \<Longrightarrow> x \<in> set xs \<Longrightarrow> y \<in> set xs \<Longrightarrow> f x = f y \<Longrightarrow> x = y"
  by (metis distinct_map inj_onD)

lemma find_filter_implied:
  "(\<And>x. P x \<Longrightarrow> Q x) \<Longrightarrow> find P (filter Q xs) = find P xs"
  by (induction xs) auto

lemma find_cong_set:
  "(\<And>x. x \<in> set xs \<Longrightarrow> P x = Q x) \<Longrightarrow> find P xs = find Q xs"
  by (induction xs) auto

lemma find_map_other:
  "(\<And>x. x \<in> set xs \<Longrightarrow> P (f x) = P x) \<Longrightarrow>
   (\<And>x. x \<in> set xs \<Longrightarrow> P x \<Longrightarrow> f x = x) \<Longrightarrow> find P (map f xs) = find P xs"
  by (induction xs) auto

text \<open>Removing every copy of one value, as \<open>Array.prototype.filter(v => v !== x)\<close>.\<close>

lemma set_filter_neq [simp]:
  "set (filter (\<lambda>y. y \<noteq> x) xs) = set xs - {x}"
  by auto

lemma filter_neq_notin [simp]:
  "x \<notin> set (filter (\<lambda>y. y \<noteq> x) xs)"
  by simp

lemma filter_neq_id:
  "x \<notin> set xs \<Longrightarrow> filter (\<lambda>y. y \<noteq> x) xs = xs"
  by (induction xs) auto

lemma map_update_first [simp]:
  "map (\<lambda>y. if P y then f y else y) xs = xs \<longleftrightarrow> (\<forall>y \<in> set xs. P y \<longrightarrow> f y = y)"
  by (induction xs) auto

text \<open>Updating some documents in place leaves the fields the update does not write.\<close>

lemma map_comp_if_frame [simp]:
  "(\<And>v. f (g v) = f v) \<Longrightarrow> map (f \<circ> (\<lambda>v. if P v then g v else v)) xs = map f xs"
  by (induction xs) auto

lemma set_map_if_frame:
  "x \<in> set (map (\<lambda>v. if P v then g v else v) xs) \<Longrightarrow>
   (\<exists>v \<in> set xs. P v \<and> x = g v) \<or> (x \<in> set xs \<and> \<not> P x)"
  by auto

lemma distinct_map_filter:
  "distinct (map f xs) \<Longrightarrow> distinct (map f (filter P xs))"
  by (induction xs) auto

lemma distinct_map_update:
  "(\<And>y. y \<in> set xs \<Longrightarrow> f (g y) = f y) \<Longrightarrow>
   distinct (map f (map g xs)) = distinct (map f xs)"
  by (induction xs) auto

text \<open>Deleting the first element that satisfies a predicate (\<open>findOneAndDelete\<close>).\<close>

fun remove_first :: "('a \<Rightarrow> bool) \<Rightarrow> 'a list \<Rightarrow> 'a list" where
  "remove_first P [] = []"
| "remove_first P (x # xs) = (if P x then xs else x # remove_first P xs)"

lemma remove_first_find:
  "find P xs = Some x \<Longrightarrow> \<exists>ys zs. xs = ys @ x # zs \<and> remove_first P xs = ys @ zs \<and> (\<forall>y \<in> set ys. \<not> P y)"
proof (induction xs)
  case Nil
  then show ?case by simp
next
  case (Cons y xs)
  show ?case
  proof (cases "P y")
    case True
    with Cons.prems show ?thesis by (intro exI [of _ "[]"] exI [of _ xs]) auto
  next
    case False
    with Cons.prems obtain ys zs where "xs = ys @ x # zs" "remove_first P xs = ys @ zs" "\<forall>y \<in> set ys. \<not> P y"
      using Cons.IH by auto
    with False show ?thesis by (intro exI [of _ "y # ys"] exI [of _ zs]) auto
  qed
qed

lemma remove_first_None: "find P xs = None \<Longrightarrow> remove_first P xs = xs"
  by (induction xs) auto

lemma filter_remove_first:
  "(\<And>x. x \<in> set xs \<Longrightarrow> P x \<Longrightarrow> \<not> Q x) \<Longrightarrow> filter Q (remove_first P xs) = filter Q xs"
  by (induction xs) auto

text \<open>Replacing the first element that satisfies a predicate (\<open>findOneAndUpdate\<close>).\<close>

fun update_first :: "('a \<Rightarrow> bool) \<Rightarrow> ('a \<Rightarrow> 'a) \<Rightarrow> 'a list \<Rightarrow> 'a list" where
  "update_first P f [] = []"
| "update_first P f (x # xs) = (if P x then f x # xs else x # update_first P f xs)"

lemma update_first_find:
  "find P xs = Some x \<Longrightarrow> \<exists>ys zs. xs = ys @ x # zs \<and> update_first P f xs = ys @ f x # zs \<and> (\<forall>y \<in> set ys. \<not> P y)"
proof (induction xs)
  case Nil
  then show ?case by simp
next
  case (Cons y xs)
  show ?case
  proof (cases "P y")
    case True
    with Cons.prems show ?thesis by (intro exI [of _ "[]"] exI [of _ xs]) auto
  next
    case False
    with Cons.prems obtain ys zs where "xs = ys @ x # zs" "update_first P f xs = ys @ f x # zs" "\<forall>y \<in> set ys. \<not> P y"
      using Cons.IH by auto
    with False show ?thesis by (intro exI [of _ "y # ys"] exI [of _ zs]) auto
  qed
qed

lemma filter_update_first:
  "(\<And>x. x \<in> set xs \<Longrightarrow> P x \<Longrightarrow> \<not> Q x \<and> \<not> Q (f x)) \<Longrightarrow> filter Q (update_first P f xs) = filter Q xs"
  by (induction xs) auto

lemma map_update_first_frame:
  "(\<And>x. g (f x) = g x) \<Longrightarrow> map g (update_first P f xs) = map g xs"
  by (induction xs) auto

lemma set_update_first:
  "y \<in> set (update_first P f xs) \<Longrightarrow> y \<in> set xs \<or> (\<exists>x \<in> set xs. P x \<and> y = f x)"
  by (induction xs) (auto split: if_splits)

lemma set_remove_first: "set (remove_first P xs) \<subseteq> set xs"
  by (induction xs) auto

lemma distinct_map_remove_first:
  "distinct (map g xs) \<Longrightarrow> distinct (map g (remove_first P xs))"
  by (induction xs) (auto dest: subsetD [OF set_remove_first])

lemma count_list_distinct: "distinct xs \<Longrightarrow> x \<in> set xs \<Longrightarrow> count_list xs x = 1"
  by (induction xs) (auto simp: count_list_0_iff)

text \<open>Writing one key of an association list in place.\<close>

lemma map_of_keyed_update:
  "map_of (map (\<lambda>(a, b). if a = k then (a, n) else (a, b)) m) k' =
   (if k' = k then (if k \<in> fst ` set m then Some n else None) else map_of m k')"
proof (induction m)
  case Nil
  then show ?case by simp
next
  case (Cons p m)
  obtain a b where p: "p = (a, b)" by (cases p)
  show ?case
  proof (cases "a = k")
    case True
    with Cons p show ?thesis by auto
  next
    case False
    with Cons p show ?thesis by force
  qed
qed

lemma fst_keyed_update [simp]:
  "fst \<circ> (\<lambda>(a, b). if a = k then (a, n) else (a, b)) = fst"
  by (auto simp: fun_eq_iff)

lemma fst_keyed_update_apply [simp]:
  "fst ((\<lambda>(a, b). if a = k then (a, n) else (a, b)) x) = fst x"
  by (cases x) auto

lemma count_list_filter_eq:
  "count_list xs x = length (filter (\<lambda>y. y = x) xs)"
  by (induction xs) auto

end
