(* ===== verification/Jwt.thy ===== *)
theory Jwt
  imports Prelude
begin

text \<open>
  The \<open>jsonwebtoken\<close> library as the program uses it: \<open>jwt.sign(payload,
  secret, { expiresIn: '7d' })\<close> in \<open>generateAuthToken\<close> and
  \<open>jwt.verify(token, secret)\<close> in the authentication middleware. The library
  is not part of the repository; it is modelled from its documented behaviour.
  A token is a string: the encoded claims followed by a signature over them.
  The signature is symbolic: \<open>jwt_hmac key body\<close> is a value that only the holder
  of \<open>key\<close> computes, and verification recomputes it and compares, as HS256
  verification does. The encoding is a simple self-delimiting one (binary
  numerals, length-prefixed strings) rather than base64url JSON; what the
  model relies on is that decoding inverts encoding, which is proved here.
\<close>

section \<open>Self-delimiting encoding of numbers and strings\<close>

fun enc_nat :: "nat \<Rightarrow> string" where
  "enc_nat n =
     (if n = 0 then ''.'' else (if n mod 2 = 1 then CHR ''1'' else CHR ''0'') # enc_nat (n div 2))"

declare enc_nat.simps [simp del]

lemma enc_nat_nonempty [simp]: "enc_nat n \<noteq> []"
  by (subst enc_nat.simps) simp

fun dec_nat :: "string \<Rightarrow> (nat \<times> string) option" where
  "dec_nat [] = None"
| "dec_nat (c # s) =
     (if c = CHR ''.'' then Some (0, s)
      else if c = CHR ''0'' \<or> c = CHR ''1'' then
        (case dec_nat s of
           None \<Rightarrow> None
         | Some (n, r) \<Rightarrow> Some (2 * n + (if c = CHR ''1'' then 1 else 0), r))
      else None)"

definition enc_str :: "string \<Rightarrow> string" where
  "enc_str s = enc_nat (length s) @ s"

definition dec_str :: "string \<Rightarrow> (string \<times> string) option" where
  "dec_str s =
     (case dec_nat s of
        None \<Rightarrow> None
      | Some (n, r) \<Rightarrow> if n \<le> length r then Some (take n r, drop n r) else None)"

section \<open>Claims, signing and verification\<close>

text \<open>
  The payload \<open>{ _id, email, role }\<close> of \<open>generateAuthToken\<close>, extended by
  the library with \<open>iat\<close> (issued at) and \<open>exp\<close> (expiry), both in seconds.
\<close>

record jwt_payload =
  p_id :: oid
  p_email :: string
  p_role :: string

record jwt_claims = jwt_payload +
  iat :: secs
  exp :: secs

text \<open>\<open>expiresIn: '7d'\<close>: seven days in seconds.\<close>

definition seven_days :: secs where
  "seven_days = 7 * 24 * 60 * 60"

definition enc_claims :: "jwt_claims \<Rightarrow> string" where
  "enc_claims c =
     enc_nat (p_id c) @ enc_str (p_email c) @ enc_str (p_role c) @ enc_nat (iat c) @ enc_nat (exp c)"

definition dec_claims :: "string \<Rightarrow> (jwt_claims \<times> string) option" where
  "dec_claims s =
     (case dec_nat s of None \<Rightarrow> None | Some (i, r1) \<Rightarrow>
      case dec_str r1 of None \<Rightarrow> None | Some (e, r2) \<Rightarrow>
      case dec_str r2 of None \<Rightarrow> None | Some (ro, r3) \<Rightarrow>
      case dec_nat r3 of None \<Rightarrow> None | Some (ia, r4) \<Rightarrow>
      case dec_nat r4 of None \<Rightarrow> None | Some (ex, r5) \<Rightarrow>
        Some (\<lparr>p_id = i, p_email = e, p_role = ro, iat = ia, exp = ex\<rparr>, r5))"

definition jwt_hmac :: "string \<Rightarrow> string \<Rightarrow> string" where
  "jwt_hmac key body = enc_str key @ enc_str body"

text \<open>\<open>jwt.sign(payload, secret, { expiresIn: '7d' })\<close> at clock reading \<open>now\<close>.\<close>

definition jwt_claims_at :: "jwt_payload \<Rightarrow> millis \<Rightarrow> jwt_claims" where
  "jwt_claims_at p now =
     \<lparr>p_id = p_id p, p_email = p_email p, p_role = p_role p,
      iat = to_secs now, exp = to_secs now + seven_days\<rparr>"

definition jwt_sign :: "string \<Rightarrow> millis \<Rightarrow> jwt_payload \<Rightarrow> string" where
  "jwt_sign secret now p =
     (let body = enc_claims (jwt_claims_at p now) in body @ jwt_hmac secret body)"

text \<open>
  \<open>jwt.verify(token, secret)\<close>: the failures the library distinguishes
  (\<open>JsonWebTokenError\<close> for a malformed token or a bad signature,
  \<open>TokenExpiredError\<close> once the clock reaches \<open>exp\<close>).
\<close>

datatype jwt_error = Malformed | InvalidSignature | TokenExpired

definition jwt_verify :: "string \<Rightarrow> millis \<Rightarrow> string \<Rightarrow> jwt_error + jwt_claims" where
  "jwt_verify secret now tok =
     (case dec_claims tok of
        None \<Rightarrow> Inl Malformed
      | Some (c, sig) \<Rightarrow>
          if sig \<noteq> jwt_hmac secret (take (length tok - length sig) tok) then Inl InvalidSignature
          else if exp c \<le> to_secs now then Inl TokenExpired
          else Inr c)"

section \<open>Round trip of the encoding\<close>

lemma dec_enc_nat [codec_simps]: "dec_nat (enc_nat n @ r) = Some (n, r)"
proof (induction n rule: enc_nat.induct)
  case (1 n)
  show ?case
  proof (cases "n = 0")
    case True
    then show ?thesis by (simp add: enc_nat.simps)
  next
    case False
    with "1.IH" have ih: "dec_nat (enc_nat (n div 2) @ r) = Some (n div 2, r)" by simp
    have "2 * (n div 2) + n mod 2 = n" by simp
    with False ih show ?thesis
      by (subst enc_nat.simps) (auto simp: mod2_eq_if)
  qed
qed

lemma dec_enc_str [codec_simps]: "dec_str (enc_str s @ r) = Some (s, r)"
  by (simp add: dec_str_def enc_str_def codec_simps)

lemma dec_enc_claims [codec_simps]: "dec_claims (enc_claims c @ r) = Some (c, r)"
  by (simp add: dec_claims_def enc_claims_def codec_simps)

lemma jwt_claims_at_payload [simp]:
  "p_id (jwt_claims_at p now) = p_id p"
  "p_email (jwt_claims_at p now) = p_email p"
  "p_role (jwt_claims_at p now) = p_role p"
  "exp (jwt_claims_at p now) = to_secs now + seven_days"
  by (simp_all add: jwt_claims_at_def)

text \<open>
  Verification of a token the same secret signed: it yields exactly the claims
  that were signed while the clock is before \<open>exp\<close>, and the expiry error after.
\<close>

lemma jwt_verify_sign:
  "jwt_verify secret now' (jwt_sign secret now p) =
     (if to_secs now + seven_days \<le> to_secs now' then Inl TokenExpired
      else Inr (jwt_claims_at p now))"
  by (simp add: jwt_verify_def jwt_sign_def Let_def codec_simps)

lemma jwt_verify_sign_valid:
  "to_secs now' < to_secs now + seven_days \<Longrightarrow>
   jwt_verify secret now' (jwt_sign secret now p) = Inr (jwt_claims_at p now)"
  by (simp add: jwt_verify_sign)

lemma jwt_sign_nonempty [simp]:
  "jwt_sign secret now p \<noteq> []" "[] \<noteq> jwt_sign secret now p"
  by (simp_all add: jwt_sign_def Let_def jwt_hmac_def enc_str_def)

text \<open>A token signed with another key never verifies.\<close>

lemma jwt_hmac_inj: "jwt_hmac k b = jwt_hmac k' b' \<Longrightarrow> k = k'"
proof -
  assume eq: "jwt_hmac k b = jwt_hmac k' b'"
  have "dec_str (jwt_hmac k b) = Some (k, enc_str b)"
    using dec_enc_str [of k "enc_str b"] by (simp add: jwt_hmac_def)
  moreover have "dec_str (jwt_hmac k' b') = Some (k', enc_str b')"
    using dec_enc_str [of k' "enc_str b'"] by (simp add: jwt_hmac_def)
  ultimately show "k = k'" using eq by simp
qed

lemma jwt_verify_other_key:
  "secret' \<noteq> secret \<Longrightarrow> jwt_verify secret now' (jwt_sign secret' now p) = Inl InvalidSignature"
  by (auto simp: jwt_verify_def jwt_sign_def Let_def codec_simps dest: jwt_hmac_inj)

lemma jwt_verify_Inr_exp:
  "jwt_verify secret now tok = Inr c \<Longrightarrow> to_secs now < exp c"
  by (auto simp: jwt_verify_def split: option.splits if_splits)

text \<open>The claims of a token do not depend on the clock at which it is verified.\<close>

lemma jwt_verify_Inr_claims:
  "jwt_verify secret now tok = Inr c \<Longrightarrow> jwt_verify secret now' tok = Inr c' \<Longrightarrow> c = c'"
  by (auto simp: jwt_verify_def split: option.splits if_splits)

text \<open>Signing reads the clock in whole seconds only.\<close>

lemma jwt_sign_same_second:
  "to_secs now1 = to_secs now2 \<Longrightarrow> jwt_sign secret now1 p = jwt_sign secret now2 p"
  by (simp add: jwt_sign_def jwt_claims_at_def)

end
