(* ===== verification/Js_Builtins.thy ===== *)
theory Js_Builtins
  imports Prelude "HOL-Library.Char_ord"
begin

text \<open>
  The JavaScript string built-ins the program's code and its schema options call:
  \<open>String.prototype.replace\<close> with a string pattern (authentication
  middleware), \<open>toLowerCase\<close> (the \<open>lowercase: true\<close> option of the user
  e-mail), \<open>trim\<close> (the \<open>trim: true\<close> options) and \<open>Math.ceil\<close> of a
  quotient (the \<open>pages\<close> count of the task listing). They are modelled on
  byte strings: HOL's \<^typ>\<open>char\<close> is a byte, so characters beyond ASCII are
  outside this model.
\<close>

section \<open>String.prototype.replace with a string pattern\<close>

text \<open>
  With a string (not a regular expression) as pattern, \<open>replace\<close> substitutes
  the \<^emph>\<open>first\<close> occurrence of the pattern, wherever it is, and leaves the
  string unchanged when there is none.
\<close>

fun replace_first :: "string \<Rightarrow> string \<Rightarrow> string \<Rightarrow> string" where
  "replace_first pat rep [] = (if pat = [] then rep else [])"
| "replace_first pat rep (c # s) =
     (if take (length pat) (c # s) = pat then rep @ drop (length pat) (c # s)
      else c # replace_first pat rep s)"

lemma replace_first_prefix [simp]:
  "replace_first pat rep (pat @ s) = rep @ s"
proof (cases "pat @ s")
  case Nil
  then show ?thesis by simp
next
  case (Cons c t)
  then have "take (length pat) (c # t) = pat" and "drop (length pat) (c # t) = s"
    by (metis append_eq_conv_conj)+
  with Cons show ?thesis by (simp only: replace_first.simps(2)) simp
qed

text \<open>Whether \<open>pat\<close> occurs in \<open>s\<close> at some position (\<open>s.includes(pat)\<close>).\<close>

definition occurs :: "string \<Rightarrow> string \<Rightarrow> bool" where
  "occurs pat s \<longleftrightarrow> (\<exists>k \<in> set [0..<Suc (length s)]. take (length pat) (drop k s) = pat)"

lemma replace_first_no_occurrence:
  "\<not> occurs pat s \<Longrightarrow> replace_first pat rep s = s"
proof (induction s)
  case Nil
  then show ?case by (simp add: occurs_def)
next
  case (Cons c s)
  have "take (length pat) (c # s) \<noteq> pat"
  proof
    assume "take (length pat) (c # s) = pat"
    then have "take (length pat) (drop 0 (c # s)) = pat" by simp
    moreover have "(0::nat) \<in> set [0..<Suc (length (c # s))]" by simp
    ultimately show False using Cons.prems unfolding occurs_def by blast
  qed
  moreover have "\<not> occurs pat s"
  proof
    assume "occurs pat s"
    then obtain k where k: "k \<in> set [0..<Suc (length s)]" and tk: "take (length pat) (drop k s) = pat"
      unfolding occurs_def by blast
    from k have "k \<le> length s" by auto
    from tk have "take (length pat) (drop (Suc k) (c # s)) = pat" by simp
    moreover have "Suc k \<in> set [0..<Suc (length (c # s))]" using \<open>k \<le> length s\<close> by auto
    ultimately show False using Cons.prems unfolding occurs_def by blast
  qed
  then have "replace_first pat rep s = s" by (rule Cons.IH)
  ultimately show ?case by simp
qed

section \<open>Case mapping and trimming\<close>

definition js_lower_char :: "char \<Rightarrow> char" where
  "js_lower_char c =
     (if CHR ''A'' \<le> c \<and> c \<le> CHR ''Z'' then char_of (of_char c + (32::nat)) else c)"

definition js_to_lower :: "string \<Rightarrow> string" where
  "js_to_lower s = map js_lower_char s"

text \<open>White space removed by \<open>trim\<close>: tab, line feed, vertical tab, form feed,
  carriage return and space (the ASCII part of JavaScript's white space and line
  terminators).\<close>

definition js_space :: "char \<Rightarrow> bool" where
  "js_space c \<longleftrightarrow> c \<in> set [CHR 0x09, CHR 0x0A, CHR 0x0B, CHR 0x0C, CHR 0x0D, CHR 0x20]"

definition js_trim :: "string \<Rightarrow> string" where
  "js_trim s = rev (dropWhile js_space (rev (dropWhile js_space s)))"

lemma length_js_trim_le: "length (js_trim s) \<le> length s"
proof -
  have "length (dropWhile js_space (rev (dropWhile js_space s))) \<le> length (dropWhile js_space s)"
    using length_dropWhile_le [of js_space "rev (dropWhile js_space s)"] by simp
  also have "\<dots> \<le> length s" by (rule length_dropWhile_le)
  finally show ?thesis by (simp add: js_trim_def)
qed

section \<open>Math.ceil of a quotient\<close>

text \<open>
  \<open>Math.ceil(total / limit)\<close> on JavaScript numbers. The division by zero of
  the source gives \<open>Infinity\<close> (or \<open>NaN\<close> for \<open>0 / 0\<close>), which
  \<open>JSON.stringify\<close> prints as \<open>null\<close>: the model returns \<^const>\<open>None\<close> there.
\<close>

definition js_ceil_div :: "int \<Rightarrow> int \<Rightarrow> int option" where
  "js_ceil_div a b = (if b = 0 then None else Some (- ((- a) div b)))"

end
