(* ===== verification/User.thy ===== *)
theory User
  imports Jwt Js_Builtins
begin

text \<open>
  The \<open>User\<close> model (the unnamed source \<open>src/unnamed/part_002\<close>, which the
  routes load as \<open>models/User\<close>): the document type, the schema's setters and
  validators, the pre-save hook that hashes the password, the instance methods
  \<open>generateAuthToken\<close>, \<open>comparePassword\<close> and \<open>toJSON\<close>, and the
  \<open>users\<close> collection with the queries and writes the program issues on it.
  The collection is a record that later theories extend (the task collection is
  added by an extension), so every operation on users is, by its type, one that
  leaves the rest of the database alone.
\<close>

section \<open>Documents\<close>

datatype role = RoleUser | RoleAdmin

definition role_name :: "role \<Rightarrow> string" where
  "role_name r = (case r of RoleUser \<Rightarrow> ''user'' | RoleAdmin \<Rightarrow> ''admin'')"

text \<open>
  A user document. \<open>password\<close> holds the plain text between \<open>new User\<close> and
  the pre-save hook and the bcrypt hash afterwards; \<open>tokens\<close> is the array of
  \<open>{ token }\<close> sub-documents, one per login.
\<close>

record user =
  user_id :: oid
  name :: string
  email :: string
  password :: string
  role :: role
  user_createdAt :: millis
  tokens :: "string list"

section \<open>The bcryptjs library\<close>

text \<open>
  \<open>bcrypt.genSalt(12)\<close> returns \<open>$2a$12$\<close> followed by 22 random characters;
  the model receives it from the environment. \<open>bcrypt.hash(pw, salt)\<close> is the
  salt followed by a digest of the first 72 bytes of the password (bcrypt ignores
  the rest). The digest is symbolic: an injective stand-in for the Eksblowfish
  output, which is all the model uses of it. \<open>bcrypt.compare\<close> re-hashes the
  candidate with the salt read back from the hash and compares.
\<close>

definition bcrypt_salt_len :: nat where
  "bcrypt_salt_len = 29"

definition bcrypt_salt_ok :: "string \<Rightarrow> bool" where
  "bcrypt_salt_ok s \<longleftrightarrow> length s = bcrypt_salt_len \<and> take 7 s = ''$2a$12$''"

definition bcrypt_hash :: "string \<Rightarrow> string \<Rightarrow> string" where
  "bcrypt_hash salt pw = salt @ take 72 pw"

definition bcrypt_compare :: "string \<Rightarrow> string \<Rightarrow> bool" where
  "bcrypt_compare cand h \<longleftrightarrow> bcrypt_hash (take bcrypt_salt_len h) cand = h"

lemma bcrypt_compare_hash:
  "bcrypt_salt_ok salt \<Longrightarrow> bcrypt_compare cand (bcrypt_hash salt pw) \<longleftrightarrow> take 72 cand = take 72 pw"
  by (simp add: bcrypt_compare_def bcrypt_hash_def bcrypt_salt_ok_def)

section \<open>Schema: setters and validators\<close>

text \<open>
  The e-mail pattern of the schema,
  \<^verbatim>\<open>/^\w+([.-]?\w+)*@\w+([.-]?\w+)*(\.\w{2,3})+$/\<close>.
  \<open>\w+([.-]?\w+)*\<close> is a non-empty run of word characters and single
  separators \<open>.\<close> or \<open>-\<close> that starts and ends with a word character;
  \<open>(\.\w{2,3})+\<close> is one or more groups of a dot and two or three word
  characters.
\<close>

definition is_word :: "char \<Rightarrow> bool" where
  "is_word c \<longleftrightarrow>
     (CHR ''a'' \<le> c \<and> c \<le> CHR ''z'') \<or> (CHR ''A'' \<le> c \<and> c \<le> CHR ''Z'') \<or>
     (CHR ''0'' \<le> c \<and> c \<le> CHR ''9'') \<or> c = CHR ''_''"

definition is_sep :: "char \<Rightarrow> bool" where
  "is_sep c \<longleftrightarrow> c = CHR ''.'' \<or> c = CHR ''-''"

fun no_double_sep :: "string \<Rightarrow> bool" where
  "no_double_sep (a # b # s) = (\<not> (is_sep a \<and> is_sep b) \<and> no_double_sep (b # s))"
| "no_double_sep _ = True"

definition word_run :: "string \<Rightarrow> bool" where
  "word_run s \<longleftrightarrow>
     s \<noteq> [] \<and> list_all (\<lambda>c. is_word c \<or> is_sep c) s \<and> is_word (hd s) \<and> is_word (last s) \<and>
     no_double_sep s"

function tld_groups :: "string \<Rightarrow> bool" where
  "tld_groups [] = False"
| "tld_groups (c # s) =
     (c = CHR ''.'' \<and>
      ((2 \<le> length s \<and> list_all is_word (take 2 s) \<and> (drop 2 s = [] \<or> tld_groups (drop 2 s))) \<or>
       (3 \<le> length s \<and> list_all is_word (take 3 s) \<and> (drop 3 s = [] \<or> tld_groups (drop 3 s)))))"
  by pat_completeness auto
termination
  by (relation "measure length") auto

definition email_domain_ok :: "string \<Rightarrow> bool" where
  "email_domain_ok d \<longleftrightarrow> (\<exists>k \<in> set [0..<Suc (length d)]. word_run (take k d) \<and> tld_groups (drop k d))"

definition email_regex_match :: "string \<Rightarrow> bool" where
  "email_regex_match e \<longleftrightarrow>
     (case dropWhile (\<lambda>c. c \<noteq> CHR ''@'') e of
        [] \<Rightarrow> False
      | _ # d \<Rightarrow> word_run (takeWhile (\<lambda>c. c \<noteq> CHR ''@'') e) \<and> email_domain_ok d)"

text \<open>
  \<open>new User({ name, email, password })\<close>: the \<open>trim\<close> setter of \<open>name\<close>,
  the \<open>lowercase\<close> setter of \<open>email\<close>, the defaults of \<open>role\<close>,
  \<open>createdAt\<close> and \<open>tokens\<close>, and a fresh \<open>_id\<close>.
\<close>

definition new_user :: "oid \<Rightarrow> millis \<Rightarrow> string \<Rightarrow> string \<Rightarrow> string \<Rightarrow> user" where
  "new_user i now n e pw =
     \<lparr>user_id = i, name = js_trim n, email = js_to_lower e, password = pw, role = RoleUser,
      user_createdAt = now, tokens = []\<rparr>"

text \<open>
  The schema validators run on \<open>save()\<close> of a new document, before the
  pre-save hooks (Mongoose registers validation as the first pre-save hook):
  \<open>required\<close> rejects the empty string, \<open>maxlength\<close>/\<open>minlength\<close> count
  characters, \<open>match\<close> skips the empty string, and every \<open>tokens.token\<close> is
  required. The result lists the paths that fail, in schema order.
\<close>

definition user_validation_errors :: "user \<Rightarrow> string list" where
  "user_validation_errors u =
     (if name u = [] then [''Name is required'']
      else if 50 < length (name u) then [''Name cannot exceed 50 characters''] else []) @
     (if email u = [] then [''Email is required'']
      else if \<not> email_regex_match (email u) then [''Please enter a valid email''] else []) @
     (if password u = [] then [''Password is required'']
      else if length (password u) < 6 then [''Password must be at least 6 characters''] else []) @
     (if [] \<in> set (tokens u) then [''Path `token` is required.''] else [])"

text \<open>
  The pre-save hook: hash the password with a fresh salt, but only when the
  \<open>password\<close> path was modified since the document was loaded or created.
\<close>

definition user_pre_save :: "string \<Rightarrow> bool \<Rightarrow> user \<Rightarrow> user" where
  "user_pre_save salt pw_modified u =
     (if \<not> pw_modified then u else u\<lparr>password := bcrypt_hash salt (password u)\<rparr>)"

section \<open>The users collection\<close>

record user_db =
  users :: "user list"
  next_oid :: oid

text \<open>
  The errors a database call throws, which a handler passes to \<open>next(error)\<close>:
  Mongoose's \<open>ValidationError\<close> (the messages of the failed validators), the
  server's duplicate-key error of a unique index, \<open>DocumentNotFoundError\<close>, a
  \<open>CastError\<close> for a value that does not cast to the path's type, and any other
  error the server answers (\<open>MongoServerError\<close>, e.g. a negative skip).
\<close>

datatype mongo_error =
    ValidationError "string list"
  | DuplicateKey string
  | DocumentNotFound
  | CastError string
  | ServerError string

text \<open>
  \<open>User.findOne({ email })\<close>: Mongoose casts the filter with the schema, so the
  \<open>lowercase\<close> setter applies to the queried e-mail as well.
\<close>

definition find_user_by_email :: "'a user_db_scheme \<Rightarrow> string \<Rightarrow> user option" where
  "find_user_by_email db e = find (\<lambda>u. email u = js_to_lower e) (users db)"

text \<open>\<open>User.findOne({ _id, 'tokens.token': token })\<close> of the middleware.\<close>

definition find_user_by_token :: "'a user_db_scheme \<Rightarrow> oid \<Rightarrow> string \<Rightarrow> user option" where
  "find_user_by_token db i t = find (\<lambda>u. user_id u = i \<and> t \<in> set (tokens u)) (users db)"

text \<open>
  \<open>save()\<close> of a new user document: validation, the pre-save hook, then the
  insert, which the unique index on \<open>email\<close> refuses when another document
  has the same e-mail (MongoDB's E11000 duplicate-key error).
\<close>

definition insert_user :: "string \<Rightarrow> user \<Rightarrow> 'a user_db_scheme \<Rightarrow> mongo_error + 'a user_db_scheme" where
  "insert_user salt u db =
     (let errs = user_validation_errors u in
      if errs \<noteq> [] then Inl (ValidationError errs)
      else let u' = user_pre_save salt True u in
        if email u' \<in> email ` set (users db) then Inl (DuplicateKey ''email'')
        else Inr (db\<lparr>users := users db @ [u']\<rparr>))"

text \<open>
  \<open>save()\<close> of a loaded user document. The program saves loaded users only
  after changing \<open>tokens\<close>: the token sub-documents are validated, the
  pre-save hook runs with \<open>password\<close> unmodified, and the write is
  \<open>$set\<close> of the modified paths (\<open>tokens\<close>, and \<open>password\<close> if the hook
  assigned it) on the document with this \<open>_id\<close>, which must still exist.
\<close>

definition save_user :: "string \<Rightarrow> user \<Rightarrow> 'a user_db_scheme \<Rightarrow> mongo_error + 'a user_db_scheme" where
  "save_user salt u db =
     (if [] \<in> set (tokens u) then Inl (ValidationError [''Path `token` is required.''])
      else let u' = user_pre_save salt False u in
        if user_id u' \<notin> user_id ` set (users db) then Inl DocumentNotFound
        else Inr (db\<lparr>users := map (\<lambda>v. if user_id v = user_id u'
                                        then v\<lparr>tokens := tokens u',
                                               password := (if password u' = password u then password v
                                                            else password u')\<rparr>
                                        else v) (users db)\<rparr>))"

section \<open>Instance methods\<close>

definition token_payload :: "user \<Rightarrow> jwt_payload" where
  "token_payload u = \<lparr>p_id = user_id u, p_email = email u, p_role = role_name (role u)\<rparr>"

text \<open>
  \<open>generateAuthToken\<close>: sign \<open>{ _id, email, role }\<close> for seven days, append
  the token to \<open>tokens\<close>, save, and return the token (with the saved document).
\<close>

definition generate_auth_token ::
  "string \<Rightarrow> millis \<Rightarrow> string \<Rightarrow> user \<Rightarrow> 'a user_db_scheme \<Rightarrow> mongo_error + (string \<times> user \<times> 'a user_db_scheme)" where
  "generate_auth_token secret now salt u db =
     (let tok = jwt_sign secret now (token_payload u);
          u' = u\<lparr>tokens := tokens u @ [tok]\<rparr>
      in case save_user salt u' db of
           Inl err \<Rightarrow> Inl err
         | Inr db' \<Rightarrow> Inr (tok, u', db'))"

definition compare_password :: "user \<Rightarrow> string \<Rightarrow> bool" where
  "compare_password u cand = bcrypt_compare cand (password u)"

text \<open>\<open>toJSON\<close>: the document without \<open>password\<close> and \<open>tokens\<close>.\<close>

record user_json =
  j_id :: oid
  j_name :: string
  j_email :: string
  j_role :: role
  j_createdAt :: millis

definition user_to_json :: "user \<Rightarrow> user_json" where
  "user_to_json u =
     \<lparr>j_id = user_id u, j_name = name u, j_email = email u, j_role = role u,
      j_createdAt = user_createdAt u\<rparr>"

section \<open>Facts about the collection operations\<close>

lemma user_pre_save_unmodified [simp]: "user_pre_save salt False u = u"
  by (simp add: user_pre_save_def)

lemma user_pre_save_fields [simp]:
  "user_id (user_pre_save salt m u) = user_id u"
  "email (user_pre_save salt m u) = email u"
  "tokens (user_pre_save salt m u) = tokens u"
  "name (user_pre_save salt m u) = name u"
  "role (user_pre_save salt m u) = role u"
  by (simp_all add: user_pre_save_def)

lemma save_user_Inr:
  "save_user salt u db = Inr db' \<longleftrightarrow>
     [] \<notin> set (tokens u) \<and> user_id u \<in> user_id ` set (users db) \<and>
     db' = db\<lparr>users := map (\<lambda>v. if user_id v = user_id u then v\<lparr>tokens := tokens u\<rparr> else v) (users db)\<rparr>"
  by (auto simp: save_user_def)

lemma generate_auth_token_Inr:
  "generate_auth_token secret now salt u db = Inr (tok, u', db') \<longleftrightarrow>
     tok = jwt_sign secret now (token_payload u) \<and> u' = u\<lparr>tokens := tokens u @ [tok]\<rparr> \<and>
     [] \<notin> set (tokens u) \<and> user_id u \<in> user_id ` set (users db) \<and>
     db' = db\<lparr>users := map (\<lambda>v. if user_id v = user_id u then v\<lparr>tokens := tokens u @ [tok]\<rparr> else v)
                           (users db)\<rparr>"
  by (auto simp: generate_auth_token_def save_user_def Let_def split: sum.splits)

lemma token_payload_id [simp]: "p_id (token_payload u) = user_id u"
  by (simp add: token_payload_def)

lemma token_payload_tokens [simp]: "token_payload (u\<lparr>tokens := ts\<rparr>) = token_payload u"
  by (simp add: token_payload_def)

lemma find_user_by_email_Some:
  "find_user_by_email db e = Some u \<Longrightarrow> u \<in> set (users db) \<and> email u = js_to_lower e"
  by (auto simp: find_user_by_email_def)

section \<open>The token \<open>generateAuthToken\<close> issues\<close>

text \<open>
  C12. The token \<open>generateAuthToken\<close> returns carries the user: until seven
  days after it was signed, \<open>jwt.verify\<close> with the server secret decodes it
  to the user's \<open>_id\<close>, \<open>email\<close> and \<open>role\<close>, with \<open>iat\<close> the signing second
  and \<open>exp\<close> seven days later; and the saved document of that user lists the
  token after the ones it had.
\<close>

theorem generate_auth_token_claims:
  "generate_auth_token secret now salt u db = Inr (tok, u', db') \<Longrightarrow>
   to_secs now' < to_secs now + seven_days \<Longrightarrow>
   jwt_verify secret now' tok =
     Inr \<lparr>p_id = user_id u, p_email = email u, p_role = role_name (role u),
          iat = to_secs now, exp = to_secs now + seven_days\<rparr> \<and>
   (\<exists>v\<in>set (users db'). user_id v = user_id u \<and> tokens v = tokens u @ [tok])"
proof -
  assume g: "generate_auth_token secret now salt u db = Inr (tok, u', db')"
     and t: "to_secs now' < to_secs now + seven_days"
  from g obtain w where w: "w \<in> set (users db)" "user_id w = user_id u"
    by (auto simp: generate_auth_token_Inr)
  from g w have m: "w\<lparr>tokens := tokens u @ [tok]\<rparr> \<in> set (users db')"
    by (force simp: generate_auth_token_Inr)
  from g t have "jwt_verify secret now' tok =
     Inr \<lparr>p_id = user_id u, p_email = email u, p_role = role_name (role u),
          iat = to_secs now, exp = to_secs now + seven_days\<rparr>"
    by (simp add: generate_auth_token_Inr jwt_verify_sign_valid jwt_claims_at_def token_payload_def)
  moreover from m w have "\<exists>v\<in>set (users db'). user_id v = user_id u \<and> tokens v = tokens u @ [tok]"
    by (intro bexI [of _ "w\<lparr>tokens := tokens u @ [tok]\<rparr>"]) simp_all
  ultimately show ?thesis ..
qed

end
