(* ===== verification/Auth_Guard.thy ===== *)
theory Auth_Guard
  imports User
begin

text \<open>
  The authentication middleware \<open>src/middleware/auth.js\<close>: it reads the
  \<open>Authorization\<close> header, strips \<open>Bearer \<close> with \<open>String.replace\<close>,
  verifies the token with the server's secret, and looks up the user whose
  \<open>_id\<close> is the token's \<open>_id\<close> claim and whose \<open>tokens\<close> array still holds
  the token. Every failure, thrown or returned, is a 401 response; the two
  messages of the source are the two constructors of \<open>auth_error\<close>.
\<close>

datatype auth_error = NoToken | TokenNotValid

definition auth_message :: "auth_error \<Rightarrow> string" where
  "auth_message e =
     (case e of NoToken \<Rightarrow> ''No token, authorization denied'' | TokenNotValid \<Rightarrow> ''Token is not valid'')"

text \<open>\<open>req.header('Authorization')?.replace('Bearer ', '')\<close>.\<close>

definition bearer :: string where
  "bearer = ''Bearer ''"

definition bearer_token :: "string option \<Rightarrow> string option" where
  "bearer_token hdr = map_option (replace_first bearer []) hdr"

text \<open>
  The middleware. \<open>jwt.verify\<close> throws on every failure and the \<open>catch\<close>
  answers \<open>Token is not valid\<close>; a missing or empty token answers
  \<open>No token, authorization denied\<close>. On success the request carries the user
  document and the token string.
\<close>

definition auth :: "string \<Rightarrow> millis \<Rightarrow> 'a user_db_scheme \<Rightarrow> string option \<Rightarrow> auth_error + (user \<times> string)" where
  "auth secret now db hdr =
     (case bearer_token hdr of
        None \<Rightarrow> Inl NoToken
      | Some tok \<Rightarrow>
          if tok = [] then Inl NoToken
          else (case jwt_verify secret now tok of
                  Inl _ \<Rightarrow> Inl TokenNotValid
                | Inr c \<Rightarrow>
                    (case find_user_by_token db (p_id c) tok of
                       None \<Rightarrow> Inl TokenNotValid
                     | Some u \<Rightarrow> Inr (u, tok))))"

section \<open>What the middleware guarantees\<close>

lemma bearer_token_Bearer [simp]: "bearer_token (Some (bearer @ t)) = Some t"
  by (simp add: bearer_token_def)

text \<open>
  Soundness of the guard: an accepted request names a stored user that still
  lists the presented token, and the token verifies with the server's secret
  to claims about that user, unexpired at the time of the request.
\<close>

lemma auth_Inr:
  assumes "auth secret now db hdr = Inr (u, tok)"
  shows "u \<in> set (users db) \<and> tok \<in> set (tokens u) \<and> bearer_token hdr = Some tok \<and> tok \<noteq> [] \<and>
         (\<exists>c. jwt_verify secret now tok = Inr c \<and> p_id c = user_id u \<and> to_secs now < exp c)"
  using assms
  by (auto simp: auth_def find_user_by_token_def jwt_verify_Inr_exp
           split: option.splits sum.splits if_splits)

text \<open>
  Completeness for a token that was signed with the secret, is unexpired, and
  is listed by the user it names.
\<close>

lemma auth_accepts:
  assumes "to_secs now' < to_secs now + seven_days"
    and "u \<in> set (users db)" and "user_id u = p_id p"
    and "jwt_sign secret now p \<in> set (tokens u)"
  shows "\<exists>v. auth secret now' db (Some (bearer @ jwt_sign secret now p)) = Inr (v, jwt_sign secret now p) \<and>
             user_id v = p_id p"
proof -
  let ?t = "jwt_sign secret now p"
  have "find_user_by_token db (p_id p) ?t \<noteq> None"
    using assms(2-4) by (auto simp: find_user_by_token_def)
  then obtain v where v: "find_user_by_token db (p_id p) ?t = Some v" by blast
  then have "user_id v = p_id p" by (auto simp: find_user_by_token_def)
  with v assms(1) show ?thesis
    by (simp add: auth_def jwt_verify_sign_valid)
qed

text \<open>The result of the middleware depends on the user collection only.\<close>

lemma auth_users_only:
  "users db = users db' \<Longrightarrow> auth secret now db hdr = auth secret now db' hdr"
  unfolding auth_def find_user_by_token_def by (simp split: option.split sum.split)

section \<open>Properties of the guard\<close>

text \<open>
  C3. Access guard soundness: the middleware admits a request only for a stored
  user whose session list still holds the presented token string, and only when
  that token verifies with the server secret to unexpired claims naming that
  user. Validity of the signature alone never admits a request.
\<close>

theorem guard_requires_listed_token:
  assumes "auth secret now db hdr = Inr (u, tok)"
  shows "u \<in> set (users db) \<and> tok \<in> set (tokens u) \<and>
         (\<exists>c. jwt_verify secret now tok = Inr c \<and> p_id c = user_id u \<and> to_secs now < exp c)"
  using auth_Inr [OF assms] by blast

text \<open>
  C10. Expiry: a token issued at clock reading \<open>now\<close> is refused with
  \<open>Token is not valid\<close> from the second \<open>iat + 7 days\<close> on, whatever the user
  collection holds, in particular while the user still lists it.
\<close>

theorem guard_rejects_expired:
  "to_secs now + seven_days \<le> to_secs now' \<Longrightarrow>
   auth secret now' db (Some (bearer @ jwt_sign secret now p)) = Inl TokenNotValid"
  by (simp add: auth_def jwt_verify_sign)

text \<open>
  C11. A token signed with a key other than the server's secret is refused,
  whatever claims it carries and whatever the user collection holds.
\<close>

theorem guard_rejects_foreign_key:
  "secret' \<noteq> secret \<Longrightarrow>
   auth secret now' db (Some (bearer @ jwt_sign secret' now p)) = Inl TokenNotValid"
  by (simp add: auth_def jwt_verify_other_key)

text \<open>
  C15. The header is not required to start with \<open>Bearer \<close>:
  \<open>replace('Bearer ', '')\<close> removes the first occurrence anywhere and leaves a
  header without one unchanged, so a bare token in the \<open>Authorization\<close> header
  is treated exactly as \<open>Bearer <token>\<close>.
\<close>

theorem guard_accepts_bare_token:
  "\<not> occurs bearer tok \<Longrightarrow> auth secret now db (Some tok) = auth secret now db (Some (bearer @ tok))"
  by (simp add: auth_def bearer_token_def replace_first_no_occurrence)

end
