(* ===== verification/Joi.thy ===== *)
theory Joi
  imports Prelude "HOL-Library.Char_ord"
begin

text \<open>
  The Joi validation library as the routers use it: \<open>Joi.object({...})\<close> of
  string, e-mail, enumeration and date keys, validated with the default options
  (\<open>abortEarly\<close>: the first error is reported; unknown keys are refused; strings
  are not trimmed or converted; the empty string is refused by
  \<open>Joi.string()\<close>). Joi is a library outside the repository, modelled from its
  documentation. A request body is a parsed JSON object, an association list from
  keys to JSON values.
\<close>

datatype jval = JStr string | JNum int | JBool bool | JNull | JCompound

type_synonym jbody = "(string \<times> jval) list"

section \<open>Decimal rendering of numbers in messages\<close>

fun dec_digits :: "nat \<Rightarrow> string" where
  "dec_digits n =
     (if n < 10 then [char_of (48 + n)] else dec_digits (n div 10) @ [char_of (48 + n mod 10)])"

section \<open>Rules and errors\<close>

text \<open>
  The rules the schemas of the program use: \<open>Joi.string()\<close> with \<open>min\<close>,
  \<open>max\<close> and \<open>email()\<close>; \<open>Joi.string().valid(...)\<close>;
  \<open>Joi.date().greater('now')\<close>.
\<close>

datatype joi_rule =
    JoiString "nat option" "nat option" bool
  | JoiValid "string list"
  | JoiDateGreaterNow

record joi_key =
  jk_name :: string
  jk_required :: bool
  jk_rule :: joi_rule

datatype joi_error =
    Required string
  | NotString string
  | EmptyString string
  | TooShort string nat
  | TooLong string nat
  | BadEmail string
  | NotOneOf string "string list"
  | BadDate string
  | NotGreater string
  | NotAllowed string

fun join_comma :: "string list \<Rightarrow> string" where
  "join_comma [] = []"
| "join_comma [v] = v"
| "join_comma (v # vs) = v @ '', '' @ join_comma vs"

definition quoted :: "string \<Rightarrow> string" where
  "quoted k = ''\"'' @ k @ ''\"''"

fun joi_message :: "joi_error \<Rightarrow> string" where
  "joi_message (Required k) = quoted k @ '' is required''"
| "joi_message (NotString k) = quoted k @ '' must be a string''"
| "joi_message (EmptyString k) = quoted k @ '' is not allowed to be empty''"
| "joi_message (TooShort k n) = quoted k @ '' length must be at least '' @ dec_digits n @ '' characters long''"
| "joi_message (TooLong k n) =
     quoted k @ '' length must be less than or equal to '' @ dec_digits n @ '' characters long''"
| "joi_message (BadEmail k) = quoted k @ '' must be a valid email''"
| "joi_message (NotOneOf k vs) = quoted k @ '' must be one of ['' @ join_comma vs @ '']''"
| "joi_message (BadDate k) = quoted k @ '' must be a valid date''"
| "joi_message (NotGreater k) = quoted k @ '' must be greater than \"now\"''"
| "joi_message (NotAllowed k) = quoted k @ '' is not allowed''"

section \<open>E-mail addresses\<close>

text \<open>
  \<open>Joi.string().email()\<close> with its defaults: one \<open>@\<close>; a local part of at
  most 64 characters drawn from the RFC 5322 atom characters and dots, with no
  leading, trailing or doubled dot; a domain of at least two dot-separated labels
  of letters, digits and inner hyphens, at most 63 characters each; a top-level
  label that is alphabetic (the model's stand-in for Joi's IANA list); at most
  254 characters in all.
\<close>

fun split_on :: "char \<Rightarrow> string \<Rightarrow> string list" where
  "split_on d [] = [[]]"
| "split_on d (c # s) =
     (if c = d then [] # split_on d s
      else (case split_on d s of [] \<Rightarrow> [[c]] | w # ws \<Rightarrow> (c # w) # ws))"

definition is_alpha :: "char \<Rightarrow> bool" where
  "is_alpha c \<longleftrightarrow> (CHR ''a'' \<le> c \<and> c \<le> CHR ''z'') \<or> (CHR ''A'' \<le> c \<and> c \<le> CHR ''Z'')"

definition is_alnum :: "char \<Rightarrow> bool" where
  "is_alnum c \<longleftrightarrow> is_alpha c \<or> (CHR ''0'' \<le> c \<and> c \<le> CHR ''9'')"

definition is_atext :: "char \<Rightarrow> bool" where
  "is_atext c \<longleftrightarrow> is_alnum c \<or> c \<in> set ''!#$%&'*+-/=?^_`{|}~''"

definition email_label_ok :: "string \<Rightarrow> bool" where
  "email_label_ok l \<longleftrightarrow>
     l \<noteq> [] \<and> length l \<le> 63 \<and> list_all (\<lambda>c. is_alnum c \<or> c = CHR ''-'') l \<and>
     hd l \<noteq> CHR ''-'' \<and> last l \<noteq> CHR ''-''"

definition joi_email_ok :: "string \<Rightarrow> bool" where
  "joi_email_ok s \<longleftrightarrow>
     length s \<le> 254 \<and>
     (case split_on CHR ''@'' s of
        [loc, dm] \<Rightarrow>
          loc \<noteq> [] \<and> length loc \<le> 64 \<and> list_all (\<lambda>w. w \<noteq> [] \<and> list_all is_atext w) (split_on CHR ''.'' loc) \<and>
          (let ls = split_on CHR ''.'' dm in
             2 \<le> length ls \<and> list_all email_label_ok ls \<and> 2 \<le> length (last ls) \<and>
             list_all is_alpha (last ls))
      | _ \<Rightarrow> False)"

section \<open>Validation of one value and of an object\<close>

text \<open>
  The value a successful validation hands back: strings unchanged, dates
  converted to a JavaScript \<open>Date\<close> (milliseconds; may be negative). A string
  date is read by the runtime's \<open>Date\<close> parser, a parameter of the model.
\<close>

datatype jout = OStr string | ODate int

fun joi_check :: "(string \<Rightarrow> int option) \<Rightarrow> millis \<Rightarrow> string \<Rightarrow> joi_rule \<Rightarrow> jval \<Rightarrow> joi_error + jout" where
  "joi_check pd now k (JoiString mn mx em) v =
     (case v of
        JStr s \<Rightarrow>
          if s = [] then Inl (EmptyString k)
          else if (case mn of Some n \<Rightarrow> length s < n | None \<Rightarrow> False) then Inl (TooShort k (the mn))
          else if (case mx of Some n \<Rightarrow> n < length s | None \<Rightarrow> False) then Inl (TooLong k (the mx))
          else if em \<and> \<not> joi_email_ok s then Inl (BadEmail k)
          else Inr (OStr s)
      | _ \<Rightarrow> Inl (NotString k))"
| "joi_check pd now k (JoiValid vs) v =
     (case v of
        JStr s \<Rightarrow> if s \<in> set vs then Inr (OStr s) else Inl (NotOneOf k vs)
      | _ \<Rightarrow> Inl (NotOneOf k vs))"
| "joi_check pd now k JoiDateGreaterNow v =
     (let d = (case v of JNum n \<Rightarrow> Some n | JStr s \<Rightarrow> pd s | _ \<Rightarrow> None) in
      case d of
        None \<Rightarrow> Inl (BadDate k)
      | Some t \<Rightarrow> if int now < t then Inr (ODate t) else Inl (NotGreater k))"

fun joi_keys :: "(string \<Rightarrow> int option) \<Rightarrow> millis \<Rightarrow> joi_key list \<Rightarrow> jbody \<Rightarrow> joi_error + (string \<times> jout) list" where
  "joi_keys pd now [] b = Inr []"
| "joi_keys pd now (k # ks) b =
     (case map_of b (jk_name k) of
        None \<Rightarrow> if jk_required k then Inl (Required (jk_name k)) else joi_keys pd now ks b
      | Some v \<Rightarrow>
          (case joi_check pd now (jk_name k) (jk_rule k) v of
             Inl e \<Rightarrow> Inl e
           | Inr ov \<Rightarrow> (case joi_keys pd now ks b of Inl e \<Rightarrow> Inl e | Inr os \<Rightarrow> Inr ((jk_name k, ov) # os))))"

text \<open>\<open>schema.validate(body)\<close>: the declared keys in order, then unknown keys.\<close>

definition joi_validate :: "(string \<Rightarrow> int option) \<Rightarrow> millis \<Rightarrow> joi_key list \<Rightarrow> jbody \<Rightarrow> joi_error + (string \<times> jout) list" where
  "joi_validate pd now sch b =
     (case joi_keys pd now sch b of
        Inl e \<Rightarrow> Inl e
      | Inr os \<Rightarrow>
          (case find (\<lambda>(k, _). k \<notin> set (map jk_name sch)) b of
             Some (k, _) \<Rightarrow> Inl (NotAllowed k)
           | None \<Rightarrow> Inr os))"

definition out_str :: "(string \<times> jout) list \<Rightarrow> string \<Rightarrow> string option" where
  "out_str os k = (case map_of os k of Some (OStr s) \<Rightarrow> Some s | _ \<Rightarrow> None)"

definition out_date :: "(string \<times> jout) list \<Rightarrow> string \<Rightarrow> int option" where
  "out_date os k = (case map_of os k of Some (ODate t) \<Rightarrow> Some t | _ \<Rightarrow> None)"

section \<open>Facts about validation\<close>

lemma joi_validate_keys:
  "joi_validate pd now sch b = Inr os \<Longrightarrow> joi_keys pd now sch b = Inr os"
  by (auto simp: joi_validate_def split: sum.splits option.splits)

text \<open>Validation only passes on keys of the body: it never invents a key.\<close>

lemma joi_keys_out_keys:
  "joi_keys pd now ks b = Inr v \<Longrightarrow> map_of v k \<noteq> None \<Longrightarrow> map_of b k \<noteq> None"
proof (induction ks arbitrary: v)
  case Nil
  then show ?case by simp
next
  case (Cons key ks)
  then show ?case
    by (auto split: option.splits sum.splits if_splits simp del: joi_check.simps)
qed

lemma joi_validate_out_keys:
  "joi_validate pd now sch b = Inr v \<Longrightarrow> map_of v k \<noteq> None \<Longrightarrow> map_of b k \<noteq> None"
  by (rule joi_keys_out_keys [OF joi_validate_keys])

lemma out_str_key: "out_str v k = Some s \<Longrightarrow> map_of v k \<noteq> None"
  by (auto simp: out_str_def split: option.splits jout.splits)

lemma out_date_key: "out_date v k = Some d \<Longrightarrow> map_of v k \<noteq> None"
  by (auto simp: out_date_def split: option.splits jout.splits)

lemma joi_check_string_Inr:
  "joi_check pd now k (JoiString mn mx em) (JStr s) = Inr ov \<Longrightarrow> ov = OStr s"
  by (simp split: if_splits)

text \<open>Every present key of a schema with distinct keys passed its rule, and its
  validated value is the one handed back.\<close>

lemma joi_keys_check:
  assumes "joi_keys pd now ks b = Inr v" and "distinct (map jk_name ks)"
    and "key \<in> set ks" and "map_of b (jk_name key) = Some val"
  shows "\<exists>ov. joi_check pd now (jk_name key) (jk_rule key) val = Inr ov \<and> map_of v (jk_name key) = Some ov"
  using assms
proof (induction ks arbitrary: v)
  case Nil
  then show ?case by simp
next
  case (Cons k ks)
  show ?case
  proof (cases "key = k")
    case True
    with Cons.prems show ?thesis by (auto split: sum.splits)
  next
    case False
    with Cons.prems have key: "key \<in> set ks" by simp
    with Cons.prems(2) have ne: "jk_name key \<noteq> jk_name k"
      by (metis distinct.simps(2) imageI list.simps(9) set_map)
    from Cons.prems obtain os where os: "joi_keys pd now ks b = Inr os"
      and v: "v = os \<or> (\<exists>ov. v = (jk_name k, ov) # os)"
      by (auto split: option.splits sum.splits if_splits)
    from Cons.IH [OF os] Cons.prems key
    have "\<exists>ov. joi_check pd now (jk_name key) (jk_rule key) val = Inr ov \<and> map_of os (jk_name key) = Some ov"
      by simp
    with v ne show ?thesis by auto
  qed
qed

lemma joi_keys_str:
  assumes "joi_keys pd now ks b = Inr v" and "distinct (map jk_name ks)"
    and "key \<in> set ks" and "jk_rule key = JoiString mn mx em"
    and "map_of b (jk_name key) = Some (JStr s)"
  shows "out_str v (jk_name key) = Some s \<and> joi_check pd now (jk_name key) (jk_rule key) (JStr s) = Inr (OStr s)"
proof -
  obtain ov where c: "joi_check pd now (jk_name key) (jk_rule key) (JStr s) = Inr ov"
    and m: "map_of v (jk_name key) = Some ov"
    using joi_keys_check [OF assms(1-3) assms(5)] by blast
  have "ov = OStr s" using c assms(4) joi_check_string_Inr by metis
  with c m show ?thesis by (simp add: out_str_def del: joi_check.simps)
qed

end
