(* ===== verification/Auth_Routes.thy ===== *)
theory Auth_Routes
  imports Auth_Guard Joi
begin

text \<open>
  The authentication router \<open>src/routes/auth.js\<close>: \<open>POST /register\<close>,
  \<open>POST /login\<close>, \<open>GET /me\<close> and \<open>POST /logout\<close>, the last two behind the
  middleware. A handler takes the request and the database and returns what Express
  does with the request (a response with a status and a JSON body, or
  \<open>next(error)\<close>, which hands a thrown database error to the global error
  handler) together with the database after the handler's writes.
\<close>

section \<open>Responses\<close>

datatype 'b route_result = Respond nat 'b | NextError mongo_error

datatype auth_body =
    ErrorBody string
  | AuthBody string user_json string
  | UserBody user_json
  | MessageBody string

section \<open>Validation schemas\<close>

definition register_schema :: "joi_key list" where
  "register_schema =
     [\<lparr>jk_name = ''name'', jk_required = True, jk_rule = JoiString (Some 2) (Some 50) False\<rparr>,
      \<lparr>jk_name = ''email'', jk_required = True, jk_rule = JoiString None None True\<rparr>,
      \<lparr>jk_name = ''password'', jk_required = True, jk_rule = JoiString (Some 6) None False\<rparr>]"

definition login_schema :: "joi_key list" where
  "login_schema =
     [\<lparr>jk_name = ''email'', jk_required = True, jk_rule = JoiString None None True\<rparr>,
      \<lparr>jk_name = ''password'', jk_required = True, jk_rule = JoiString None None False\<rparr>]"

text \<open>A required string key of a validated body (always present after success).\<close>

definition the_str :: "(string \<times> jout) list \<Rightarrow> string \<Rightarrow> string" where
  "the_str v k = (case out_str v k of Some s \<Rightarrow> s | None \<Rightarrow> [])"

text \<open>The schemas of this router have no date keys: the date parser is never called.\<close>

definition no_dates :: "string \<Rightarrow> int option" where
  "no_dates s = None"

section \<open>Handlers\<close>

text \<open>
  \<open>POST /api/auth/register\<close>: validate; refuse an e-mail that is already
  registered; create and save the user (validators, hashing hook, unique
  index); then \<open>generateAuthToken\<close>, which saves the document again.
\<close>

definition register ::
  "string \<Rightarrow> millis \<Rightarrow> string \<Rightarrow> jbody \<Rightarrow> 'a user_db_scheme \<Rightarrow> auth_body route_result \<times> 'a user_db_scheme" where
  "register secret now salt b db =
     (case joi_validate no_dates now register_schema b of
        Inl err \<Rightarrow> (Respond 400 (ErrorBody (joi_message err)), db)
      | Inr v \<Rightarrow>
          (let n = the_str v ''name''; e = the_str v ''email''; pw = the_str v ''password'' in
           if find_user_by_email db e \<noteq> None
           then (Respond 400 (ErrorBody ''User already exists with this email''), db)
           else
             (let i = next_oid db; db1 = db\<lparr>next_oid := Suc i\<rparr>; u = new_user i now n e pw in
              case insert_user salt u db1 of
                Inl err \<Rightarrow> (NextError err, db1)
              | Inr db2 \<Rightarrow>
                  (case generate_auth_token secret now salt (user_pre_save salt True u) db2 of
                     Inl err \<Rightarrow> (NextError err, db2)
                   | Inr (tok, u', db3) \<Rightarrow>
                       (Respond 201 (AuthBody ''User registered successfully'' (user_to_json u') tok), db3)))))"

text \<open>
  \<open>POST /api/auth/login\<close>: validate; look the user up by e-mail; compare the
  password; on success \<open>generateAuthToken\<close>. Both failures answer the same 401.
\<close>

definition login ::
  "string \<Rightarrow> millis \<Rightarrow> string \<Rightarrow> jbody \<Rightarrow> 'a user_db_scheme \<Rightarrow> auth_body route_result \<times> 'a user_db_scheme" where
  "login secret now salt b db =
     (case joi_validate no_dates now login_schema b of
        Inl err \<Rightarrow> (Respond 400 (ErrorBody (joi_message err)), db)
      | Inr v \<Rightarrow>
          (let e = the_str v ''email''; pw = the_str v ''password'' in
           case find_user_by_email db e of
             None \<Rightarrow> (Respond 401 (ErrorBody ''Invalid credentials''), db)
           | Some u \<Rightarrow>
               if \<not> compare_password u pw then (Respond 401 (ErrorBody ''Invalid credentials''), db)
               else
                 (case generate_auth_token secret now salt u db of
                    Inl err \<Rightarrow> (NextError err, db)
                  | Inr (tok, u', db') \<Rightarrow>
                      (Respond 200 (AuthBody ''Login successful'' (user_to_json u') tok), db'))))"

text \<open>A route behind the middleware: 401 with the middleware's message, or the handler.\<close>

definition with_auth ::
  "string \<Rightarrow> millis \<Rightarrow> 'a user_db_scheme \<Rightarrow> string option \<Rightarrow> (string \<Rightarrow> 'b) \<Rightarrow>
   (user \<Rightarrow> string \<Rightarrow> 'b route_result \<times> 'a user_db_scheme) \<Rightarrow> 'b route_result \<times> 'a user_db_scheme" where
  "with_auth secret now db hdr err h =
     (case auth secret now db hdr of
        Inl e \<Rightarrow> (Respond 401 (err (auth_message e)), db)
      | Inr (u, tok) \<Rightarrow> h u tok)"

text \<open>\<open>GET /api/auth/me\<close>.\<close>

definition me :: "string \<Rightarrow> millis \<Rightarrow> string option \<Rightarrow> 'a user_db_scheme \<Rightarrow> auth_body route_result \<times> 'a user_db_scheme" where
  "me secret now hdr db =
     with_auth secret now db hdr ErrorBody (\<lambda>u tok. (Respond 200 (UserBody (user_to_json u)), db))"

text \<open>
  \<open>POST /api/auth/logout\<close>: remove every copy of the presented token from the
  user's \<open>tokens\<close> (\<open>filter(t => t.token !== req.token)\<close>) and save.
\<close>

definition logout_handler :: "string \<Rightarrow> user \<Rightarrow> string \<Rightarrow> 'a user_db_scheme \<Rightarrow> auth_body route_result \<times> 'a user_db_scheme" where
  "logout_handler salt u tok db =
     (let u' = u\<lparr>tokens := filter (\<lambda>t. t \<noteq> tok) (tokens u)\<rparr> in
      case save_user salt u' db of
        Inl err \<Rightarrow> (NextError err, db)
      | Inr db' \<Rightarrow> (Respond 200 (MessageBody ''Logged out successfully''), db'))"

definition logout ::
  "string \<Rightarrow> millis \<Rightarrow> string \<Rightarrow> string option \<Rightarrow> 'a user_db_scheme \<Rightarrow> auth_body route_result \<times> 'a user_db_scheme" where
  "logout secret now salt hdr db =
     with_auth secret now db hdr ErrorBody (\<lambda>u tok. logout_handler salt u tok db)"

section \<open>The invariant of the users collection\<close>

text \<open>
  E-mails are unique (the unique index) and stored in lower case (the setter);
  identifiers are unique and below the allocation counter; no stored token is
  empty (the sub-document's \<open>required\<close>).
\<close>

definition users_wf :: "'a user_db_scheme \<Rightarrow> bool" where
  "users_wf db \<longleftrightarrow>
     distinct (map email (users db)) \<and> distinct (map user_id (users db)) \<and>
     (\<forall>u \<in> set (users db). user_id u < next_oid db \<and> email u = js_to_lower (email u) \<and>
                            [] \<notin> set (tokens u))"

lemma js_to_lower_idem [simp]: "js_to_lower (js_to_lower s) = js_to_lower s"
  by (simp add: js_to_lower_def js_lower_char_def comp_def less_eq_char_def)

lemma users_wf_set_tokens:
  assumes "users_wf db" and "[] \<notin> set ts"
  shows "users_wf (db\<lparr>users := map (\<lambda>v. if user_id v = i then v\<lparr>tokens := ts\<rparr> else v) (users db)\<rparr>)"
  using assms by (auto simp: users_wf_def)

lemma insert_user_Inr:
  "insert_user salt u db = Inr db' \<longleftrightarrow>
     user_validation_errors u = [] \<and> email u \<notin> email ` set (users db) \<and>
     db' = db\<lparr>users := users db @ [user_pre_save salt True u]\<rparr>"
  by (auto simp: insert_user_def Let_def)

lemma users_wf_insert:
  assumes "users_wf db" and "insert_user salt u db = Inr db'"
    and "user_id u \<notin> user_id ` set (users db)" and "user_id u < next_oid db"
    and "email u = js_to_lower (email u)"
  shows "users_wf db'"
proof -
  have "user_validation_errors u = []" and "email u \<notin> email ` set (users db)"
    and db': "db' = db\<lparr>users := users db @ [user_pre_save salt True u]\<rparr>"
    using assms(2) by (auto simp: insert_user_Inr)
  moreover have "[] \<notin> set (tokens u)"
    using \<open>user_validation_errors u = []\<close> by (auto simp: user_validation_errors_def split: if_splits)
  ultimately show ?thesis using assms(1,3-5) by (auto simp: users_wf_def)
qed

lemma users_wf_id_unique:
  "users_wf db \<Longrightarrow> u \<in> set (users db) \<Longrightarrow> v \<in> set (users db) \<Longrightarrow> user_id u = user_id v \<Longrightarrow> u = v"
  by (auto simp: users_wf_def intro: distinct_map_eqD)

lemma find_user_by_email_wf:
  "users_wf db \<Longrightarrow> u \<in> set (users db) \<Longrightarrow> email u = js_to_lower e \<Longrightarrow> find_user_by_email db e = Some u"
  by (auto simp: users_wf_def find_user_by_email_def intro: find_distinct_key)

lemma generate_auth_token_wf:
  "generate_auth_token secret now salt u db = Inr (tok, u', db') \<Longrightarrow> users_wf db \<Longrightarrow> users_wf db'"
  by (auto simp: generate_auth_token_Inr intro!: users_wf_set_tokens)

section \<open>Outcomes of the handlers\<close>

lemma login_ok:
  assumes "login secret now salt b db = (Respond 200 r, db')"
  shows "\<exists>v u tok. joi_validate no_dates now login_schema b = Inr v \<and>
           find_user_by_email db (the_str v ''email'') = Some u \<and>
           compare_password u (the_str v ''password'') \<and>
           generate_auth_token secret now salt u db = Inr (tok, u\<lparr>tokens := tokens u @ [tok]\<rparr>, db') \<and>
           r = AuthBody ''Login successful'' (user_to_json (u\<lparr>tokens := tokens u @ [tok]\<rparr>)) tok"
  using assms
  by (auto simp: login_def Let_def split: sum.splits option.splits if_splits prod.splits
           dest: generate_auth_token_Inr [THEN iffD1])

lemma logout_ok:
  assumes "logout secret now salt hdr db = (Respond 200 r, db')"
  shows "\<exists>u tok. auth secret now db hdr = Inr (u, tok) \<and>
           db' = db\<lparr>users := map (\<lambda>v. if user_id v = user_id u then v\<lparr>tokens := filter (\<lambda>t. t \<noteq> tok) (tokens u)\<rparr> else v)
                                  (users db)\<rparr>"
  using assms
  by (auto simp: logout_def with_auth_def logout_handler_def Let_def save_user_Inr
           split: sum.splits prod.splits)

text \<open>
  A successful login, for a stored user whose password matches, and the state it
  leaves: the token signed now is appended to that user's sessions.
\<close>

lemma login_succeeds:
  assumes "users_wf db" and "u \<in> set (users db)" and "email u = js_to_lower e"
    and "e \<noteq> []" and "joi_email_ok e" and "pw \<noteq> []" and "compare_password u pw"
  shows "login secret now salt [(''email'', JStr e), (''password'', JStr pw)] db =
           (Respond 200 (AuthBody ''Login successful''
              (user_to_json (u\<lparr>tokens := tokens u @ [jwt_sign secret now (token_payload u)]\<rparr>))
              (jwt_sign secret now (token_payload u))),
            db\<lparr>users := map (\<lambda>v. if user_id v = user_id u
                                  then v\<lparr>tokens := tokens u @ [jwt_sign secret now (token_payload u)]\<rparr> else v)
                            (users db)\<rparr>)"
proof -
  have v: "joi_validate no_dates now login_schema [(''email'', JStr e), (''password'', JStr pw)] =
           Inr [(''email'', OStr e), (''password'', OStr pw)]"
    using assms(4-6) by (simp add: joi_validate_def login_schema_def)
  have f: "find_user_by_email db e = Some u"
    using assms(1-3) by (rule find_user_by_email_wf)
  have "[] \<notin> set (tokens u)" using assms(1,2) by (simp add: users_wf_def)
  then have g: "generate_auth_token secret now salt u db =
      Inr (jwt_sign secret now (token_payload u), u\<lparr>tokens := tokens u @ [jwt_sign secret now (token_payload u)]\<rparr>,
           db\<lparr>users := map (\<lambda>v. if user_id v = user_id u
                                 then v\<lparr>tokens := tokens u @ [jwt_sign secret now (token_payload u)]\<rparr> else v)
                           (users db)\<rparr>)"
    using assms(2) by (simp add: generate_auth_token_Inr)
  show ?thesis
    using v f g assms(7) by (simp add: login_def the_str_def out_str_def)
qed

text \<open>
  A successful registration: the validated body names an e-mail no user has;
  the new document, hashed once, is appended with the fresh identifier, and then
  holds exactly the token the response returns.
\<close>

lemma register_ok:
  assumes "register secret now salt b db = (Respond 201 r, db')"
  shows "\<exists>v. joi_validate no_dates now register_schema b = Inr v \<and>
     find_user_by_email db (the_str v ''email'') = None \<and>
     (let u = new_user (next_oid db) now (the_str v ''name'') (the_str v ''email'') (the_str v ''password'');
          tok = jwt_sign secret now (token_payload u)
      in user_validation_errors u = [] \<and> email u \<notin> email ` set (users db) \<and>
         db' = db\<lparr>next_oid := Suc (next_oid db),
                  users := map (\<lambda>w. if user_id w = next_oid db then w\<lparr>tokens := [tok]\<rparr> else w)
                             (users db @ [user_pre_save salt True u])\<rparr> \<and>
         r = AuthBody ''User registered successfully'' (user_to_json ((user_pre_save salt True u)\<lparr>tokens := [tok]\<rparr>)) tok)"
proof -
  have tp: "token_payload (user_pre_save salt True u) = token_payload u" for u
    by (simp add: token_payload_def)
  show ?thesis
    using assms
    by (auto simp: register_def Let_def insert_user_Inr generate_auth_token_Inr tp new_user_def
             split: sum.splits if_splits prod.splits)
qed

lemma token_after_insert:
  "insert_user salt u db1 = Inr db2 \<Longrightarrow> tokens u = [] \<Longrightarrow>
   \<exists>tok u' db3. generate_auth_token secret now salt (user_pre_save salt True u) db2 = Inr (tok, u', db3)"
  by (simp add: insert_user_Inr generate_auth_token_Inr)

text \<open>
  Registration succeeds whenever both validators accept and the e-mail is free:
  the insert cannot then fail, and neither can the token save after it. The
  token it returns authenticates the new user, whose id is the counter's value.
\<close>

lemma register_succeeds:
  assumes "joi_validate no_dates now register_schema b = Inr v"
    and "find_user_by_email db (the_str v ''email'') = None"
    and "user_validation_errors (new_user (next_oid db) now (the_str v ''name'') (the_str v ''email'')
           (the_str v ''password'')) = []"
  shows "\<exists>uj tok db'. register secret now salt b db = (Respond 201 (AuthBody ''User registered successfully'' uj tok), db')"
proof -
  let ?u = "new_user (next_oid db) now (the_str v ''name'') (the_str v ''email'') (the_str v ''password'')"
  let ?db1 = "db\<lparr>next_oid := Suc (next_oid db)\<rparr>"
  have "email ?u \<notin> email ` set (users ?db1)"
    using assms(2) by (auto simp: find_user_by_email_def new_user_def)
  with assms(3) have ins: "insert_user salt ?u ?db1 = Inr (?db1\<lparr>users := users ?db1 @ [user_pre_save salt True ?u]\<rparr>)"
    by (simp add: insert_user_Inr)
  obtain tok u' db3 where "generate_auth_token secret now salt (user_pre_save salt True ?u)
      (?db1\<lparr>users := users ?db1 @ [user_pre_save salt True ?u]\<rparr>) = Inr (tok, u', db3)"
    using token_after_insert [OF ins, where secret = secret and now = now] by (auto simp: new_user_def)
  with assms(1,2) ins show ?thesis by (simp add: register_def Let_def)
qed

lemma register_token_authenticates:
  assumes reg: "register secret now salt b db = (Respond 201 (AuthBody m uj tok), db')"
    and exp: "to_secs now' < to_secs now + seven_days"
  shows "\<exists>u. auth secret now' db' (Some (bearer @ tok)) = Inr (u, tok) \<and> user_id u = next_oid db"
proof -
  obtain v where v: "joi_validate no_dates now register_schema b = Inr v"
    and rest: "let u = new_user (next_oid db) now (the_str v ''name'') (the_str v ''email'') (the_str v ''password'');
          tok' = jwt_sign secret now (token_payload u)
      in user_validation_errors u = [] \<and> email u \<notin> email ` set (users db) \<and>
         db' = db\<lparr>next_oid := Suc (next_oid db),
                  users := map (\<lambda>w. if user_id w = next_oid db then w\<lparr>tokens := [tok']\<rparr> else w)
                             (users db @ [user_pre_save salt True u])\<rparr> \<and>
         AuthBody m uj tok = AuthBody ''User registered successfully'' (user_to_json ((user_pre_save salt True u)\<lparr>tokens := [tok']\<rparr>)) tok'"
    using register_ok [OF reg] by blast
  define u where "u = new_user (next_oid db) now (the_str v ''name'') (the_str v ''email'') (the_str v ''password'')"
  have tok: "tok = jwt_sign secret now (token_payload u)"
    and db': "db' = db\<lparr>next_oid := Suc (next_oid db),
                  users := map (\<lambda>w. if user_id w = next_oid db then w\<lparr>tokens := [tok]\<rparr> else w)
                             (users db @ [user_pre_save salt True u])\<rparr>"
    using rest by (simp_all add: u_def Let_def)
  have uid: "user_id u = next_oid db" by (simp add: u_def new_user_def)
  have "(user_pre_save salt True u)\<lparr>tokens := [tok]\<rparr> \<in> set (users db')"
    using uid by (simp add: db')
  from auth_accepts [OF exp this, where p = "token_payload u"] uid tok show ?thesis
    by (simp add: token_payload_def)
qed

section \<open>The handlers keep the invariant\<close>

lemma register_wf:
  assumes "users_wf db"
  shows "users_wf (snd (register secret now salt b db))"
proof -
  let ?db1 = "db\<lparr>next_oid := Suc (next_oid db)\<rparr>"
  have wf1: "users_wf ?db1" using assms by (auto simp: users_wf_def)
  have ins: "users_wf db2" if "insert_user salt (new_user (next_oid db) now n e pw) ?db1 = Inr db2" for n e pw db2
  proof (rule users_wf_insert [OF wf1 that])
    show "user_id (new_user (next_oid db) now n e pw) \<notin> user_id ` set (users ?db1)"
      using assms by (auto simp: users_wf_def new_user_def)
  qed (simp_all add: new_user_def)
  show ?thesis
    using assms wf1 ins
    by (auto simp: register_def Let_def split: sum.splits prod.splits dest: generate_auth_token_wf)
qed

lemma login_wf:
  "users_wf db \<Longrightarrow> users_wf (snd (login secret now salt b db))"
  by (auto simp: login_def Let_def split: sum.splits prod.splits option.splits dest: generate_auth_token_wf)

lemma logout_wf:
  assumes "users_wf db"
  shows "users_wf (snd (logout secret now salt hdr db))"
proof (cases "auth secret now db hdr")
  case (Inl e)
  then show ?thesis using assms by (simp add: logout_def with_auth_def)
next
  case (Inr ut)
  then obtain u tok where a: "auth secret now db hdr = Inr (u, tok)" by (cases ut) auto
  then have "u \<in> set (users db)" by (blast dest: auth_Inr)
  with assms have "[] \<notin> set (filter (\<lambda>t. t \<noteq> tok) (tokens u))" by (auto simp: users_wf_def)
  with a assms show ?thesis
    by (auto simp: logout_def with_auth_def logout_handler_def Let_def save_user_Inr
             split: sum.splits intro!: users_wf_set_tokens)
qed

lemma register_validated_email:
  assumes "joi_validate no_dates now register_schema b = Inr v" and "map_of b ''email'' = Some (JStr e)"
  shows "the_str v ''email'' = e \<and> e \<noteq> [] \<and> joi_email_ok e"
proof -
  have k: "joi_keys no_dates now register_schema b = Inr v" using assms(1) by (rule joi_validate_keys)
  have "out_str v ''email'' = Some e \<and>
        joi_check no_dates now ''email'' (JoiString None None True) (JStr e) = Inr (OStr e)"
    using joi_keys_str [OF k, where key = "\<lparr>jk_name = ''email'', jk_required = True, jk_rule = JoiString None None True\<rparr>"
        and mn = None and mx = None and em = True]
      assms(2) by (simp add: register_schema_def del: joi_check.simps)
  then show ?thesis by (simp add: the_str_def split: if_splits)
qed

lemma register_validated_password:
  assumes "joi_validate no_dates now register_schema b = Inr v" and "map_of b ''password'' = Some (JStr pw)"
  shows "the_str v ''password'' = pw \<and> 6 \<le> length pw"
proof -
  have k: "joi_keys no_dates now register_schema b = Inr v" using assms(1) by (rule joi_validate_keys)
  have "out_str v ''password'' = Some pw \<and>
        joi_check no_dates now ''password'' (JoiString (Some 6) None False) (JStr pw) = Inr (OStr pw)"
    using joi_keys_str [OF k, where key = "\<lparr>jk_name = ''password'', jk_required = True, jk_rule = JoiString (Some 6) None False\<rparr>"
        and mn = "Some 6" and mx = None and em = False]
      assms(2) by (simp add: register_schema_def del: joi_check.simps)
  then show ?thesis by (simp add: the_str_def split: if_splits)
qed

text \<open>The user a successful registration creates, as it is stored afterwards.\<close>

lemma register_stores_user:
  assumes "register secret now salt b db = (Respond 201 (AuthBody m uj tok), db')"
    and "map_of b ''email'' = Some (JStr e)" and "map_of b ''password'' = Some (JStr pw)"
  shows "\<exists>w \<in> set (users db'). user_id w = next_oid db \<and> email w = js_to_lower e \<and>
           password w = bcrypt_hash salt pw \<and> tokens w = [tok] \<and> j_id uj = user_id w"
proof -
  from register_ok [OF assms(1)] obtain v where val: "joi_validate no_dates now register_schema b = Inr v"
    and rest: "let u = new_user (next_oid db) now (the_str v ''name'') (the_str v ''email'') (the_str v ''password'');
          t = jwt_sign secret now (token_payload u)
      in user_validation_errors u = [] \<and> email u \<notin> email ` set (users db) \<and>
         db' = db\<lparr>next_oid := Suc (next_oid db),
                  users := map (\<lambda>w. if user_id w = next_oid db then w\<lparr>tokens := [t]\<rparr> else w)
                             (users db @ [user_pre_save salt True u])\<rparr> \<and>
         AuthBody m uj tok = AuthBody ''User registered successfully'' (user_to_json ((user_pre_save salt True u)\<lparr>tokens := [t]\<rparr>)) t"
    by blast
  have e: "the_str v ''email'' = e" using register_validated_email [OF val assms(2)] by simp
  have p: "the_str v ''password'' = pw" using register_validated_password [OF val assms(3)] by simp
  from rest show ?thesis
    by (auto simp: Let_def e p new_user_def user_pre_save_def user_to_json_def)
qed

text \<open>
  What a successful logout leaves behind: the presented token verified to claims
  naming the user, and no user with that id lists it any more; a token in that
  situation is refused from then on, expired or not.
\<close>

lemma logout_unlists:
  assumes "logout secret now salt hdr db = (Respond 200 r, db')"
  shows "\<exists>tok c. bearer_token hdr = Some tok \<and> tok \<noteq> [] \<and> jwt_verify secret now tok = Inr c \<and>
           find_user_by_token db' (p_id c) tok = None"
proof -
  obtain u tok where a: "auth secret now db hdr = Inr (u, tok)"
    and db': "db' = db\<lparr>users := map (\<lambda>v. if user_id v = user_id u
                                        then v\<lparr>tokens := filter (\<lambda>t. t \<noteq> tok) (tokens u)\<rparr> else v)
                                 (users db)\<rparr>"
    using logout_ok [OF assms] by blast
  from auth_Inr [OF a] obtain c where "bearer_token hdr = Some tok" and "tok \<noteq> []"
    and "jwt_verify secret now tok = Inr c" and cid: "p_id c = user_id u"
    by blast
  moreover have "find_user_by_token db' (p_id c) tok = None"
    using db' cid by (auto simp: find_user_by_token_def)
  ultimately show ?thesis by blast
qed

lemma auth_refuses_unlisted:
  assumes "bearer_token hdr = Some tok" and "tok \<noteq> []" and "jwt_verify secret now tok = Inr c"
    and "find_user_by_token db' (p_id c) tok = None"
  shows "auth secret now' db' hdr = Inl TokenNotValid"
proof (cases "jwt_verify secret now' tok")
  case (Inl err)
  then show ?thesis using assms(1,2) by (simp add: auth_def)
next
  case (Inr c')
  with assms(3) have "c' = c" by (blast dest: jwt_verify_Inr_claims)
  with Inr assms show ?thesis by (simp add: auth_def)
qed

section \<open>Properties of the session lifecycle\<close>

text \<open>
  C1. Logout revokes: after a successful \<open>POST /api/auth/logout\<close>, the same
  \<open>Authorization\<close> header is refused with \<open>Token is not valid\<close> at every later
  clock reading, although the token's signature is still valid and it has not
  expired.
\<close>

theorem logout_revokes:
  assumes "logout secret now salt hdr db = (Respond 200 r, db')"
  shows "auth secret now' db' hdr = Inl TokenNotValid"
  using logout_unlists [OF assms] auth_refuses_unlisted by blast

text \<open>
  C2. A token issued by login authenticates: the token a successful
  \<open>POST /api/auth/login\<close> returns, presented as \<open>Bearer <token>\<close> at any clock
  reading before its expiry, is admitted by the middleware for the user the
  response names.
\<close>

theorem login_token_authenticates:
  assumes "login secret now salt b db = (Respond 200 (AuthBody m uj tok), db')"
    and "to_secs now' < to_secs now + seven_days"
  shows "\<exists>u. auth secret now' db' (Some (bearer @ tok)) = Inr (u, tok) \<and> user_id u = j_id uj"
proof -
  obtain v u where f: "find_user_by_email db (the_str v ''email'') = Some u"
    and g: "generate_auth_token secret now salt u db = Inr (tok, u\<lparr>tokens := tokens u @ [tok]\<rparr>, db')"
    and uj: "uj = user_to_json (u\<lparr>tokens := tokens u @ [tok]\<rparr>)"
    using login_ok [OF assms(1)] by auto
  from g have t: "tok = jwt_sign secret now (token_payload u)"
    and db': "db' = db\<lparr>users := map (\<lambda>v. if user_id v = user_id u then v\<lparr>tokens := tokens u @ [tok]\<rparr> else v)
                                  (users db)\<rparr>"
    by (simp_all add: generate_auth_token_Inr)
  have "u \<in> set (users db)" using f by (blast dest: find_user_by_email_Some)
  then have w: "u\<lparr>tokens := tokens u @ [tok]\<rparr> \<in> set (users db')" using db' by force
  have "\<exists>x. auth secret now' db' (Some (bearer @ tok)) = Inr (x, tok) \<and> user_id x = p_id (token_payload u)"
    using auth_accepts [OF assms(2) w, where p = "token_payload u" and secret = secret] t by simp
  with uj show ?thesis by (simp add: user_to_json_def)
qed

text \<open>
  C5. Logout ends one session only: with well-formed users, a request that the
  middleware admitted with another token is still admitted, for the same user,
  after the logout.
\<close>

theorem logout_keeps_other_sessions:
  assumes wf: "users_wf db"
    and lo: "logout secret now salt hdr db = (Respond 200 r, db')"
    and a2: "auth secret now' db hdr2 = Inr (u2, t2)"
    and other: "bearer_token hdr \<noteq> Some t2"
  shows "\<exists>u2'. auth secret now' db' hdr2 = Inr (u2', t2) \<and> user_id u2' = user_id u2"
proof -
  obtain u tok where a: "auth secret now db hdr = Inr (u, tok)"
    and db': "db' = db\<lparr>users := map (\<lambda>v. if user_id v = user_id u
                                        then v\<lparr>tokens := filter (\<lambda>t. t \<noteq> tok) (tokens u)\<rparr> else v)
                                 (users db)\<rparr>"
    using logout_ok [OF lo] by blast
  have u: "u \<in> set (users db)" and bt: "bearer_token hdr = Some tok" using auth_Inr [OF a] by auto
  with other have ne: "t2 \<noteq> tok" by auto
  from auth_Inr [OF a2] obtain c2 where u2: "u2 \<in> set (users db)" and t2: "t2 \<in> set (tokens u2)"
    and b2: "bearer_token hdr2 = Some t2" and ne2: "t2 \<noteq> []"
    and c2: "jwt_verify secret now' t2 = Inr c2" and cid: "p_id c2 = user_id u2"
    by blast
  let ?w = "if user_id u2 = user_id u then u2\<lparr>tokens := filter (\<lambda>t. t \<noteq> tok) (tokens u)\<rparr> else u2"
  have w: "?w \<in> set (users db')" using db' u2 by force
  have "t2 \<in> set (tokens ?w)"
  proof (cases "user_id u2 = user_id u")
    case True
    then have "u2 = u" using users_wf_id_unique [OF wf u2 u] by simp
    with True t2 ne show ?thesis by simp
  qed (simp add: t2)
  moreover have "user_id ?w = user_id u2" by simp
  ultimately have "find_user_by_token db' (user_id u2) t2 \<noteq> None"
    using w by (auto simp: find_user_by_token_def simp del: if_image_distrib)
  then obtain x where x: "find_user_by_token db' (user_id u2) t2 = Some x" by blast
  then have "user_id x = user_id u2" by (auto simp: find_user_by_token_def)
  with x b2 ne2 c2 cid show ?thesis by (simp add: auth_def)
qed

text \<open>
  C6. Registration stores a usable credential: after a successful
  \<open>POST /api/auth/register\<close>, logging in with the same e-mail and password
  succeeds, for the user the registration created. This needs the pre-save
  hook to hash the password exactly once: \<open>register\<close> saves the document
  twice, and the second save must not hash the hash.
\<close>

theorem register_then_login:
  assumes wf: "users_wf db" and salt: "bcrypt_salt_ok salt"
    and reg: "register secret now salt b db = (Respond 201 (AuthBody m uj tok), db')"
    and be: "map_of b ''email'' = Some (JStr e)" and bp: "map_of b ''password'' = Some (JStr pw)"
  shows "\<exists>uj' tok' db''. login secret now' salt' [(''email'', JStr e), (''password'', JStr pw)] db' =
           (Respond 200 (AuthBody ''Login successful'' uj' tok'), db'') \<and> j_id uj' = j_id uj"
proof -
  obtain v where val: "joi_validate no_dates now register_schema b = Inr v"
    using register_ok [OF reg] by blast
  have e: "e \<noteq> []" "joi_email_ok e" using register_validated_email [OF val be] by simp_all
  have p: "pw \<noteq> []" using register_validated_password [OF val bp] by auto
  obtain w where w: "w \<in> set (users db')" and we: "email w = js_to_lower e"
    and wp: "password w = bcrypt_hash salt pw" and wid: "j_id uj = user_id w"
    using register_stores_user [OF reg be bp] by blast
  have wf': "users_wf db'" using register_wf [OF wf, of secret now salt b] reg by simp
  have "compare_password w pw" using salt wp by (simp add: compare_password_def bcrypt_compare_hash)
  from login_succeeds [OF wf' w we e p this, of secret now' salt'] wid show ?thesis
    by (simp add: user_to_json_def)
qed

text \<open>
  C7. Two users cannot share an e-mail: once a registration with an e-mail has
  succeeded, a later registration whose e-mail is the same up to letter case is
  answered 400 \<open>User already exists with this email\<close> and writes nothing.
\<close>

theorem register_twice_refused:
  assumes reg: "register secret now salt b db = (Respond 201 (AuthBody m uj tok), db')"
    and be: "map_of b ''email'' = Some (JStr e)" and bp: "map_of b ''password'' = Some (JStr pw)"
    and val': "joi_validate no_dates now' register_schema b' = Inr v'"
    and be': "map_of b' ''email'' = Some (JStr e')" and same: "js_to_lower e' = js_to_lower e"
  shows "register secret now' salt' b' db' = (Respond 400 (ErrorBody ''User already exists with this email''), db')"
proof -
  obtain w where w: "w \<in> set (users db')" and we: "email w = js_to_lower e"
    using register_stores_user [OF reg be bp] by blast
  have "the_str v' ''email'' = e'" using register_validated_email [OF val' be'] by simp
  with w we same have "find_user_by_email db' (the_str v' ''email'') \<noteq> None"
    by (auto simp: find_user_by_email_def)
  with val' show ?thesis by (simp add: register_def Let_def)
qed

text \<open>
  C8. The users collection stays well formed (unique lower-case e-mails, unique
  identifiers below the allocation counter, no empty token) under every handler
  of the authentication router; \<open>GET /me\<close> writes nothing.
\<close>

theorem auth_routes_preserve_wf:
  assumes "users_wf db"
  shows "users_wf (snd (register secret now salt b db)) \<and> users_wf (snd (login secret now salt b db)) \<and>
         users_wf (snd (logout secret now salt hdr db)) \<and> snd (me secret now hdr db) = db"
  using assms register_wf login_wf logout_wf
  by (auto simp: me_def with_auth_def split: sum.splits)

text \<open>
  C9. Login does not reveal whether an e-mail is registered: a validated login
  for an unknown e-mail and one for a known e-mail with a wrong password get the
  identical response, 401 \<open>Invalid credentials\<close>, and write nothing.
\<close>

theorem login_failure_uniform:
  assumes "joi_validate no_dates now login_schema b1 = Inr v1"
    and "find_user_by_email db (the_str v1 ''email'') = None"
    and "joi_validate no_dates now login_schema b2 = Inr v2"
    and "find_user_by_email db (the_str v2 ''email'') = Some u"
    and "\<not> compare_password u (the_str v2 ''password'')"
  shows "login secret now salt b1 db = (Respond 401 (ErrorBody ''Invalid credentials''), db) \<and>
         login secret now salt' b2 db = login secret now salt b1 db"
  using assms by (simp add: login_def Let_def)

text \<open>
  C13. Only the first 72 bytes of a password count: bcrypt ignores the rest, so
  a login with a different password that shares those 72 bytes with the
  registered one succeeds. Neither the validation schema nor the model bounds
  the password length.
\<close>

theorem login_accepts_password_prefix:
  assumes "users_wf db" and "bcrypt_salt_ok salt" and "u \<in> set (users db)"
    and "password u = bcrypt_hash salt pw" and "email u = js_to_lower e"
    and "e \<noteq> []" and "joi_email_ok e" and "pw' \<noteq> []" and "take 72 pw' = take 72 pw"
  shows "fst (login secret now salt' [(''email'', JStr e), (''password'', JStr pw')] db) =
           Respond 200 (AuthBody ''Login successful''
             (user_to_json (u\<lparr>tokens := tokens u @ [jwt_sign secret now (token_payload u)]\<rparr>))
             (jwt_sign secret now (token_payload u)))"
proof -
  have "compare_password u pw'"
    using assms(2,4,9) by (simp add: compare_password_def bcrypt_compare_hash)
  from login_succeeds [OF assms(1,3,5-8) this] show ?thesis by simp
qed

text \<open>
  C14. Two logins to one account within the same second receive the same token
  string: the signed payload is \<open>{ _id, email, role }\<close> and \<open>iat\<close> has a
  resolution of one second. The user's session list then holds the string
  twice, and the logout of either device removes both copies, ending the other
  device's session too.
\<close>

theorem same_second_logins_same_token:
  assumes wf: "users_wf db"
    and l1: "login secret now1 salt1 b1 db = (Respond 200 (AuthBody m1 uj1 t1), db1)"
    and l2: "login secret now2 salt2 b2 db1 = (Respond 200 (AuthBody m2 uj2 t2), db2)"
    and same_user: "j_id uj1 = j_id uj2" and same_sec: "to_secs now1 = to_secs now2"
  shows "t1 = t2"
proof -
  obtain v1 u1 where f1: "find_user_by_email db (the_str v1 ''email'') = Some u1"
    and g1: "generate_auth_token secret now1 salt1 u1 db = Inr (t1, u1\<lparr>tokens := tokens u1 @ [t1]\<rparr>, db1)"
    and uj1: "uj1 = user_to_json (u1\<lparr>tokens := tokens u1 @ [t1]\<rparr>)"
    using login_ok [OF l1] by auto
  obtain v2 u2 where f2: "find_user_by_email db1 (the_str v2 ''email'') = Some u2"
    and g2: "generate_auth_token secret now2 salt2 u2 db1 = Inr (t2, u2\<lparr>tokens := tokens u2 @ [t2]\<rparr>, db2)"
    and uj2: "uj2 = user_to_json (u2\<lparr>tokens := tokens u2 @ [t2]\<rparr>)"
    using login_ok [OF l2] by auto
  have u1: "u1 \<in> set (users db)" using f1 by (blast dest: find_user_by_email_Some)
  have u2: "u2 \<in> set (users db1)" using f2 by (blast dest: find_user_by_email_Some)
  from g1 have t1: "t1 = jwt_sign secret now1 (token_payload u1)"
    and db1: "users db1 = map (\<lambda>v. if user_id v = user_id u1 then v\<lparr>tokens := tokens u1 @ [t1]\<rparr> else v) (users db)"
    by (simp_all add: generate_auth_token_Inr)
  from g2 have t2: "t2 = jwt_sign secret now2 (token_payload u2)" by (simp add: generate_auth_token_Inr)
  from u2 db1 obtain w where w: "w \<in> set (users db)"
    and uw: "u2 = (if user_id w = user_id u1 then w\<lparr>tokens := tokens u1 @ [t1]\<rparr> else w)"
    by auto
  from uw have pw: "token_payload u2 = token_payload w" and iw: "user_id u2 = user_id w"
    by simp_all
  have "user_id w = user_id u1" using iw same_user uj1 uj2 by (simp add: user_to_json_def)
  then have "w = u1" using users_wf_id_unique [OF wf w u1] by simp
  moreover have "jwt_sign secret now1 (token_payload u1) = jwt_sign secret now2 (token_payload u1)"
    by (rule jwt_sign_same_second [OF same_sec])
  ultimately show ?thesis using pw t1 t2 by simp
qed

text \<open>
  C37. Registration writes nothing unless it succeeds: when \<open>POST /register\<close>
  does not answer 201, the users collection is as it was. The two writes of a
  registration (the insert and the token save) cannot come apart: once the
  insert succeeded, the token save finds the new document and succeeds too.
\<close>

theorem register_no_partial_write:
  "(\<forall>m uj tok. fst (register secret now salt b db) \<noteq> Respond 201 (AuthBody m uj tok)) \<Longrightarrow>
   users (snd (register secret now salt b db)) = users db"
proof -
  assume no: "\<forall>m uj tok. fst (register secret now salt b db) \<noteq> Respond 201 (AuthBody m uj tok)"
  have nt: "tokens (new_user i t n e pw) = []" for i t n e pw by (simp add: new_user_def)
  show ?thesis
  proof (cases "joi_validate no_dates now register_schema b")
    case (Inl err)
    then show ?thesis by (simp add: register_def)
  next
    case (Inr v)
    let ?u = "new_user (next_oid db) now (the_str v ''name'') (the_str v ''email'') (the_str v ''password'')"
    let ?db1 = "db\<lparr>next_oid := Suc (next_oid db)\<rparr>"
    show ?thesis
    proof (cases "insert_user salt ?u ?db1")
      case (Inl err)
      with Inr show ?thesis by (simp add: register_def Let_def)
    next
      case (Inr db2)
      obtain tok u' db3 where g: "generate_auth_token secret now salt (user_pre_save salt True ?u) db2 = Inr (tok, u', db3)"
        using token_after_insert [OF Inr nt] by blast
      with Inr \<open>joi_validate no_dates now register_schema b = Inr v\<close> no show ?thesis
        by (simp add: register_def Let_def split: if_splits)
    qed
  qed
qed

end
