(* ===== verification/Task.thy ===== *)
theory Task
  imports Auth_Routes
begin

text \<open>
  The \<open>Task\<close> model (\<open>src/models/task.js\<close>) and the owner-scoped handlers of
  the task router (the unnamed source \<open>src/unnamed/part_001\<close>, loaded as
  \<open>routes/tasks.js\<close>; the file holds the router twice, and the model follows the
  second copy, lines 168-359, which is the one the module exports last):
  \<open>GET /:id\<close>, \<open>POST /\<close>, \<open>PUT /:id\<close>, \<open>DELETE /:id\<close> and
  \<open>GET /stats/overview\<close>. The listing \<open>GET /\<close> is in \<^theory_text>\<open>Task_List\<close>.
  Every handler runs behind the authentication middleware and receives the
  authenticated user; every query it issues carries \<open>owner: req.user._id\<close>.
\<close>

section \<open>Documents and the task collection\<close>

text \<open>
  A task document. \<open>status\<close> and \<open>priority\<close> are strings, as MongoDB stores
  them; the schema's \<open>enum\<close> validators restrict what is written. A date is a
  JavaScript \<open>Date\<close> in milliseconds.
\<close>

record task =
  task_id :: oid
  title :: string
  description :: "string option"
  status :: string
  priority :: string
  dueDate :: "int option"
  owner :: oid
  task_createdAt :: millis
  updatedAt :: millis

record task_db = user_db +
  tasks :: "task list"

definition status_values :: "string list" where
  "status_values = [''pending'', ''in-progress'', ''completed'']"

definition priority_values :: "string list" where
  "priority_values = [''low'', ''medium'', ''high'']"

section \<open>Casting a route parameter to an ObjectId\<close>

text \<open>
  Mongoose casts \<open>req.params.id\<close> with the BSON \<open>ObjectId\<close> constructor: a
  string of 24 hexadecimal digits, or a string of 12 characters read as 12 bytes.
  Anything else throws a \<open>CastError\<close>, which the handler passes to
  \<open>next(error)\<close>.
\<close>

definition hex_digit :: "char \<Rightarrow> nat option" where
  "hex_digit c =
     (let n = of_char c :: nat in
      if 48 \<le> n \<and> n \<le> 57 then Some (n - 48)
      else if 97 \<le> n \<and> n \<le> 102 then Some (n - 87)
      else if 65 \<le> n \<and> n \<le> 70 then Some (n - 55)
      else None)"

fun digits_value :: "nat \<Rightarrow> nat list \<Rightarrow> nat" where
  "digits_value b [] = 0"
| "digits_value b (d # ds) = d * b ^ length ds + digits_value b ds"

definition cast_oid :: "string \<Rightarrow> oid option" where
  "cast_oid s =
     (if length s = 24 \<and> list_all (\<lambda>c. hex_digit c \<noteq> None) s
      then Some (digits_value 16 (map (\<lambda>c. the (hex_digit c)) s))
      else if length s = 12 then Some (digits_value 256 (map of_char s))
      else None)"

section \<open>Validation\<close>

text \<open>The Joi schema of the router, shared by \<open>POST\<close> and \<open>PUT\<close>.\<close>

definition task_schema :: "joi_key list" where
  "task_schema =
     [\<lparr>jk_name = ''title'', jk_required = True, jk_rule = JoiString (Some 1) (Some 100) False\<rparr>,
      \<lparr>jk_name = ''description'', jk_required = False, jk_rule = JoiString None (Some 500) False\<rparr>,
      \<lparr>jk_name = ''status'', jk_required = False, jk_rule = JoiValid status_values\<rparr>,
      \<lparr>jk_name = ''priority'', jk_required = False, jk_rule = JoiValid priority_values\<rparr>,
      \<lparr>jk_name = ''dueDate'', jk_required = False, jk_rule = JoiDateGreaterNow\<rparr>]"

text \<open>
  The Mongoose validators of the task schema for the paths \<open>ps\<close> (all paths on
  \<open>save()\<close> of a new document, the updated paths under
  \<open>runValidators\<close>), on the values after the \<open>trim\<close> setters:
  \<open>required\<close> title, the two \<open>maxlength\<close>s, the two \<open>enum\<close>s, and the
  \<open>dueDate\<close> validator \<open>!value || value > new Date()\<close>.
\<close>

definition task_validation_errors :: "millis \<Rightarrow> string list \<Rightarrow> task \<Rightarrow> string list" where
  "task_validation_errors now ps t =
     (if ''title'' \<in> set ps then
        (if title t = [] then [''Task title is required'']
         else if 100 < length (title t) then [''Title cannot exceed 100 characters''] else [])
      else []) @
     (if ''description'' \<in> set ps then
        (case description t of
           Some d \<Rightarrow> if 500 < length d then [''Description cannot exceed 500 characters''] else []
         | None \<Rightarrow> [])
      else []) @
     (if ''status'' \<in> set ps \<and> status t \<notin> set status_values then [''`status` is not a valid enum value''] else []) @
     (if ''priority'' \<in> set ps \<and> priority t \<notin> set priority_values then [''`priority` is not a valid enum value''] else []) @
     (if ''dueDate'' \<in> set ps then
        (case dueDate t of Some d \<Rightarrow> if int now < d then [] else [''Due date must be in the future''] | None \<Rightarrow> [])
      else [])"

text \<open>
  The update validators read only the updated paths, whose values the update
  document gives; the other fields of the document they are applied to are never
  read, so a blank document stands for them.
\<close>

definition blank_task :: task where
  "blank_task =
     \<lparr>task_id = 0, title = [], description = None, status = [], priority = [], dueDate = None,
      owner = 0, task_createdAt = 0, updatedAt = 0\<rparr>"

definition task_paths :: "string list" where
  "task_paths = [''title'', ''description'', ''status'', ''priority'', ''dueDate'']"

section \<open>Handlers\<close>

datatype stats_overview = StatsOverview "(string \<times> nat) list"

datatype task_body =
    TErrorBody string
  | TaskMsgBody string task
  | TaskBody task
  | TMessageBody string
  | StatsBody stats_overview

text \<open>\<open>Task.findOne({ _id, owner })\<close>: the owner is part of every filter.\<close>

definition find_owned :: "oid \<Rightarrow> oid \<Rightarrow> 'a task_db_scheme \<Rightarrow> task option" where
  "find_owned uid i db = find (\<lambda>t. task_id t = i \<and> owner t = uid) (tasks db)"

text \<open>\<open>GET /api/tasks/:id\<close>.\<close>

definition get_task :: "user \<Rightarrow> string \<Rightarrow> 'a task_db_scheme \<Rightarrow> task_body route_result \<times> 'a task_db_scheme" where
  "get_task u idp db =
     (case cast_oid idp of
        None \<Rightarrow> (NextError (CastError idp), db)
      | Some i \<Rightarrow>
          (case find_owned (user_id u) i db of
             None \<Rightarrow> (Respond 404 (TErrorBody ''Task not found''), db)
           | Some t \<Rightarrow> (Respond 200 (TaskBody t), db)))"

text \<open>
  \<open>new Task({ ...value, owner })\<close>: the validated fields with the \<open>trim\<close>
  setters applied, the defaults of \<open>status\<close>, \<open>priority\<close>,
  \<open>createdAt\<close> and \<open>updatedAt\<close>, and a fresh \<open>_id\<close>.
\<close>

definition new_task :: "oid \<Rightarrow> millis \<Rightarrow> oid \<Rightarrow> (string \<times> jout) list \<Rightarrow> task" where
  "new_task i now uid v =
     \<lparr>task_id = i, title = js_trim (the_str v ''title''),
      description = map_option js_trim (out_str v ''description''),
      status = (case out_str v ''status'' of Some s \<Rightarrow> s | None \<Rightarrow> ''pending''),
      priority = (case out_str v ''priority'' of Some s \<Rightarrow> s | None \<Rightarrow> ''medium''),
      dueDate = out_date v ''dueDate'', owner = uid, task_createdAt = now, updatedAt = now\<rparr>"

text \<open>The pre-save hook: \<open>this.updatedAt = new Date()\<close>.\<close>

definition task_pre_save :: "millis \<Rightarrow> task \<Rightarrow> task" where
  "task_pre_save now t = t\<lparr>updatedAt := now\<rparr>"

text \<open>\<open>task.save()\<close> of a new document: validation, the hook, the insert.\<close>

definition insert_task :: "millis \<Rightarrow> task \<Rightarrow> 'a task_db_scheme \<Rightarrow> mongo_error + 'a task_db_scheme" where
  "insert_task now t db =
     (let errs = task_validation_errors now task_paths t in
      if errs \<noteq> [] then Inl (ValidationError errs)
      else Inr (db\<lparr>tasks := tasks db @ [task_pre_save now t]\<rparr>))"

text \<open>\<open>POST /api/tasks\<close>. \<open>pd\<close> is the runtime's date parser (used by Joi).\<close>

definition create_task ::
  "(string \<Rightarrow> int option) \<Rightarrow> millis \<Rightarrow> user \<Rightarrow> jbody \<Rightarrow> 'a task_db_scheme \<Rightarrow> task_body route_result \<times> 'a task_db_scheme" where
  "create_task pd now u b db =
     (case joi_validate pd now task_schema b of
        Inl err \<Rightarrow> (Respond 400 (TErrorBody (joi_message err)), db)
      | Inr v \<Rightarrow>
          (let i = next_oid db; db1 = db\<lparr>next_oid := Suc i\<rparr>; t = new_task i now (user_id u) v in
           case insert_task now t db1 of
             Inl err \<Rightarrow> (NextError err, db1)
           | Inr db2 \<Rightarrow> (Respond 201 (TaskMsgBody ''Task created successfully'' (task_pre_save now t)), db2)))"

text \<open>
  The update document of \<open>PUT\<close> is the validated body: a \<open>$set\<close> of the keys
  present, with the \<open>trim\<close> setters applied. Nothing else is written; in
  particular the pre-save hook does not run for \<open>findOneAndUpdate\<close>.
\<close>

definition apply_update :: "(string \<times> jout) list \<Rightarrow> task \<Rightarrow> task" where
  "apply_update v t =
     t\<lparr>title := (case out_str v ''title'' of Some s \<Rightarrow> js_trim s | None \<Rightarrow> title t),
       description := (case out_str v ''description'' of Some s \<Rightarrow> Some (js_trim s) | None \<Rightarrow> description t),
       status := (case out_str v ''status'' of Some s \<Rightarrow> s | None \<Rightarrow> status t),
       priority := (case out_str v ''priority'' of Some s \<Rightarrow> s | None \<Rightarrow> priority t),
       dueDate := (case out_date v ''dueDate'' of Some d \<Rightarrow> Some d | None \<Rightarrow> dueDate t)\<rparr>"

text \<open>
  \<open>PUT /api/tasks/:id\<close>: validate the body; then \<open>findOneAndUpdate\<close> with
  \<open>{ new: true, runValidators: true }\<close>, which casts the filter, runs the
  validators of the updated paths before it sends the update, and answers
  \<open>null\<close> when no owned task has the id.
\<close>

definition update_task ::
  "(string \<Rightarrow> int option) \<Rightarrow> millis \<Rightarrow> user \<Rightarrow> string \<Rightarrow> jbody \<Rightarrow> 'a task_db_scheme \<Rightarrow>
   task_body route_result \<times> 'a task_db_scheme" where
  "update_task pd now u idp b db =
     (case joi_validate pd now task_schema b of
        Inl err \<Rightarrow> (Respond 400 (TErrorBody (joi_message err)), db)
      | Inr v \<Rightarrow>
          (case cast_oid idp of
             None \<Rightarrow> (NextError (CastError idp), db)
           | Some i \<Rightarrow>
               (let errs = task_validation_errors now (map fst v) (apply_update v blank_task)
                in if errs \<noteq> [] then (NextError (ValidationError errs), db)
                   else
                     (case find_owned (user_id u) i db of
                        None \<Rightarrow> (Respond 404 (TErrorBody ''Task not found''), db)
                      | Some t \<Rightarrow>
                          (Respond 200 (TaskMsgBody ''Task updated successfully'' (apply_update v t)),
                           db\<lparr>tasks := update_first (\<lambda>x. task_id x = i \<and> owner x = user_id u)
                                                  (apply_update v) (tasks db)\<rparr>)))))"

text \<open>\<open>DELETE /api/tasks/:id\<close>: \<open>findOneAndDelete\<close> removes the first owned match.\<close>

definition delete_task :: "user \<Rightarrow> string \<Rightarrow> 'a task_db_scheme \<Rightarrow> task_body route_result \<times> 'a task_db_scheme" where
  "delete_task u idp db =
     (case cast_oid idp of
        None \<Rightarrow> (NextError (CastError idp), db)
      | Some i \<Rightarrow>
          (case find_owned (user_id u) i db of
             None \<Rightarrow> (Respond 404 (TErrorBody ''Task not found''), db)
           | Some t \<Rightarrow>
               (Respond 200 (TMessageBody ''Task deleted successfully''),
                db\<lparr>tasks := remove_first (\<lambda>x. task_id x = i \<and> owner x = user_id u) (tasks db)\<rparr>)))"

text \<open>
  \<open>GET /api/tasks/stats/overview\<close>: the aggregation \<open>$match\<close> owner,
  \<open>$group\<close> by status with a count (the groups in order of first occurrence;
  MongoDB leaves the order open and the fold below does not depend on it),
  then the \<open>forEach\<close> that writes each count under its status and adds it to
  the total.
\<close>

fun group_count :: "string list \<Rightarrow> (string \<times> nat) list" where
  "group_count [] = []"
| "group_count (s # ss) =
     (let g = group_count ss in
      if s \<in> fst ` set g then map (\<lambda>(k, n). if k = s then (k, Suc n) else (k, n)) g
      else (s, 1) # g)"

definition set_key :: "string \<Rightarrow> nat \<Rightarrow> (string \<times> nat) list \<Rightarrow> (string \<times> nat) list" where
  "set_key k n m = (if k \<in> fst ` set m then map (\<lambda>(k', n'). if k' = k then (k', n) else (k', n')) m else m @ [(k, n)])"

definition get_key :: "(string \<times> nat) list \<Rightarrow> string \<Rightarrow> nat" where
  "get_key m k = (case map_of m k of Some n \<Rightarrow> n | None \<Rightarrow> 0)"

fun stats_fold :: "(string \<times> nat) list \<Rightarrow> (string \<times> nat) list \<Rightarrow> (string \<times> nat) list" where
  "stats_fold ov [] = ov"
| "stats_fold ov ((s, n) # gs) = stats_fold (set_key ''total'' (get_key (set_key s n ov) ''total'' + n) (set_key s n ov)) gs"

definition stats_init :: "(string \<times> nat) list" where
  "stats_init = [(''total'', 0), (''pending'', 0), (''in-progress'', 0), (''completed'', 0)]"

text \<open>\<open>$match: { owner: req.user._id }\<close>: the caller's tasks, in natural order.\<close>

definition owned_tasks :: "user \<Rightarrow> 'a task_db_scheme \<Rightarrow> task list" where
  "owned_tasks u db = filter (\<lambda>t. owner t = user_id u) (tasks db)"

definition task_stats :: "user \<Rightarrow> 'a task_db_scheme \<Rightarrow> task_body route_result \<times> 'a task_db_scheme" where
  "task_stats u db =
     (let groups = group_count (map status (owned_tasks u db)) in
      (Respond 200 (StatsBody (StatsOverview (stats_fold stats_init groups))), db))"

section \<open>Printing an ObjectId\<close>

text \<open>
  \<open>ObjectId.prototype.toString\<close>: 24 lower-case hexadecimal digits. This is
  how a client learns a task's \<open>_id\<close> from a response and sends it back in a URL.
\<close>

fun base_digits :: "nat \<Rightarrow> nat \<Rightarrow> nat \<Rightarrow> nat list" where
  "base_digits b 0 n = []"
| "base_digits b (Suc k) n = base_digits b k (n div b) @ [n mod b]"

definition hex_char :: "nat \<Rightarrow> char" where
  "hex_char d = (if d < 10 then char_of (48 + d) else char_of (87 + d))"

definition oid_hex :: "oid \<Rightarrow> string" where
  "oid_hex i = map hex_char (base_digits 16 24 i)"

lemma length_base_digits [simp]: "length (base_digits b k n) = k"
  by (induction k arbitrary: n) auto

lemma digits_value_snoc: "digits_value b (xs @ [d]) = b * digits_value b xs + d"
  by (induction xs) (auto simp: algebra_simps)

lemma digits_value_base_digits: "digits_value b (base_digits b k n) = n mod b ^ k"
proof (induction k arbitrary: n)
  case 0
  then show ?case by simp
next
  case (Suc k)
  have "digits_value b (base_digits b (Suc k) n) = b * (n div b mod b ^ k) + n mod b"
    by (simp add: digits_value_snoc Suc.IH)
  also have "\<dots> = n mod (b * b ^ k)" by (simp add: mod_mult2_eq)
  finally show ?case by simp
qed

lemma base_digits_lt: "0 < b \<Longrightarrow> d \<in> set (base_digits b k n) \<Longrightarrow> d < b"
  by (induction k arbitrary: n) auto

lemma hex_digit_hex_char: "d < 16 \<Longrightarrow> hex_digit (hex_char d) = Some d"
  by (auto simp: hex_digit_def hex_char_def Let_def)

lemma cast_oid_hex: "i < 16 ^ 24 \<Longrightarrow> cast_oid (oid_hex i) = Some i"
proof -
  assume i: "i < 16 ^ 24"
  have h: "\<forall>d \<in> set (base_digits 16 24 i). hex_digit (hex_char d) = Some d"
    using base_digits_lt [of 16] hex_digit_hex_char by auto
  then have "map (\<lambda>c. the (hex_digit c)) (oid_hex i) = base_digits 16 24 i"
    by (simp add: oid_hex_def map_idI)
  moreover have "list_all (\<lambda>c. hex_digit c \<noteq> None) (oid_hex i)"
    using h by (simp add: oid_hex_def list_all_iff)
  ultimately show ?thesis
    using i by (simp add: cast_oid_def oid_hex_def digits_value_base_digits)
qed

section \<open>Facts about the handlers\<close>

lemma find_owned_Some:
  "find_owned uid i db = Some t \<Longrightarrow> t \<in> set (tasks db) \<and> task_id t = i \<and> owner t = uid"
  by (auto simp: find_owned_def)

lemma find_owned_restrict:
  "find_owned uid i (db\<lparr>tasks := filter (\<lambda>t. owner t = uid) (tasks db)\<rparr>) = find_owned uid i db"
  by (simp add: find_owned_def) (rule find_filter_implied, simp)

section \<open>The statistics fold\<close>

lemma map_of_incr:
  "map_of (map (\<lambda>(k, n). if k = s then (k, Suc n) else (k, n)) g) k =
   map_option (\<lambda>n. if k = s then Suc n else n) (map_of g k)"
  by (induction g) auto

lemma fst_incr [simp]: "fst \<circ> (\<lambda>(k, n). if k = s then (k, Suc n) else (k, n)) = (fst :: 'a \<times> nat \<Rightarrow> 'a)"
  by (auto simp: fun_eq_iff)

lemma fst_incr_apply [simp]: "fst ((\<lambda>(k, n). if k = s then (k, Suc n) else (k, n)) x) = fst x"
  by (cases x) auto

lemma group_count_keys: "fst ` set (group_count ss) = set ss"
  by (induction ss) (auto simp: Let_def image_image)

lemma group_count_distinct: "distinct (map fst (group_count ss))"
  by (induction ss) (auto simp: Let_def group_count_keys)

lemma group_count_map_of:
  "map_of (group_count ss) k = (if k \<in> set ss then Some (count_list ss k) else None)"
proof (induction ss)
  case Nil
  then show ?case by simp
next
  case (Cons s ss)
  show ?case
  proof (cases "s \<in> set ss")
    case True
    with Cons.IH show ?thesis by (auto simp: Let_def map_of_incr group_count_keys)
  next
    case False
    then have "count_list ss s = 0" by (simp add: count_list_0_iff)
    with False Cons.IH show ?thesis by (auto simp: Let_def group_count_keys)
  qed
qed

lemma sum_incr:
  "sum_list (map (snd \<circ> (\<lambda>(k, n). if k = s then (k, Suc n) else (k, n))) g) =
   sum_list (map snd g) + count_list (map fst g) s"
  by (induction g) auto

lemma group_count_sum: "sum_list (map snd (group_count ss)) = length ss"
proof (induction ss)
  case Nil
  then show ?case by simp
next
  case (Cons s ss)
  have "count_list (map fst (group_count ss)) s = (if s \<in> set ss then 1 else 0)"
    using group_count_distinct [of ss] group_count_keys [of ss]
    by (auto simp: count_list_distinct count_list_0_iff)
  with Cons.IH show ?case by (auto simp: Let_def sum_incr group_count_keys)
qed

lemma get_key_set_key:
  "get_key (set_key k n m) k' = (if k' = k then n else get_key m k')"
proof (cases "k \<in> fst ` set m")
  case True
  then show ?thesis by (simp add: set_key_def get_key_def map_of_keyed_update)
next
  case False
  then have "map_of m k = None" by (simp add: map_of_eq_None_iff)
  with False show ?thesis by (auto simp: set_key_def get_key_def map_of_append split: option.splits)
qed

lemma map_fst_set_key: "k \<in> fst ` set m \<Longrightarrow> map fst (set_key k n m) = map fst m"
  by (simp add: set_key_def)

lemma stats_fold_get:
  "distinct (map fst gs) \<Longrightarrow> ''total'' \<notin> set (map fst gs) \<Longrightarrow>
   get_key (stats_fold ov gs) k =
     (if k = ''total'' then get_key ov ''total'' + sum_list (map snd gs)
      else (case map_of gs k of Some n \<Rightarrow> n | None \<Rightarrow> get_key ov k))"
proof (induction ov gs rule: stats_fold.induct)
  case (1 ov)
  then show ?case by simp
next
  case (2 ov s n gs)
  let ?ov' = "set_key ''total'' (get_key (set_key s n ov) ''total'' + n) (set_key s n ov)"
  have s: "s \<noteq> ''total''" and d: "distinct (map fst gs)" and ns: "s \<notin> set (map fst gs)"
    and nt: "''total'' \<notin> set (map fst gs)"
    using "2.prems" by auto
  have ih: "get_key (stats_fold ?ov' gs) k =
     (if k = ''total'' then get_key ?ov' ''total'' + sum_list (map snd gs)
      else (case map_of gs k of Some m \<Rightarrow> m | None \<Rightarrow> get_key ?ov' k))"
    using "2.IH" d nt by blast
  have "map_of gs s = None" using ns by (simp add: map_of_eq_None_iff)
  with ih s show ?case by (auto simp: get_key_set_key split: option.splits)
qed

lemma stats_fold_keys:
  "''total'' \<in> set (map fst ov) \<Longrightarrow> set (map fst gs) \<subseteq> set (map fst ov) \<Longrightarrow>
   map fst (stats_fold ov gs) = map fst ov"
proof (induction ov gs rule: stats_fold.induct)
  case (1 ov)
  then show ?case by simp
next
  case (2 ov s n gs)
  let ?ov1 = "set_key s n ov"
  let ?ov2 = "set_key ''total'' (get_key ?ov1 ''total'' + n) ?ov1"
  have k1: "map fst ?ov1 = map fst ov" using "2.prems" by (simp add: map_fst_set_key)
  have t1: "''total'' \<in> fst ` set ?ov1" using "2.prems" k1 by (metis list.set_map)
  have k2: "map fst ?ov2 = map fst ov" by (simp only: map_fst_set_key [OF t1] k1)
  have "map fst (stats_fold ?ov2 gs) = map fst ?ov2"
    using "2.prems" k2 by (intro "2.IH") (simp_all only: k2, auto)
  with k2 show ?case by simp
qed

lemma apply_update_keeps [simp]:
  "task_id (apply_update v t) = task_id t" "owner (apply_update v t) = owner t"
  "task_createdAt (apply_update v t) = task_createdAt t" "updatedAt (apply_update v t) = updatedAt t"
  by (simp_all add: apply_update_def)

lemma new_task_keys [simp]:
  "task_id (task_pre_save now' (new_task i now uid v)) = i"
  "owner (task_pre_save now' (new_task i now uid v)) = uid"
  by (simp_all add: task_pre_save_def new_task_def)

lemma insert_task_Inr:
  "insert_task now t db = Inr db' \<longleftrightarrow>
     task_validation_errors now task_paths t = [] \<and> db' = db\<lparr>tasks := tasks db @ [task_pre_save now t]\<rparr>"
  by (auto simp: insert_task_def Let_def)

lemma update_task_other_owners:
  "filter (\<lambda>t. owner t \<noteq> user_id u) (tasks (snd (update_task pd now u idp b db))) =
   filter (\<lambda>t. owner t \<noteq> user_id u) (tasks db)"
  by (auto simp: update_task_def Let_def split: sum.split option.split intro!: filter_update_first)

lemma delete_task_other_owners:
  "filter (\<lambda>t. owner t \<noteq> user_id u) (tasks (snd (delete_task u idp db))) =
   filter (\<lambda>t. owner t \<noteq> user_id u) (tasks db)"
  by (auto simp: delete_task_def split: option.split intro!: filter_remove_first)

lemma create_task_other_owners:
  "filter (\<lambda>t. owner t \<noteq> user_id u) (tasks (snd (create_task pd now u b db))) =
   filter (\<lambda>t. owner t \<noteq> user_id u) (tasks db)"
  by (auto simp: create_task_def Let_def insert_task_def split: sum.split)

section \<open>Properties of the task handlers\<close>

text \<open>
  C4. Owner scoping of writes: whatever the request, a task handler run by a
  user leaves the tasks of every other owner exactly as they were (same
  documents, same order), and the read-only handlers leave the store unchanged.
\<close>

theorem task_handlers_owner_scoped:
  "filter (\<lambda>t. owner t \<noteq> user_id u) (tasks (snd (create_task pd now u b db))) = filter (\<lambda>t. owner t \<noteq> user_id u) (tasks db) \<and>
   filter (\<lambda>t. owner t \<noteq> user_id u) (tasks (snd (update_task pd now u idp b db))) = filter (\<lambda>t. owner t \<noteq> user_id u) (tasks db) \<and>
   filter (\<lambda>t. owner t \<noteq> user_id u) (tasks (snd (delete_task u idp db))) = filter (\<lambda>t. owner t \<noteq> user_id u) (tasks db) \<and>
   snd (get_task u idp db) = db \<and> snd (task_stats u db) = db"
  by (simp add: create_task_other_owners update_task_other_owners delete_task_other_owners)
     (simp add: get_task_def task_stats_def Let_def split: option.split)

section \<open>The invariant of the task collection\<close>

text \<open>
  What the schema's validators guarantee of a stored task that stays true: a
  non-empty title of at most 100 characters, a description of at most 500,
  and a status and a priority from their enums. The due date is not part of
  it: it is in the future when written and becomes past as the clock moves.
\<close>

definition task_ok :: "task \<Rightarrow> bool" where
  "task_ok t \<longleftrightarrow>
     title t \<noteq> [] \<and> length (title t) \<le> 100 \<and>
     (case description t of Some d \<Rightarrow> length d \<le> 500 | None \<Rightarrow> True) \<and>
     status t \<in> set status_values \<and> priority t \<in> set priority_values"

definition tasks_wf :: "'a task_db_scheme \<Rightarrow> bool" where
  "tasks_wf db \<longleftrightarrow>
     distinct (map task_id (tasks db)) \<and> (\<forall>t \<in> set (tasks db). task_id t < next_oid db \<and> task_ok t)"

lemma task_ok_valid:
  "task_validation_errors now task_paths t = [] \<Longrightarrow> task_ok (task_pre_save now' t)"
  by (auto simp: task_validation_errors_def task_paths_def task_ok_def task_pre_save_def
           split: if_splits option.splits)

lemma task_ok_update:
  assumes e: "task_validation_errors now (map fst v) (apply_update v blank_task) = []" and "task_ok t"
  shows "task_ok (apply_update v t)"
proof -
  have k: "\<And>k s. out_str v k = Some s \<Longrightarrow> k \<in> fst ` set v"
    using out_str_key by (metis map_of_eq_None_iff)
  have ti: "js_trim s \<noteq> [] \<and> length (js_trim s) \<le> 100" if "out_str v ''title'' = Some s" for s
    using e k [OF that] that by (simp add: task_validation_errors_def apply_update_def blank_task_def split: if_splits)
  have de: "length (js_trim s) \<le> 500" if "out_str v ''description'' = Some s" for s
    using e k [OF that] that by (simp add: task_validation_errors_def apply_update_def blank_task_def split: if_splits)
  have st: "s \<in> set status_values" if "out_str v ''status'' = Some s" for s
    using e k [OF that] that by (simp add: task_validation_errors_def apply_update_def blank_task_def split: if_splits)
  have pr: "s \<in> set priority_values" if "out_str v ''priority'' = Some s" for s
    using e k [OF that] that by (simp add: task_validation_errors_def apply_update_def blank_task_def split: if_splits)
  show ?thesis
    using assms(2) ti de st pr by (auto simp: task_ok_def apply_update_def split: option.splits)
qed

lemma tasks_wf_next_oid:
  "tasks_wf db \<Longrightarrow> tasks_wf (db\<lparr>next_oid := Suc (next_oid db)\<rparr>)"
  by (auto simp: tasks_wf_def)

lemma create_task_wf:
  "tasks_wf db \<Longrightarrow> tasks_wf (snd (create_task pd now u b db))"
  by (force simp: create_task_def Let_def insert_task_Inr tasks_wf_def task_ok_valid split: sum.split)

lemma update_task_wf:
  assumes "tasks_wf db"
  shows "tasks_wf (snd (update_task pd now u idp b db))"
proof -
  have "tasks_wf (db\<lparr>tasks := update_first (\<lambda>x. task_id x = i \<and> owner x = user_id u) (apply_update v) (tasks db)\<rparr>)"
    if "task_validation_errors now (map fst v) (apply_update v blank_task) = []" for i v
    using assms that
    by (auto simp: tasks_wf_def map_update_first_frame dest!: set_update_first intro: task_ok_update)
  then show ?thesis
    using assms by (simp add: update_task_def Let_def split: sum.split option.split)
qed

lemma delete_task_wf:
  "tasks_wf db \<Longrightarrow> tasks_wf (snd (delete_task u idp db))"
  by (auto simp: delete_task_def tasks_wf_def distinct_map_remove_first
           dest: subsetD [OF set_remove_first] split: option.split)

lemma find_owned_fresh:
  "tasks_wf db \<Longrightarrow> find_owned uid (next_oid db) db = None"
  by (auto simp: find_owned_def tasks_wf_def)

lemma create_task_201:
  assumes "create_task pd now u b db = (Respond 201 (TaskMsgBody m t), db')"
  shows "\<exists>v. joi_validate pd now task_schema b = Inr v \<and>
           t = task_pre_save now (new_task (next_oid db) now (user_id u) v) \<and>
           task_validation_errors now task_paths (new_task (next_oid db) now (user_id u) v) = [] \<and>
           db' = db\<lparr>next_oid := Suc (next_oid db), tasks := tasks db @ [t]\<rparr>"
  using assms by (auto simp: create_task_def Let_def insert_task_Inr split: sum.splits)

lemma keyed_by_get_key:
  "distinct (map fst ov) \<Longrightarrow> ov = map (\<lambda>k. (k, get_key ov k)) (map fst ov)"
proof (induction ov)
  case Nil
  then show ?case by simp
next
  case (Cons p ov)
  obtain k n where p: "p = (k, n)" by (cases p)
  have "map (\<lambda>k'. (k', get_key ((k, n) # ov) k')) (map fst ov) = map (\<lambda>k'. (k', get_key ov k')) (map fst ov)"
    using Cons.prems p by (auto simp: get_key_def)
  with Cons p show ?case by (simp add: get_key_def)
qed

text \<open>The fold of the statistics route, on groups whose statuses are among the enum's values.\<close>

lemma stats_fold_groups:
  assumes "set ss \<subseteq> set status_values"
  shows "stats_fold stats_init (group_count ss) =
           [(''total'', length ss), (''pending'', count_list ss ''pending''),
            (''in-progress'', count_list ss ''in-progress''), (''completed'', count_list ss ''completed'')]"
proof -
  let ?ov = "stats_fold stats_init (group_count ss)"
  have nt: "''total'' \<notin> set ss" using assms by (auto simp: status_values_def)
  have init: "get_key stats_init k = 0" for k by (auto simp: get_key_def stats_init_def)
  have keys: "map fst ?ov = [''total'', ''pending'', ''in-progress'', ''completed'']"
    using assms stats_fold_keys [of stats_init "group_count ss"]
    by (auto simp: stats_init_def group_count_keys status_values_def)
  have get: "get_key ?ov k =
      (if k = ''total'' then length ss else case map_of (group_count ss) k of Some n \<Rightarrow> n | None \<Rightarrow> get_key stats_init k)" for k
    using stats_fold_get [of "group_count ss" stats_init k] nt
    by (simp add: group_count_distinct group_count_keys group_count_sum get_key_def stats_init_def)
  have "?ov = map (\<lambda>k. (k, get_key ?ov k)) (map fst ?ov)"
    by (rule keyed_by_get_key) (simp add: keys)
  also have "\<dots> = map (\<lambda>k. (k, get_key ?ov k)) [''total'', ''pending'', ''in-progress'', ''completed'']"
    by (simp only: keys)
  also have "\<dots> = [(''total'', length ss), (''pending'', count_list ss ''pending''),
            (''in-progress'', count_list ss ''in-progress''), (''completed'', count_list ss ''completed'')]"
    using init by (simp add: get group_count_map_of count_list_0_iff)
  finally show ?thesis .
qed

lemma task_schema_distinct: "distinct (map jk_name task_schema)"
  by (simp add: task_schema_def)

lemma task_schema_str:
  assumes "joi_validate pd now task_schema b = Inr v" and "key \<in> set task_schema"
    and "jk_rule key = JoiString mn mx em" and "map_of b (jk_name key) = Some (JStr s)"
  shows "out_str v (jk_name key) = Some s"
  using joi_keys_str [OF joi_validate_keys [OF assms(1)] task_schema_distinct assms(2-4)] by blast

lemma task_schema_title:
  "joi_validate pd now task_schema b = Inr v \<Longrightarrow> map_of b ''title'' = Some (JStr s) \<Longrightarrow> out_str v ''title'' = Some s"
  using task_schema_str [of pd now b v
      "\<lparr>jk_name = ''title'', jk_required = True, jk_rule = JoiString (Some 1) (Some 100) False\<rparr>" _ _ False s]
  by (simp add: task_schema_def)

lemma task_schema_description:
  "joi_validate pd now task_schema b = Inr v \<Longrightarrow> map_of b ''description'' = Some (JStr s) \<Longrightarrow>
   out_str v ''description'' = Some s"
  using task_schema_str [of pd now b v
      "\<lparr>jk_name = ''description'', jk_required = False, jk_rule = JoiString None (Some 500) False\<rparr>" _ _ False s]
  by (simp add: task_schema_def)

lemma out_absent:
  assumes "joi_validate pd now sch b = Inr v" and "map_of b k = None"
  shows "out_str v k = None \<and> out_date v k = None"
proof -
  have "map_of v k = None" using joi_validate_out_keys [OF assms(1)] assms(2) by blast
  then show ?thesis by (simp add: out_str_def out_date_def)
qed

lemma update_task_200:
  assumes "update_task pd now u idp b db = (Respond 200 (TaskMsgBody m t'), db')"
  shows "\<exists>v i t. joi_validate pd now task_schema b = Inr v \<and> cast_oid idp = Some i \<and>
           find_owned (user_id u) i db = Some t \<and> t' = apply_update v t \<and>
           db' = db\<lparr>tasks := update_first (\<lambda>x. task_id x = i \<and> owner x = user_id u) (apply_update v) (tasks db)\<rparr>"
  using assms by (auto simp: update_task_def Let_def split: sum.splits option.splits if_splits)

section \<open>Properties of the task handlers (continued)\<close>

text \<open>
  C16. A read returns only the caller's own task: when \<open>GET /api/tasks/:id\<close>
  answers 200 with a task, that task is stored, is owned by the caller, has the
  requested id, and the store is unchanged.
\<close>

theorem get_task_returns_owned:
  "get_task u idp db = (Respond 200 (TaskBody t), db') \<Longrightarrow>
   t \<in> set (tasks db) \<and> owner t = user_id u \<and> cast_oid idp = Some (task_id t) \<and> db' = db"
  by (auto simp: get_task_def dest: find_owned_Some split: option.splits)

text \<open>
  C17. No existence leak: for an id whose tasks all belong to other users,
  get and delete answer exactly 404 \<open>Task not found\<close>, as for an id that does
  not exist, and update never answers 200 and never writes.
\<close>

theorem foreign_task_not_found:
  assumes "cast_oid idp = Some i" and "\<forall>t \<in> set (tasks db). task_id t = i \<longrightarrow> owner t \<noteq> user_id u"
  shows "get_task u idp db = (Respond 404 (TErrorBody ''Task not found''), db) \<and>
         delete_task u idp db = (Respond 404 (TErrorBody ''Task not found''), db) \<and>
         snd (update_task pd now u idp b db) = db \<and>
         (\<forall>m t. fst (update_task pd now u idp b db) \<noteq> Respond 200 (TaskMsgBody m t))"
proof -
  have "find_owned (user_id u) i db = None" using assms(2) by (auto simp: find_owned_def)
  with assms(1) show ?thesis
    by (simp add: get_task_def delete_task_def update_task_def Let_def split: sum.split)
qed

text \<open>
  C18. The task collection stays well formed: ids are unique and below the
  allocation counter, and every stored task has a non-empty title of at most
  100 characters, a description of at most 500 and an allowed status and
  priority, whatever create, update and delete are asked.
\<close>

theorem task_routes_preserve_wf:
  "tasks_wf db \<Longrightarrow>
   tasks_wf (snd (create_task pd now u b db)) \<and> tasks_wf (snd (update_task pd now u idp b db)) \<and>
   tasks_wf (snd (delete_task u idp db))"
  by (simp add: create_task_wf update_task_wf delete_task_wf)

text \<open>
  C19. Round trip of create and get: the task a successful \<open>POST\<close> returns is
  found again, unchanged, by \<open>GET /api/tasks/:id\<close> with the printed id.
\<close>

theorem create_then_get:
  assumes wf: "tasks_wf db" and small: "next_oid db < 16 ^ 24"
    and cr: "create_task pd now u b db = (Respond 201 (TaskMsgBody m t), db')"
  shows "get_task u (oid_hex (task_id t)) db' = (Respond 200 (TaskBody t), db')"
proof -
  obtain v where t: "t = task_pre_save now (new_task (next_oid db) now (user_id u) v)"
    and db': "db' = db\<lparr>next_oid := Suc (next_oid db), tasks := tasks db @ [t]\<rparr>"
    using create_task_201 [OF cr] by blast
  have "find_owned (user_id u) (next_oid db) db = None" by (rule find_owned_fresh [OF wf])
  then have "find_owned (user_id u) (next_oid db) db' = Some t"
    by (simp add: find_owned_def db' t find_append_skip)
  with small t show ?thesis by (simp add: get_task_def cast_oid_hex)
qed

text \<open>
  C20. What create stores: the title and description the caller sent, with
  surrounding white space removed by the \<open>trim\<close> setters (so not always the
  caller's string), the caller as owner, both timestamps at the request time,
  and the defaults \<open>pending\<close> and \<open>medium\<close> for an absent status and priority.
\<close>

theorem create_task_fields:
  assumes cr: "create_task pd now u b db = (Respond 201 (TaskMsgBody m t), db')"
    and ti: "map_of b ''title'' = Some (JStr s)"
  shows "title t = js_trim s \<and> owner t = user_id u \<and> task_createdAt t = now \<and> updatedAt t = now \<and>
         (\<forall>d. map_of b ''description'' = Some (JStr d) \<longrightarrow> description t = Some (js_trim d)) \<and>
         (map_of b ''status'' = None \<longrightarrow> status t = ''pending'') \<and>
         (map_of b ''priority'' = None \<longrightarrow> priority t = ''medium'')"
proof -
  obtain v where v: "joi_validate pd now task_schema b = Inr v"
    and t: "t = task_pre_save now (new_task (next_oid db) now (user_id u) v)"
    using create_task_201 [OF cr] by blast
  show ?thesis
    using task_schema_title [OF v ti] task_schema_description [OF v] out_absent [OF v]
    by (auto simp: t new_task_def task_pre_save_def the_str_def)
qed

text \<open>
  C21. What update writes: the task the caller owns with the requested id is
  replaced in place by the update; id, owner and \<open>createdAt\<close> stay, every
  optional field absent from the body keeps its stored value, and
  \<open>updatedAt\<close> keeps its stored value too, because \<open>findOneAndUpdate\<close> does
  not run the \<open>pre('save')\<close> hook that would refresh it.
\<close>

theorem update_task_writes:
  assumes up: "update_task pd now u idp b db = (Respond 200 (TaskMsgBody m t'), db')"
  shows "\<exists>t. t \<in> set (tasks db) \<and> owner t = user_id u \<and> cast_oid idp = Some (task_id t) \<and>
           t' \<in> set (tasks db') \<and> task_id t' = task_id t \<and> owner t' = owner t \<and>
           task_createdAt t' = task_createdAt t \<and> updatedAt t' = updatedAt t \<and>
           (map_of b ''description'' = None \<longrightarrow> description t' = description t) \<and>
           (map_of b ''status'' = None \<longrightarrow> status t' = status t) \<and>
           (map_of b ''priority'' = None \<longrightarrow> priority t' = priority t) \<and>
           (map_of b ''dueDate'' = None \<longrightarrow> dueDate t' = dueDate t)"
proof -
  obtain v i t where v: "joi_validate pd now task_schema b = Inr v" and i: "cast_oid idp = Some i"
    and f: "find_owned (user_id u) i db = Some t" and t': "t' = apply_update v t"
    and db': "db' = db\<lparr>tasks := update_first (\<lambda>x. task_id x = i \<and> owner x = user_id u) (apply_update v) (tasks db)\<rparr>"
    using update_task_200 [OF up] by blast
  have ft: "t \<in> set (tasks db) \<and> task_id t = i \<and> owner t = user_id u" using find_owned_Some [OF f] .
  have "find (\<lambda>x. task_id x = i \<and> owner x = user_id u) (tasks db) = Some t"
    using f by (simp add: find_owned_def)
  from update_first_find [OF this, of "apply_update v"] obtain ys zs
    where "update_first (\<lambda>x. task_id x = i \<and> owner x = user_id u) (apply_update v) (tasks db) =
      ys @ apply_update v t # zs" by blast
  then have mem: "t' \<in> set (tasks db')" by (simp add: db' t')
  have abs: "map_of b k = None \<Longrightarrow> out_str v k = None \<and> out_date v k = None" for k
    by (rule out_absent [OF v])
  have "map_of b ''description'' = None \<longrightarrow> description t' = description t"
    "map_of b ''status'' = None \<longrightarrow> status t' = status t"
    "map_of b ''priority'' = None \<longrightarrow> priority t' = priority t"
    "map_of b ''dueDate'' = None \<longrightarrow> dueDate t' = dueDate t"
    by (simp_all add: t' apply_update_def abs)
  with ft i mem show ?thesis by (auto simp: t')
qed

text \<open>
  C22. An update must resend the title: \<open>PUT\<close> validates with the creation
  schema, in which \<open>title\<close> is required, so a body without a title is refused
  with 400 \<open>"title" is required\<close> and nothing is written.
\<close>

theorem update_requires_title:
  "map_of b ''title'' = None \<Longrightarrow>
   update_task pd now u idp b db = (Respond 400 (TErrorBody ''\"title\" is required''), db)"
  by (simp add: update_task_def joi_validate_def task_schema_def quoted_def)

text \<open>
  C23. A created task's due date is in the future at the request time: Joi's
  \<open>greater('now')\<close> and the schema's validator both refuse any other.
\<close>

theorem create_due_in_future:
  "create_task pd now u b db = (Respond 201 (TaskMsgBody m t), db') \<Longrightarrow> dueDate t = Some d \<Longrightarrow> int now < d"
  by (auto simp: task_validation_errors_def task_paths_def task_pre_save_def dest!: create_task_201
           split: if_splits option.splits)

text \<open>
  C24. Statistics: when the caller's tasks have statuses from the enum, which
  the schema guarantees, \<open>GET /api/tasks/stats/overview\<close> answers exactly
  \<open>{total, pending, in-progress, completed}\<close> in this order, with the number
  of the caller's tasks and the number in each status; absent statuses count 0.
\<close>

theorem stats_overview_counts:
  assumes "\<forall>t \<in> set (owned_tasks u db). status t \<in> set status_values"
  shows "task_stats u db =
           (Respond 200 (StatsBody (StatsOverview
              [(''total'', length (owned_tasks u db)),
               (''pending'', count_list (map status (owned_tasks u db)) ''pending''),
               (''in-progress'', count_list (map status (owned_tasks u db)) ''in-progress''),
               (''completed'', count_list (map status (owned_tasks u db)) ''completed'')])), db)"
proof -
  have "set (map status (owned_tasks u db)) \<subseteq> set status_values" using assms by auto
  from stats_fold_groups [OF this] show ?thesis by (simp add: task_stats_def)
qed

text \<open>
  C38. Failures write nothing: a create that does not answer 201 leaves the
  tasks as they were (validation, both Joi's and the schema's, comes before the
  insert), and an update or delete that does not succeed leaves the whole
  database unchanged.
\<close>

theorem task_failures_write_nothing:
  "((\<forall>m t. fst (create_task pd now u b db) \<noteq> Respond 201 (TaskMsgBody m t)) \<longrightarrow>
      tasks (snd (create_task pd now u b db)) = tasks db) \<and>
   ((\<forall>m t. fst (update_task pd now u idp b db) \<noteq> Respond 200 (TaskMsgBody m t)) \<longrightarrow>
      snd (update_task pd now u idp b db) = db) \<and>
   (fst (delete_task u idp db) \<noteq> Respond 200 (TMessageBody ''Task deleted successfully'') \<longrightarrow>
      snd (delete_task u idp db) = db)"
  by (auto simp: create_task_def update_task_def delete_task_def Let_def insert_task_def
           split: sum.split option.split)

end
