(* ===== verification/Task_List.thy ===== *)
theory Task_List
  imports Task "HOL-Library.List_Lexorder"
begin

text \<open>
  The listing \<open>GET /api/tasks\<close> of the task router (\<open>src/unnamed/part_001\<close>,
  lines 185-226): the query parameters \<open>status\<close>, \<open>priority\<close>,
  \<open>sortBy\<close>, \<open>sortOrder\<close>, \<open>page\<close> and \<open>limit\<close>, the owner-scoped
  filter, the sort, \<open>limit\<close> and \<open>skip\<close>, the count and the
  \<open>pagination\<close> object. With it the JavaScript \<open>parseInt\<close> the handler
  reads numbers with, and the order in which MongoDB compares values of
  different BSON types, as a \<open>linorder\<close> instance. The server's choice among
  tasks with equal sort keys is not specified; the model keeps them in the
  collection's natural order.
\<close>

section \<open>Numbers in query strings: \<open>parseInt\<close>\<close>

text \<open>
  The decimal rendering \<^const>\<open>dec_digits\<close> recurses on \<open>n div 10\<close>: its
  equation is unfolded on purpose below, never by the simplifier on a variable.
\<close>

declare dec_digits.simps [simp del]

definition is_dec :: "char \<Rightarrow> bool" where
  "is_dec c \<longleftrightarrow> CHR ''0'' \<le> c \<and> c \<le> CHR ''9''"

definition js_parse_int :: "string \<Rightarrow> int option" where
  "js_parse_int s =
     (let s1 = dropWhile js_space s;
          neg = (take 1 s1 = ''-'');
          s2 = (if take 1 s1 = ''-'' \<or> take 1 s1 = ''+'' then drop 1 s1 else s1);
          hex = (take 2 s2 = ''0x'' \<or> take 2 s2 = ''0X'');
          ds = (if hex then map (\<lambda>c. the (hex_digit c)) (takeWhile (\<lambda>c. hex_digit c \<noteq> None) (drop 2 s2))
                else map (\<lambda>c. of_char c - 48) (takeWhile is_dec s2));
          v = int (digits_value (if hex then 16 else 10) ds)
      in if ds = [] then None else Some (if neg then - v else v))"

section \<open>BSON values and their sort order\<close>

datatype bson = BNull | BNum int | BStr string | BOid nat | BDate int

fun bson_rank :: "bson \<Rightarrow> nat" where
  "bson_rank BNull = 0"
| "bson_rank (BNum _) = 1"
| "bson_rank (BStr _) = 2"
| "bson_rank (BOid _) = 3"
| "bson_rank (BDate _) = 4"

instantiation bson :: linorder
begin

fun less_eq_bson :: "bson \<Rightarrow> bson \<Rightarrow> bool" where
  "less_eq_bson (BNum x) (BNum y) = (x \<le> y)"
| "less_eq_bson (BStr x) (BStr y) = (x \<le> y)"
| "less_eq_bson (BOid x) (BOid y) = (x \<le> y)"
| "less_eq_bson (BDate x) (BDate y) = (x \<le> y)"
| "less_eq_bson a b = (bson_rank a \<le> bson_rank b)"

definition less_bson :: "bson \<Rightarrow> bson \<Rightarrow> bool" where
  "less_bson a b \<longleftrightarrow> a \<le> b \<and> \<not> b \<le> a"

instance
proof
  fix x y z :: bson
  show "x < y \<longleftrightarrow> x \<le> y \<and> \<not> y \<le> x" by (simp add: less_bson_def)
  show "x \<le> x" by (cases x) simp_all
  show "x \<le> y \<Longrightarrow> y \<le> z \<Longrightarrow> x \<le> z"
    by (cases x; cases y; cases z) auto
  show "x \<le> y \<Longrightarrow> y \<le> x \<Longrightarrow> x = y"
    by (cases x; cases y) auto
  show "x \<le> y \<or> y \<le> x"
    by (cases x; cases y) auto
qed

end

section \<open>Sorting\<close>

text \<open>
  \<open>sort[sortBy] = sortOrder === 'desc' ? -1 : 1\<close>: the value a task has at a
  path, as the server compares it. A path the document does not have (an
  absent description or due date, or a name that is no path of the schema)
  sorts as \<open>null\<close>.
\<close>

definition field_value :: "string \<Rightarrow> task \<Rightarrow> bson" where
  "field_value f t =
     (if f = ''_id'' then BOid (task_id t)
      else if f = ''title'' then BStr (title t)
      else if f = ''description'' then (case description t of Some d \<Rightarrow> BStr d | None \<Rightarrow> BNull)
      else if f = ''status'' then BStr (status t)
      else if f = ''priority'' then BStr (priority t)
      else if f = ''dueDate'' then (case dueDate t of Some d \<Rightarrow> BDate d | None \<Rightarrow> BNull)
      else if f = ''owner'' then BOid (owner t)
      else if f = ''createdAt'' then BDate (int (task_createdAt t))
      else if f = ''updatedAt'' then BDate (int (updatedAt t))
      else BNull)"

definition task_order :: "string \<Rightarrow> bool \<Rightarrow> task \<Rightarrow> task \<Rightarrow> bool" where
  "task_order f asc x y =
     (if asc then field_value f x \<le> field_value f y else field_value f y \<le> field_value f x)"

text \<open>
  \<open>.sort(sort)\<close>: an insertion sort by the comparison. The server leaves the
  order of equal keys open; the model keeps them in the collection's natural
  order (the sort is stable).
\<close>

fun ins_by :: "('a \<Rightarrow> 'a \<Rightarrow> bool) \<Rightarrow> 'a \<Rightarrow> 'a list \<Rightarrow> 'a list" where
  "ins_by le x [] = [x]"
| "ins_by le x (y # ys) = (if le x y then x # y # ys else y # ins_by le x ys)"

fun sort_by :: "('a \<Rightarrow> 'a \<Rightarrow> bool) \<Rightarrow> 'a list \<Rightarrow> 'a list" where
  "sort_by le [] = []"
| "sort_by le (x # xs) = ins_by le x (sort_by le xs)"

section \<open>The listing route\<close>

record list_query =
  q_status :: "string option"
  q_priority :: "string option"
  q_sortBy :: "string option"
  q_sortOrder :: "string option"
  q_page :: "string option"
  q_limit :: "string option"

text \<open>
  \<open>const query = { owner: req.user._id }; if (status) query.status = status; ...\<close>:
  an empty string is falsy and adds no condition.
\<close>

definition list_filter :: "user \<Rightarrow> list_query \<Rightarrow> task \<Rightarrow> bool" where
  "list_filter u q t \<longleftrightarrow>
     owner t = user_id u \<and>
     (case q_status q of Some s \<Rightarrow> if s = [] then True else status t = s | None \<Rightarrow> True) \<and>
     (case q_priority q of Some p \<Rightarrow> if p = [] then True else priority t = p | None \<Rightarrow> True)"

definition sort_field :: "list_query \<Rightarrow> string" where
  "sort_field q = (case q_sortBy q of Some f \<Rightarrow> f | None \<Rightarrow> ''createdAt'')"

definition sort_asc :: "list_query \<Rightarrow> bool" where
  "sort_asc q = (case q_sortOrder q of Some d \<Rightarrow> d \<noteq> ''desc'' | None \<Rightarrow> False)"

definition list_sorted :: "user \<Rightarrow> list_query \<Rightarrow> 'a task_db_scheme \<Rightarrow> task list" where
  "list_sorted u q db = sort_by (task_order (sort_field q) (sort_asc q)) (filter (list_filter u q) (tasks db))"

text \<open>
  \<open>.limit(l).skip(s)\<close>: the server skips first and then limits, whatever the
  order of the calls; a limit of 0 means no limit and a negative limit \<open>-n\<close>
  returns at most \<open>n\<close> documents (the driver's single-batch reading).
\<close>

definition mongo_page :: "int \<Rightarrow> int \<Rightarrow> 'a list \<Rightarrow> 'a list" where
  "mongo_page sk lim xs = (let ys = drop (nat sk) xs in if lim = 0 then ys else take (nat \<bar>lim\<bar>) ys)"

record pagination =
  pg_page :: int
  pg_limit :: int
  pg_total :: nat
  pg_pages :: "int option"

datatype list_body = ListBody "task list" pagination

text \<open>
  \<open>GET /api/tasks\<close>. \<open>page\<close> and \<open>limit\<close> default to 1 and 10 when absent and
  are read with \<open>parseInt\<close>. A \<open>NaN\<close> limit or skip, and a negative skip, are
  refused by the server, and the error goes to \<open>next(error)\<close>.
\<close>

definition list_tasks :: "user \<Rightarrow> list_query \<Rightarrow> 'a task_db_scheme \<Rightarrow> list_body route_result \<times> 'a task_db_scheme" where
  "list_tasks u q db =
     (let page = js_parse_int (case q_page q of Some s \<Rightarrow> s | None \<Rightarrow> ''1'');
          limit = js_parse_int (case q_limit q of Some s \<Rightarrow> s | None \<Rightarrow> ''10'')
      in case (page, limit) of
           (Some p, Some l) \<Rightarrow>
             if (p - 1) * l < 0 then (NextError (ServerError ''skip value must be non-negative''), db)
             else
               (let total = length (filter (list_filter u q) (tasks db)) in
                (Respond 200 (ListBody (mongo_page ((p - 1) * l) l (list_sorted u q db))
                   \<lparr>pg_page = p, pg_limit = l, pg_total = total, pg_pages = js_ceil_div (int total) l\<rparr>), db))
         | _ \<Rightarrow> (NextError (ServerError ''limit and skip must be numbers''), db))"

section \<open>Facts about sorting\<close>

lemma ins_by_insort_key: "ins_by (\<lambda>x y. k x \<le> k y) x ys = insort_key k x ys"
  by (induction ys) auto

lemma mset_ins_by [simp]: "mset (ins_by le x ys) = add_mset x (mset ys)"
  by (induction ys) auto

lemma mset_sort_by [simp]: "mset (sort_by le xs) = mset xs"
  by (induction xs) auto

lemma set_ins_by [simp]: "set (ins_by le x ys) = insert x (set ys)"
  by (induction ys) auto

lemma sorted_wrt_ins_by:
  assumes total: "\<And>a b. le a b \<or> le b a" and trans: "\<And>a b c. le a b \<Longrightarrow> le b c \<Longrightarrow> le a c"
  shows "sorted_wrt le ys \<Longrightarrow> sorted_wrt le (ins_by le x ys)"
proof (induction ys)
  case Nil
  then show ?case by simp
next
  case (Cons y ys)
  show ?case
  proof (cases "le x y")
    case True
    with Cons.prems show ?thesis by (auto intro: trans)
  next
    case False
    then have "le y x" using total by blast
    moreover have "ins_by le x (y # ys) = y # ins_by le x ys" using False by simp
    ultimately show ?thesis using Cons.prems Cons.IH by auto
  qed
qed

lemma sorted_wrt_sort_by:
  assumes "\<And>a b. le a b \<or> le b a" and "\<And>a b c. le a b \<Longrightarrow> le b c \<Longrightarrow> le a c"
  shows "sorted_wrt le (sort_by le xs)"
  by (induction xs) (simp_all add: sorted_wrt_ins_by [OF assms])

lemma task_order_total: "task_order f asc a b \<or> task_order f asc b a"
  by (auto simp: task_order_def)

lemma task_order_trans: "task_order f asc a b \<Longrightarrow> task_order f asc b c \<Longrightarrow> task_order f asc a c"
  by (auto simp: task_order_def split: if_splits intro: order_trans)

section \<open>Facts about \<open>parseInt\<close> and paging\<close>

lemma dec_char_facts:
  assumes "d < (10::nat)"
  shows "is_dec (char_of (48 + d)) \<and> \<not> js_space (char_of (48 + d)) \<and> char_of (48 + d) \<noteq> CHR ''x'' \<and>
           char_of (48 + d) \<noteq> CHR ''X''"
proof -
  have o: "of_char (char_of (48 + d) :: char) = (48 + d :: nat)" using assms by (simp add: of_char_of)
  have e: "char_of (48 + d) = c \<longleftrightarrow> of_char c = (48 + d :: nat)" for c :: char
    using o by (metis of_char_eq_iff)
  show ?thesis using assms o by (auto simp: is_dec_def js_space_def less_eq_char_def e)
qed
lemma dec_digits_chars: "c \<in> set (dec_digits n) \<Longrightarrow> is_dec c \<and> \<not> js_space c \<and> c \<noteq> CHR ''x'' \<and> c \<noteq> CHR ''X''"
proof (induction n rule: dec_digits.induct)
  case (1 n)
  show ?case
  proof (cases "n < 10")
    case True
    from "1.prems" True have "c = char_of (48 + n)"
      by (subst (asm) dec_digits.simps) simp
    then show ?thesis using dec_char_facts [OF True] by simp
  next
    case False
    from "1.prems" False have "c \<in> set (dec_digits (n div 10)) \<or> c = char_of (48 + n mod 10)"
      by (subst (asm) dec_digits.simps) auto
    then show ?thesis using "1.IH" [OF False] dec_char_facts [of "n mod 10"] by auto
  qed
qed

lemma is_dec_not_sign: "is_dec c \<Longrightarrow> c \<noteq> CHR ''-'' \<and> c \<noteq> CHR ''+''"
  by (auto simp: is_dec_def less_eq_char_def)

lemma dec_digits_nonempty: "dec_digits n \<noteq> []"
  by (subst dec_digits.simps) simp

lemma dec_digits_value: "digits_value 10 (map (\<lambda>c. of_char c - 48) (dec_digits n)) = n"
proof (induction n rule: dec_digits.induct)
  case (1 n)
  show ?case
  proof (cases "n < 10")
    case True
    then show ?thesis by (subst dec_digits.simps) (simp add: of_char_of)
  next
    case False
    have "digits_value 10 (map (\<lambda>c. of_char c - 48) (dec_digits n)) =
          10 * digits_value 10 (map (\<lambda>c. of_char c - 48) (dec_digits (n div 10))) + n mod 10"
      using False by (subst dec_digits.simps) (simp add: digits_value_snoc of_char_of)
    also have "\<dots> = n" using "1.IH" [OF False] by simp
    finally show ?thesis .
  qed
qed

text \<open>
  Round trip of the page numbers a client writes and the server reads:
  \<open>parseInt\<close> of the decimal rendering of a number is that number.
\<close>

theorem parse_int_dec_roundtrip: "js_parse_int (dec_digits n) = Some (int n)"
proof -
  obtain c r where s: "dec_digits n = c # r" using dec_digits_nonempty by (cases "dec_digits n") auto
  have all: "\<forall>x \<in> set (c # r). is_dec x \<and> \<not> js_space x \<and> x \<noteq> CHR ''x'' \<and> x \<noteq> CHR ''X''"
    using dec_digits_chars [of _ n] s by simp
  then have c: "is_dec c" "\<not> js_space c" "c \<noteq> CHR ''-''" "c \<noteq> CHR ''+''"
    using is_dec_not_sign by auto
  have e1: "dropWhile js_space (c # r) = c # r" using c by simp
  have e2: "(take 1 (c # r) = ''-'') = False" "(take 1 (c # r) = ''+'') = False" using c by simp_all
  have e3: "(take 2 (c # r) = ''0x'' \<or> take 2 (c # r) = ''0X'') = False"
    using all by (cases r) auto
  have e4: "takeWhile is_dec (c # r) = c # r" using all by (simp add: takeWhile_eq_all_conv)
  have e5: "digits_value 10 (map (\<lambda>c. of_char c - 48) (c # r)) = n"
    using dec_digits_value [of n] by (simp only: s)
  show ?thesis
    unfolding js_parse_int_def Let_def s
    by (simp only: e1 e2 e3 e4 e5 if_False simp_thms) simp
qed

lemma sort_by_sort_key: "sort_by (\<lambda>x y. k x \<le> k y) xs = sort_key k xs"
  by (induction xs) (simp_all add: ins_by_insort_key sort_key_def)

lemma take_drop_chunks:
  "concat (map (\<lambda>i. take l (drop (i * l) xs)) [0..<m]) = take (m * l) xs"
proof (induction m)
  case 0
  then show ?case by simp
next
  case (Suc m)
  have "Suc m * l = m * l + l" by simp
  then have "take (m * l) xs @ take l (drop (m * l) xs) = take (Suc m * l) xs"
    by (simp only: take_add)
  with Suc show ?case by simp
qed

lemma js_ceil_div_bounds:
  assumes "0 < l" and "js_ceil_div a l = Some c"
  shows "a \<le> c * l \<and> (c - 1) * l < a"
proof -
  define q where "q = (- a) div l"
  define r where "r = (- a) mod l"
  have c: "c = - q" using assms by (simp add: js_ceil_div_def q_def)
  have m: "q * l + r = - a" unfolding q_def r_def by (rule div_mult_mod_eq)
  have "0 \<le> r" "r < l" using assms(1) by (simp_all add: r_def)
  moreover have "c * l = - (q * l)" "(c - 1) * l = - (q * l) - l" by (simp_all add: c algebra_simps)
  ultimately show ?thesis using m by linarith
qed

lemma list_tasks_ok:
  assumes "js_parse_int (case q_page q of Some s \<Rightarrow> s | None \<Rightarrow> ''1'') = Some p"
    and "js_parse_int (case q_limit q of Some s \<Rightarrow> s | None \<Rightarrow> ''10'') = Some l" and "0 \<le> (p - 1) * l"
  shows "list_tasks u q db =
           (Respond 200 (ListBody (mongo_page ((p - 1) * l) l (list_sorted u q db))
              \<lparr>pg_page = p, pg_limit = l, pg_total = length (filter (list_filter u q) (tasks db)),
               pg_pages = js_ceil_div (int (length (filter (list_filter u q) (tasks db)))) l\<rparr>), db)"
  using assms by (simp add: list_tasks_def Let_def)

lemma mset_list_sorted: "mset (list_sorted u q db) = mset (filter (list_filter u q) (tasks db))"
  by (simp add: list_sorted_def)

lemma length_list_sorted: "length (list_sorted u q db) = length (filter (list_filter u q) (tasks db))"
  by (metis mset_list_sorted size_mset)

lemma list_filter_page [simp]: "list_filter u (q\<lparr>q_page := pg\<rparr>) = list_filter u q"
  by (simp add: list_filter_def fun_eq_iff)

lemma list_sorted_page [simp]: "list_sorted u (q\<lparr>q_page := pg\<rparr>) db = list_sorted u q db"
  by (simp add: list_sorted_def sort_field_def sort_asc_def)

definition list_items :: "list_body route_result \<times> 'a \<Rightarrow> task list" where
  "list_items r = (case fst r of Respond _ (ListBody ts _) \<Rightarrow> ts | _ \<Rightarrow> [])"

text \<open>With no query parameters the listing is page 1 of 10; a caller who owns no task gets an empty page.\<close>

lemma parse_defaults: "js_parse_int ''1'' = Some 1" "js_parse_int ''10'' = Some 10"
  by code_simp+

lemma list_tasks_no_owned:
  assumes "\<forall>t \<in> set (tasks db). owner t \<noteq> user_id u" and "q_page q = None" and "q_limit q = None"
  shows "list_tasks u q db =
           (Respond 200 (ListBody [] \<lparr>pg_page = 1, pg_limit = 10, pg_total = 0, pg_pages = Some 0\<rparr>), db)"
proof -
  have "filter (list_filter u q) (tasks db) = []"
    using assms(1) by (auto simp: filter_empty_conv list_filter_def)
  with assms(2,3) show ?thesis
    by (simp add: list_tasks_def parse_defaults list_sorted_def mongo_page_def js_ceil_div_def)
qed

section \<open>Properties of the listing\<close>

text \<open>
  C26. Pagination: for a page \<open>p \<ge> 1\<close> and a limit \<open>l > 0\<close>, the listing
  answers the \<open>l\<close> tasks that follow the first \<open>(p - 1) * l\<close> of the caller's
  matching tasks in sort order (so at most \<open>l\<close>, and fewer on the last page),
  with the number of matching tasks as \<open>total\<close> and \<open>pages\<close> the least
  \<open>c\<close> with \<open>total \<le> c * l\<close>. It writes nothing.
\<close>

theorem list_tasks_page:
  assumes pg: "q_page q = Some ps" "js_parse_int ps = Some p" "1 \<le> p"
    and lm: "q_limit q = Some ls" "js_parse_int ls = Some l" "0 < l"
  shows "\<exists>items pgn c. list_tasks u q db = (Respond 200 (ListBody items pgn), db) \<and>
           items = take (nat l) (drop (nat ((p - 1) * l)) (list_sorted u q db)) \<and>
           length items = min (nat l) (pg_total pgn - nat ((p - 1) * l)) \<and>
           pg_total pgn = length (filter (list_filter u q) (tasks db)) \<and>
           pg_page pgn = p \<and> pg_limit pgn = l \<and> pg_pages pgn = Some c \<and>
           int (pg_total pgn) \<le> c * l \<and> (c - 1) * l < int (pg_total pgn)"
proof -
  have sk: "0 \<le> (p - 1) * l" using pg(3) lm(3) by simp
  obtain c where c: "js_ceil_div (int (length (filter (list_filter u q) (tasks db)))) l = Some c"
    using lm(3) by (simp add: js_ceil_div_def)
  show ?thesis
    using list_tasks_ok [of q p l u db] pg lm sk js_ceil_div_bounds [OF lm(3) c] c
    by (simp add: mongo_page_def length_list_sorted)
qed

text \<open>
  C27. The pages cover the listing exactly once: with a positive limit, the
  items of pages \<open>1, 2, ..., pages\<close>, requested with the decimal page numbers
  a client writes, are together exactly the caller's matching tasks in sort
  order, each once, without gap or overlap.
\<close>

theorem list_pages_partition:
  assumes lm: "q_limit q = Some ls" "js_parse_int ls = Some l" "0 < l"
    and c: "js_ceil_div (int (length (list_sorted u q db))) l = Some c"
  shows "concat (map (\<lambda>p. list_items (list_tasks u (q\<lparr>q_page := Some (dec_digits p)\<rparr>) db)) [1..<Suc (nat c)]) =
         list_sorted u q db"
proof -
  let ?xs = "list_sorted u q db"
  have item: "list_items (list_tasks u (q\<lparr>q_page := Some (dec_digits p)\<rparr>) db) =
              take (nat l) (drop ((p - 1) * nat l) ?xs)" if "1 \<le> p" for p
  proof -
    have "0 \<le> (int p - 1) * l" using that lm(3) by simp
    moreover have "nat ((int p - 1) * l) = (p - 1) * nat l" using that lm(3) by (simp add: nat_mult_distrib)
    ultimately show ?thesis
      using list_tasks_ok [of "q\<lparr>q_page := Some (dec_digits p)\<rparr>" "int p" l u db] lm
      by (simp add: parse_int_dec_roundtrip list_items_def mongo_page_def)
  qed
  have "map (\<lambda>p. list_items (list_tasks u (q\<lparr>q_page := Some (dec_digits p)\<rparr>) db)) [1..<Suc (nat c)] =
        map (\<lambda>i. take (nat l) (drop (i * nat l) ?xs)) [0..<nat c]"
    by (simp add: item map_Suc_upt [symmetric] del: upt_Suc)
  also have "concat \<dots> = take (nat c * nat l) ?xs" by (rule take_drop_chunks)
  also have "\<dots> = ?xs"
  proof -
    have b: "int (length ?xs) \<le> c * l" using js_ceil_div_bounds [OF lm(3) c] by simp
    then have "0 \<le> c * l" by linarith
    then have "0 \<le> c" using lm(3) by (simp add: zero_le_mult_iff)
    then have "nat c * nat l = nat (c * l)" by (simp add: nat_mult_distrib)
    with b \<open>0 \<le> c * l\<close> have "length ?xs \<le> nat c * nat l" by (simp add: le_nat_iff)
    then show ?thesis by simp
  qed
  finally show ?thesis .
qed

text \<open>
  C28. Without a \<open>sortOrder\<close>, or with \<open>sortOrder=desc\<close>, the listing is a
  descending sorted permutation: the tasks it pages through are exactly the
  caller's tasks that match the filters, each as often as it is stored, and
  each one's value of the requested field (\<open>createdAt\<close> when \<open>sortBy\<close> is
  absent) is at least the next one's, in the order of BSON values (null,
  numbers, strings, ObjectIds, dates).
\<close>

theorem list_sorted_correct:
  "q_sortOrder q \<in> {None, Some ''desc''} \<Longrightarrow>
   mset (list_sorted u q db) = mset (filter (list_filter u q) (tasks db)) \<and>
   sorted_wrt (\<lambda>x y. field_value (case q_sortBy q of Some f \<Rightarrow> f | None \<Rightarrow> ''createdAt'') y
                     \<le> field_value (case q_sortBy q of Some f \<Rightarrow> f | None \<Rightarrow> ''createdAt'') x)
     (list_sorted u q db)"
proof -
  assume d: "q_sortOrder q \<in> {None, Some ''desc''}"
  then have "task_order (sort_field q) (sort_asc q) =
      (\<lambda>x y. field_value (case q_sortBy q of Some f \<Rightarrow> f | None \<Rightarrow> ''createdAt'') y
            \<le> field_value (case q_sortBy q of Some f \<Rightarrow> f | None \<Rightarrow> ''createdAt'') x)"
    by (auto simp: task_order_def sort_asc_def sort_field_def fun_eq_iff)
  moreover have "sorted_wrt (task_order (sort_field q) (sort_asc q)) (list_sorted u q db)"
    by (simp add: list_sorted_def sorted_wrt_sort_by task_order_total task_order_trans)
  ultimately show ?thesis by (simp add: mset_list_sorted)
qed

text \<open>
  C29. With any other \<open>sortOrder\<close> the listing is ascending, and it is HOL's
  stable sort by the requested field (\<open>createdAt\<close> when \<open>sortBy\<close> is absent):
  the insertion sort of the model agrees with the library's \<^const>\<open>sort_key\<close>
  on the field's BSON value.
\<close>

theorem list_sorted_sort_key:
  "q_sortOrder q = Some d \<Longrightarrow> d \<noteq> ''desc'' \<Longrightarrow>
   list_sorted u q db = sort_key (field_value (case q_sortBy q of Some f \<Rightarrow> f | None \<Rightarrow> ''createdAt''))
                          (filter (list_filter u q) (tasks db))"
proof -
  assume "q_sortOrder q = Some d" "d \<noteq> ''desc''"
  then have "task_order (sort_field q) (sort_asc q) =
      (\<lambda>x y. field_value (case q_sortBy q of Some f \<Rightarrow> f | None \<Rightarrow> ''createdAt'') x
            \<le> field_value (case q_sortBy q of Some f \<Rightarrow> f | None \<Rightarrow> ''createdAt'') y)"
    by (simp add: task_order_def sort_asc_def sort_field_def fun_eq_iff)
  then show ?thesis by (simp add: list_sorted_def sort_by_sort_key)
qed

text \<open>
  C25. The listing shows only the caller's matching tasks: every task of a 200
  answer is stored, is owned by the caller and has the requested status and
  priority, and the listing writes nothing.
\<close>

theorem list_only_matching:
  "list_tasks u q db = (Respond 200 (ListBody items pgn), db') \<Longrightarrow>
   db' = db \<and> (\<forall>t \<in> set items. t \<in> set (tasks db) \<and> owner t = user_id u \<and> list_filter u q t)"
proof -
  assume r: "list_tasks u q db = (Respond 200 (ListBody items pgn), db')"
  have sub: "set (mongo_page sk l (list_sorted u q db)) \<subseteq> set (filter (list_filter u q) (tasks db))" for sk l
  proof -
    have "set (list_sorted u q db) = set (filter (list_filter u q) (tasks db))"
      using mset_list_sorted [of u q db] by (metis set_mset_mset)
    then show ?thesis by (auto simp: mongo_page_def Let_def dest: in_set_takeD in_set_dropD)
  qed
  from r have "db' = db \<and> (\<forall>t \<in> set items. t \<in> set (tasks db) \<and> list_filter u q t)"
    using sub by (auto simp: list_tasks_def Let_def split: option.splits if_splits)
  then show ?thesis by (simp add: list_filter_def)
qed

text \<open>
  C30. Page 0 and negative pages are a server error: a page \<open>p \<le> 0\<close> with a
  positive limit gives a negative skip, which the server refuses, and the
  request ends in the error handler instead of a 400 or an empty page.
\<close>

theorem list_nonpositive_page_error:
  assumes "q_page q = Some ps" "js_parse_int ps = Some p" "p \<le> 0"
    and "q_limit q = Some ls" "js_parse_int ls = Some l" "0 < l"
  shows "list_tasks u q db = (NextError (ServerError ''skip value must be non-negative''), db)"
proof -
  have "(p - 1) * l < 0" using assms(3,6) by (simp add: mult_neg_pos)
  with assms show ?thesis by (simp add: list_tasks_def)
qed

text \<open>
  A limit of 0 lists everything: \<open>limit=0\<close> means no limit to the server,
  so the first page holds every matching task, and \<open>pages\<close> is \<open>null\<close>
  (\<open>Math.ceil(total / 0)\<close> is not a finite number).
\<close>

theorem list_limit_zero:
  assumes "q_page q = None" and "q_limit q = Some ls" and "js_parse_int ls = Some 0"
  shows "list_tasks u q db =
           (Respond 200 (ListBody (list_sorted u q db)
              \<lparr>pg_page = 1, pg_limit = 0, pg_total = length (filter (list_filter u q) (tasks db)), pg_pages = None\<rparr>), db)"
proof -
  have "js_parse_int ''1'' = Some 1" by code_simp
  with assms show ?thesis
    by (simp add: list_tasks_ok [of q 1 0] mongo_page_def js_ceil_div_def)
qed

end
