(* ===== verification/Server.thy ===== *)
theory Server
  imports Task_List
begin

text \<open>
  \<open>src/server.js\<close>: how a request reaches a handler. The authentication
  router is mounted at \<open>/api/auth\<close>; the task router at \<open>/api/tasks\<close>
  behind the middleware; then the root and health routes, the error handler
  and the fallback 404. The whole server is a state machine over the database:
  \<open>serve\<close> is one request, \<open>reachable\<close> the states a run of
  requests from the empty database reaches, and \<open>sys_wf\<close> the
  invariant of both collections together. Bootstrap (dotenv, helmet, cors, the
  body parsers, the connection, \<open>listen\<close>) computes nothing and is not
  modelled; query strings arrive already parsed as a \<open>list_query\<close>.
\<close>

section \<open>Requests and responses\<close>

record request =
  r_method :: string
  r_path :: string
  r_auth :: "string option"
  r_body :: jbody
  r_query :: list_query

datatype resp_body =
    RAuth auth_body
  | RTask task_body
  | RList list_body
  | RRoot string string "(string \<times> string) list"
  | RHealth string string
  | RError string

type_synonym response = "nat \<times> resp_body"

section \<open>Path matching\<close>

text \<open>
  Express splits the path at \<open>/\<close>, compares literal segments without regard
  to case and allows one trailing slash; a parameter such as \<open>:id\<close> matches one
  non-empty segment.
\<close>

definition route_segs :: "string \<Rightarrow> string list option" where
  "route_segs p =
     (case split_on CHR ''/'' p of
        [] # ss \<Rightarrow> Some (if ss \<noteq> [] \<and> last ss = [] then butlast ss else ss)
      | _ \<Rightarrow> None)"

definition seg_is :: "string \<Rightarrow> string \<Rightarrow> bool" where
  "seg_is lit s \<longleftrightarrow> js_to_lower s = lit"

section \<open>The root and health routes\<close>

text \<open>
  \<open>new Date().toISOString()\<close> of a clock reading: the proleptic Gregorian
  date of the day count (the civil-from-days computation on 400-year eras) and
  the time of day, as \<open>YYYY-MM-DDTHH:mm:ss.sssZ\<close>; a year above 9999 is
  written with a sign and six digits. Readings are milliseconds since the epoch,
  so the year is at least 1970.
\<close>

definition civil_of_days :: "nat \<Rightarrow> nat \<times> nat \<times> nat" where
  "civil_of_days n =
     (let z = n + 719468; era = z div 146097; doe = z mod 146097;
          yoe = (doe - doe div 1460 + doe div 36524 - doe div 146096) div 365;
          doy = doe - (365 * yoe + yoe div 4 - yoe div 100);
          mp = (5 * doy + 2) div 153;
          d = doy - (153 * mp + 2) div 5 + 1;
          m = (if mp < 10 then mp + 3 else mp - 9)
      in (yoe + era * 400 + (if m \<le> 2 then 1 else 0), m, d))"

definition pad_dec :: "nat \<Rightarrow> nat \<Rightarrow> string" where
  "pad_dec w n = (let s = dec_digits n in replicate (w - length s) CHR ''0'' @ s)"

definition js_iso_string :: "millis \<Rightarrow> string" where
  "js_iso_string t =
     (case civil_of_days (t div 86400000) of
        (y, m, d) \<Rightarrow>
          (let ms = t mod 86400000 in
           (if y \<le> 9999 then pad_dec 4 y else ''+'' @ pad_dec 6 y) @ ''-'' @ pad_dec 2 m @ ''-'' @ pad_dec 2 d @
           ''T'' @ pad_dec 2 (ms div 3600000) @ '':'' @ pad_dec 2 (ms div 60000 mod 60) @ '':'' @
           pad_dec 2 (ms div 1000 mod 60) @ ''.'' @ pad_dec 3 (ms mod 1000) @ ''Z''))"

text \<open>
  \<open>app.get('/')\<close> answers the service's name, the time and the table of
  endpoints (key and \<open>METHOD path\<close>, in the order of the object literal);
  \<open>app.get('/api/health')\<close> answers \<open>OK\<close> and the time.
\<close>

definition root_endpoints :: "(string \<times> string) list" where
  "root_endpoints =
     [(''register'', ''POST /api/auth/register''),
      (''login'', ''POST /api/auth/login''),
      (''profile'', ''GET /api/auth/me''),
      (''logout'', ''POST /api/auth/logout''),
      (''getTasks'', ''GET /api/tasks''),
      (''createTask'', ''POST /api/tasks''),
      (''getTask'', ''GET /api/tasks/:id''),
      (''updateTask'', ''PUT /api/tasks/:id''),
      (''deleteTask'', ''DELETE /api/tasks/:id''),
      (''getStats'', ''GET /api/tasks/stats/overview'')]"

definition root_route :: "millis \<Rightarrow> response" where
  "root_route now = (200, RRoot ''Task Management API is running!'' (js_iso_string now) root_endpoints)"

definition health_route :: "millis \<Rightarrow> response" where
  "health_route now = (200, RHealth ''OK'' (js_iso_string now))"

section \<open>The error handler\<close>

text \<open>
  \<open>app.use(errorHandler)\<close>: \<open>src/middleware/errorHandler.js\<close> is required by
  \<open>server.js\<close> but is not in the repository. It is modelled from the error
  taxonomy of the specification: invalid input 400, a missing document 404,
  anything else an internal error 500, always as \<open>{ error: message }\<close>.
\<close>

fun error_response :: "mongo_error \<Rightarrow> response" where
  "error_response (ValidationError ms) = (400, RError (case ms of m # _ \<Rightarrow> m | [] \<Rightarrow> ''Validation failed''))"
| "error_response (DuplicateKey k) = (400, RError ''Duplicate field value'')"
| "error_response (CastError v) = (400, RError ''Invalid id'')"
| "error_response DocumentNotFound = (404, RError ''Resource not found'')"
| "error_response (ServerError m) = (500, RError ''Server Error'')"

definition finish :: "('b \<Rightarrow> resp_body) \<Rightarrow> 'b route_result \<times> 'a \<Rightarrow> response \<times> 'a" where
  "finish wrap r =
     (case r of
        (Respond n b, d) \<Rightarrow> ((n, wrap b), d)
      | (NextError e, d) \<Rightarrow> (error_response e, d))"

text \<open>
  The shape of a response: an error status (400, 401, 404, 500) carries a body
  \<open>{ error: message }\<close> and a success status (200, 201) any other body. A
  handler's result is well typed when its direct answers are, and never a 500,
  which only the error handler sends.
\<close>

fun error_body :: "resp_body \<Rightarrow> bool" where
  "error_body (RError _) = True"
| "error_body (RAuth (ErrorBody _)) = True"
| "error_body (RTask (TErrorBody _)) = True"
| "error_body _ = False"

definition response_typed :: "response \<Rightarrow> bool" where
  "response_typed r \<longleftrightarrow>
     (fst r \<in> {200, 201} \<and> \<not> error_body (snd r)) \<or> (fst r \<in> {400, 401, 404, 500} \<and> error_body (snd r))"

definition result_typed :: "('b \<Rightarrow> resp_body) \<Rightarrow> 'b route_result \<Rightarrow> bool" where
  "result_typed wrap r \<longleftrightarrow>
     (case r of Respond n b \<Rightarrow> response_typed (n, wrap b) \<and> n \<noteq> 500 | NextError e \<Rightarrow> True)"

section \<open>Dispatch\<close>

text \<open>\<open>src/routes/auth.js\<close> under \<open>/api/auth\<close>: \<open>None\<close> when no route matches.\<close>

definition auth_router ::
  "string \<Rightarrow> millis \<Rightarrow> string \<Rightarrow> request \<Rightarrow> string list \<Rightarrow> 'a task_db_scheme \<Rightarrow> (response \<times> 'a task_db_scheme) option" where
  "auth_router secret now salt req ss db =
     (if r_method req = ''POST'' \<and> list_all2 seg_is [''register''] ss then
        Some (finish RAuth (register secret now salt (r_body req) db))
      else if r_method req = ''POST'' \<and> list_all2 seg_is [''login''] ss then
        Some (finish RAuth (login secret now salt (r_body req) db))
      else if r_method req = ''GET'' \<and> list_all2 seg_is [''me''] ss then
        Some (finish RAuth (me secret now (r_auth req) db))
      else if r_method req = ''POST'' \<and> list_all2 seg_is [''logout''] ss then
        Some (finish RAuth (logout secret now salt (r_auth req) db))
      else None)"

text \<open>
  The task router under \<open>/api/tasks\<close>, reached only after the middleware
  admitted the request for user \<open>u\<close>. \<open>GET /:id\<close> is declared before
  \<open>GET /stats/overview\<close> but matches one segment only.
\<close>

definition task_router ::
  "(string \<Rightarrow> int option) \<Rightarrow> millis \<Rightarrow> user \<Rightarrow> request \<Rightarrow> string list \<Rightarrow> 'a task_db_scheme \<Rightarrow>
   (response \<times> 'a task_db_scheme) option" where
  "task_router pd now u req ss db =
     (case ss of
        [] \<Rightarrow>
          (if r_method req = ''GET'' then Some (finish RList (list_tasks u (r_query req) db))
           else if r_method req = ''POST'' then Some (finish RTask (create_task pd now u (r_body req) db))
           else None)
      | [i] \<Rightarrow>
          (if i = [] then None
           else if r_method req = ''GET'' then Some (finish RTask (get_task u i db))
           else if r_method req = ''PUT'' then Some (finish RTask (update_task pd now u i (r_body req) db))
           else if r_method req = ''DELETE'' then Some (finish RTask (delete_task u i db))
           else None)
      | [a, b] \<Rightarrow>
          (if r_method req = ''GET'' \<and> seg_is ''stats'' a \<and> seg_is ''overview'' b
           then Some (finish RTask (task_stats u db)) else None)
      | _ \<Rightarrow> None)"

text \<open>
  \<open>server.js\<close>: the two routers, the root and health routes, and the
  fallback 404, in the order of their \<open>app.use\<close> and \<open>app.get\<close> calls. The
  middleware runs for every path under \<open>/api/tasks\<close>, before the task router
  looks at the method and the rest of the path.
\<close>

definition not_found :: "'a task_db_scheme \<Rightarrow> response \<times> 'a task_db_scheme" where
  "not_found db = ((404, RError ''Route not found''), db)"

definition serve ::
  "string \<Rightarrow> millis \<Rightarrow> string \<Rightarrow> (string \<Rightarrow> int option) \<Rightarrow> request \<Rightarrow> 'a task_db_scheme \<Rightarrow>
   response \<times> 'a task_db_scheme" where
  "serve secret now salt pd req db =
     (case route_segs (r_path req) of
        None \<Rightarrow> not_found db
      | Some ss \<Rightarrow>
          (let rest = drop 2 ss;
               under = (\<lambda>m. length ss \<ge> 2 \<and> seg_is ''api'' (ss ! 0) \<and> seg_is m (ss ! 1));
               later = (if r_method req = ''GET'' \<and> ss = [] then (root_route now, db)
                        else if r_method req = ''GET'' \<and> list_all2 seg_is [''api'', ''health''] ss
                        then (health_route now, db)
                        else not_found db)
           in if under ''auth'' then
                (case auth_router secret now salt req rest db of Some r \<Rightarrow> r | None \<Rightarrow> later)
              else if under ''tasks'' then
                (case auth secret now db (r_auth req) of
                   Inl e \<Rightarrow> ((401, RError (auth_message e)), db)
                 | Inr (u, tok) \<Rightarrow>
                     (case task_router pd now u req rest db of Some r \<Rightarrow> r | None \<Rightarrow> later))
              else later))"

section \<open>What the authentication routes write\<close>

text \<open>
  The interface between the two halves of the database: the authentication
  routes write only the users collection and the identifier counter, which
  they never decrease, and they never remove a user. Every other collection
  (the record extension) is left as it was.
\<close>

definition user_write :: "'a user_db_scheme \<Rightarrow> 'a user_db_scheme \<Rightarrow> bool" where
  "user_write db db' \<longleftrightarrow>
     user_db.more db' = user_db.more db \<and> next_oid db \<le> next_oid db' \<and>
     user_id ` set (users db) \<subseteq> user_id ` set (users db')"

lemma user_write_refl [simp]: "user_write db db"
  by (simp add: user_write_def)

lemma user_write_trans: "user_write a b \<Longrightarrow> user_write b c \<Longrightarrow> user_write a c"
  by (auto simp: user_write_def)

lemma user_write_set_users:
  assumes "\<And>v. user_id (f v) = user_id v"
  shows "user_write db (db\<lparr>users := map (\<lambda>v. if user_id v = i then f v else v) (users db)\<rparr>)"
proof -
  have "map user_id (map (\<lambda>v. if user_id v = i then f v else v) (users db)) = map user_id (users db)"
    using assms by (induction "users db") auto
  then have "user_id ` set (map (\<lambda>v. if user_id v = i then f v else v) (users db)) = user_id ` set (users db)"
    by (metis list.set_map)
  then show ?thesis by (simp add: user_write_def)
qed

lemma user_write_tasks: "user_write db db' \<Longrightarrow> tasks db' = tasks db"
  by (cases db, cases db') (simp add: user_write_def)

lemma register_write: "user_write db (snd (register secret now salt b db))"
proof -
  show ?thesis
    by (auto simp: register_def Let_def insert_user_Inr generate_auth_token_Inr user_write_def
             split: sum.split option.split prod.split)
qed

lemma login_write: "user_write db (snd (login secret now salt b db))"
  by (auto simp: login_def Let_def generate_auth_token_Inr intro: user_write_set_users
           split: sum.split option.split prod.split)

lemma logout_write: "user_write db (snd (logout secret now salt hdr db))"
  by (auto simp: logout_def with_auth_def logout_handler_def Let_def save_user_Inr intro: user_write_set_users
           split: sum.split prod.split)

lemma me_write: "snd (me secret now hdr db) = db"
  by (simp add: me_def with_auth_def split: sum.split prod.split)

section \<open>The invariant of the whole database\<close>

text \<open>
  Both collections well formed, and every task owned by a registered user: the
  middleware only admits stored users, the task routes only create tasks owned
  by the admitted user, and nothing deletes a user.
\<close>

definition owners_registered :: "'a task_db_scheme \<Rightarrow> bool" where
  "owners_registered db \<longleftrightarrow> (\<forall>t \<in> set (tasks db). owner t \<in> user_id ` set (users db))"

definition sys_wf :: "'a task_db_scheme \<Rightarrow> bool" where
  "sys_wf db \<longleftrightarrow> users_wf db \<and> tasks_wf db \<and> owners_registered db"

lemma user_write_sys_wf:
  "sys_wf db \<Longrightarrow> user_write db db' \<Longrightarrow> users_wf db' \<Longrightarrow> sys_wf db'"
  by (auto simp: sys_wf_def tasks_wf_def owners_registered_def user_write_tasks dest: order.strict_trans2)
     (auto simp: user_write_def)

lemma snd_finish [simp]: "snd (finish w r) = snd r"
  by (simp add: finish_def split: prod.split route_result.split)

lemma list_tasks_db: "snd (list_tasks u q db) = db"
  by (simp add: list_tasks_def Let_def split: option.split)

lemma users_wf_next_oid: "users_wf db \<Longrightarrow> users_wf (db\<lparr>next_oid := Suc (next_oid db)\<rparr>)"
  by (auto simp: users_wf_def)

lemma create_task_sys_wf:
  assumes "sys_wf db" and "u \<in> set (users db)"
  shows "sys_wf (snd (create_task pd now u b db))"
proof -
  have "tasks_wf (snd (create_task pd now u b db))" using assms(1) by (simp add: sys_wf_def create_task_wf)
  moreover have "users (snd (create_task pd now u b db)) = users db"
    by (simp add: create_task_def Let_def insert_task_def split: sum.split)
  moreover have "users_wf (snd (create_task pd now u b db))"
    using assms(1) by (auto simp: sys_wf_def create_task_def Let_def insert_task_def users_wf_def split: sum.split)
  moreover have "owners_registered (snd (create_task pd now u b db))"
    using assms by (auto simp: sys_wf_def owners_registered_def create_task_def Let_def insert_task_def split: sum.split)
  ultimately show ?thesis by (simp add: sys_wf_def)
qed

lemma update_task_sys_wf:
  assumes "sys_wf db"
  shows "sys_wf (snd (update_task pd now u i b db))"
proof -
  have "owners_registered (db\<lparr>tasks := update_first P (apply_update v) (tasks db)\<rparr>)" for P v
    using assms by (auto simp: sys_wf_def owners_registered_def dest!: set_update_first)
  moreover have "users_wf (db\<lparr>tasks := ts\<rparr>)" for ts using assms by (simp add: sys_wf_def users_wf_def)
  ultimately show ?thesis
    using assms update_task_wf [of db]
    by (auto simp: sys_wf_def update_task_def Let_def split: sum.split option.split)
qed

lemma delete_task_sys_wf:
  assumes "sys_wf db"
  shows "sys_wf (snd (delete_task u i db))"
proof -
  have "owners_registered (db\<lparr>tasks := remove_first P (tasks db)\<rparr>)" for P
    using assms by (auto simp: sys_wf_def owners_registered_def dest: subsetD [OF set_remove_first])
  moreover have "users_wf (db\<lparr>tasks := ts\<rparr>)" for ts using assms by (simp add: sys_wf_def users_wf_def)
  ultimately show ?thesis
    using assms delete_task_wf [of db]
    by (auto simp: sys_wf_def delete_task_def split: option.split)
qed

lemma finish_snd: "finish w x = (r, db') \<Longrightarrow> db' = snd x"
  using snd_finish [of w x] by simp

lemma auth_routes_sys_wf:
  assumes "sys_wf db"
  shows "sys_wf (snd (register secret now salt b db))" "sys_wf (snd (login secret now salt b db))"
        "sys_wf (snd (logout secret now salt hdr db))" "sys_wf (snd (me secret now hdr db))"
proof -
  have u: "users_wf db" using assms by (simp add: sys_wf_def)
  show "sys_wf (snd (register secret now salt b db))"
    by (rule user_write_sys_wf [OF assms register_write register_wf [OF u]])
  show "sys_wf (snd (login secret now salt b db))"
    by (rule user_write_sys_wf [OF assms login_write login_wf [OF u]])
  show "sys_wf (snd (logout secret now salt hdr db))"
    by (rule user_write_sys_wf [OF assms logout_write logout_wf [OF u]])
  show "sys_wf (snd (me secret now hdr db))" using assms by (simp add: me_write)
qed

lemma auth_router_sys_wf:
  "sys_wf db \<Longrightarrow> auth_router secret now salt req ss db = Some (r, db') \<Longrightarrow> sys_wf db'"
  by (auto simp: auth_router_def auth_routes_sys_wf split: if_splits dest!: finish_snd)

lemma task_router_sys_wf:
  "sys_wf db \<Longrightarrow> u \<in> set (users db) \<Longrightarrow> task_router pd now u req ss db = Some (r, db') \<Longrightarrow> sys_wf db'"
  by (auto simp: task_router_def list_tasks_db create_task_sys_wf update_task_sys_wf delete_task_sys_wf
                 get_task_def task_stats_def Let_def
           split: list.splits if_splits option.splits dest!: finish_snd)

lemma serve_sys_wf:
  assumes "sys_wf db"
  shows "sys_wf (snd (serve secret now salt pd req db))"
proof -
  have later: "sys_wf (snd (if c1 then (r1, db) else if c2 then (r2, db) else not_found db))"
    for c1 c2 r1 r2 using assms by (simp add: not_found_def)
  show ?thesis
    using assms later
    by (auto simp: serve_def Let_def not_found_def dest: auth_Inr auth_router_sys_wf task_router_sys_wf
             split: option.split sum.split prod.split)
qed

section \<open>The responses are well typed\<close>

lemma error_response_typed: "response_typed (error_response e)"
  by (cases e) (simp_all add: response_typed_def)

lemma finish_typed: "result_typed wrap (fst x) \<Longrightarrow> response_typed (fst (finish wrap x))"
  by (cases x) (auto simp: finish_def result_typed_def error_response_typed split: route_result.splits)

lemma with_auth_typed:
  "(\<And>u tok. result_typed RAuth (fst (h u tok))) \<Longrightarrow> result_typed RAuth (fst (with_auth secret now db hdr ErrorBody h))"
  by (simp add: with_auth_def result_typed_def response_typed_def split: sum.split)

lemma auth_handlers_typed:
  "result_typed RAuth (fst (register secret now salt b db))"
  "result_typed RAuth (fst (login secret now salt b db))"
  "result_typed RAuth (fst (me secret now hdr db))"
  "result_typed RAuth (fst (logout secret now salt hdr db))"
proof -
  show "result_typed RAuth (fst (register secret now salt b db))" "result_typed RAuth (fst (login secret now salt b db))"
    by (auto simp: register_def login_def Let_def result_typed_def response_typed_def
             split: sum.split option.split prod.split)
  show "result_typed RAuth (fst (me secret now hdr db))"
    unfolding me_def by (rule with_auth_typed) (simp add: result_typed_def response_typed_def)
  show "result_typed RAuth (fst (logout secret now salt hdr db))"
    unfolding logout_def by (rule with_auth_typed)
      (simp add: logout_handler_def Let_def result_typed_def response_typed_def split: sum.split)
qed

lemma task_handlers_typed:
  "result_typed RTask (fst (get_task u i db))"
  "result_typed RTask (fst (create_task pd now u b db))"
  "result_typed RTask (fst (update_task pd now u i b db))"
  "result_typed RTask (fst (delete_task u i db))"
  "result_typed RTask (fst (task_stats u db))"
  "result_typed RList (fst (list_tasks u q db))"
  by (auto simp: get_task_def create_task_def update_task_def delete_task_def task_stats_def list_tasks_def
                 Let_def result_typed_def response_typed_def split: sum.split option.split prod.split)

section \<open>The server as a state machine\<close>

text \<open>
  The database starts empty; each step is one request served to completion,
  with any clock reading, salt, date parser and request. The server secret is
  fixed for the life of the process.
\<close>

definition init_db :: task_db where
  "init_db = \<lparr>users = [], next_oid = 0, tasks = []\<rparr>"

inductive reachable :: "string \<Rightarrow> task_db \<Rightarrow> bool" for secret :: string where
  start: "reachable secret init_db"
| step: "reachable secret db \<Longrightarrow> reachable secret (snd (serve secret now salt pd req db))"

lemma init_sys_wf: "sys_wf init_db"
  by (simp add: init_db_def sys_wf_def users_wf_def tasks_wf_def owners_registered_def)

lemma reachable_wf: "reachable secret db \<Longrightarrow> sys_wf db"
proof (induction rule: reachable.induct)
  case start
  show ?case by (rule init_sys_wf)
next
  case (step db now salt pd req)
  from step.IH show ?case by (rule serve_sys_wf)
qed

lemma owners_below_next_oid:
  "sys_wf db \<Longrightarrow> t \<in> set (tasks db) \<Longrightarrow> owner t \<noteq> next_oid db"
  by (fastforce simp: sys_wf_def owners_registered_def users_wf_def)

lemma seg_is_distinct: "seg_is a s \<Longrightarrow> a \<noteq> b \<Longrightarrow> \<not> seg_is b s"
  by (simp add: seg_is_def)

lemma finish_200_Respond:
  "finish w x = ((200, b), d) \<Longrightarrow> \<exists>b'. x = (Respond 200 b', d)"
  by (cases x) (auto simp: finish_def split: route_result.splits elim: error_response.elims)

section \<open>Only the server's own tokens are stored\<close>

text \<open>
  Every entry of a user's \<open>tokens\<close> is a token the server signed with its
  secret for that very user (its \<open>_id\<close>, \<open>email\<close> and \<open>role\<close>): only
  \<open>generateAuthToken\<close> adds to the list, and \<open>save()\<close> writes the list to the
  user with the document's id only.
\<close>

definition tokens_signed :: "string \<Rightarrow> 'a user_db_scheme \<Rightarrow> bool" where
  "tokens_signed secret db \<longleftrightarrow>
     (\<forall>v \<in> set (users db). \<forall>t \<in> set (tokens v). \<exists>n. t = jwt_sign secret n (token_payload v))"

lemma save_user_signed:
  assumes "save_user salt u db = Inr db'" and "tokens_signed secret db"
    and "\<And>v. v \<in> set (users db) \<Longrightarrow> user_id v = user_id u \<Longrightarrow> token_payload v = token_payload u"
    and "\<And>t. t \<in> set (tokens u) \<Longrightarrow> \<exists>n. t = jwt_sign secret n (token_payload u)"
  shows "tokens_signed secret db'"
proof -
  from assms(1) have db': "users db' = map (\<lambda>v. if user_id v = user_id u then v\<lparr>tokens := tokens u\<rparr> else v) (users db)"
    by (simp add: save_user_Inr)
  have "\<exists>n. t = jwt_sign secret n (token_payload w)" if w: "w \<in> set (users db')" and t: "t \<in> set (tokens w)" for w t
  proof -
    from w db' obtain v where v: "v \<in> set (users db)"
      and wv: "w = (if user_id v = user_id u then v\<lparr>tokens := tokens u\<rparr> else v)" by auto
    show ?thesis
    proof (cases "user_id v = user_id u")
      case True
      with v wv t assms(3,4) show ?thesis by simp
    next
      case False
      with v wv t assms(2) show ?thesis by (simp add: tokens_signed_def)
    qed
  qed
  then show ?thesis by (simp add: tokens_signed_def)
qed

lemma generate_auth_token_signed:
  assumes "generate_auth_token secret now salt u db = Inr (tok, u', db')" and "tokens_signed secret db"
    and "\<And>v. v \<in> set (users db) \<Longrightarrow> user_id v = user_id u \<Longrightarrow> token_payload v = token_payload u"
    and "\<And>t. t \<in> set (tokens u) \<Longrightarrow> \<exists>n. t = jwt_sign secret n (token_payload u)"
  shows "tokens_signed secret db'"
proof -
  from assms(1) obtain db'' where s: "save_user salt (u\<lparr>tokens := tokens u @ [tok]\<rparr>) db = Inr db''"
    and d: "db' = db''" and t: "tok = jwt_sign secret now (token_payload u)"
    by (auto simp: generate_auth_token_def Let_def split: sum.splits)
  show ?thesis unfolding d
    by (rule save_user_signed [OF s assms(2)]) (use assms(3,4) t in auto)
qed

lemma stored_user_signed:
  assumes "users_wf db" "tokens_signed secret db" "u \<in> set (users db)"
  shows "\<And>v. v \<in> set (users db) \<Longrightarrow> user_id v = user_id u \<Longrightarrow> token_payload v = token_payload u"
    and "\<And>t. t \<in> set (tokens u) \<Longrightarrow> \<exists>n. t = jwt_sign secret n (token_payload u)"
  using assms by (auto simp: tokens_signed_def dest: users_wf_id_unique)

lemma register_insert_signed:
  assumes "users_wf db" "tokens_signed secret db"
    and "insert_user salt (new_user (next_oid db) now n e pw) (db\<lparr>next_oid := Suc (next_oid db)\<rparr>) = Inr db2"
  shows "tokens_signed secret db2"
    and "\<And>v. v \<in> set (users db2) \<Longrightarrow> user_id v = user_id (user_pre_save salt True (new_user (next_oid db) now n e pw)) \<Longrightarrow>
           token_payload v = token_payload (user_pre_save salt True (new_user (next_oid db) now n e pw))"
  using assms by (auto simp: insert_user_Inr tokens_signed_def new_user_def users_wf_def user_pre_save_def)

lemma register_signed_step:
  assumes "users_wf db" "tokens_signed secret db"
    and "insert_user salt (new_user (next_oid db) now n e pw) (db\<lparr>next_oid := Suc (next_oid db)\<rparr>) = Inr db2"
    and "generate_auth_token secret now salt (user_pre_save salt True (new_user (next_oid db) now n e pw)) db2 =
           Inr (tok, u', db3)"
  shows "tokens_signed secret db3"
  by (rule generate_auth_token_signed [OF assms(4) register_insert_signed(1) [OF assms(1-3)]])
     (auto dest: register_insert_signed(2) [OF assms(1-3)] simp: new_user_def)

lemma tokens_signed_next_oid [simp]: "tokens_signed secret (db\<lparr>next_oid := k\<rparr>) = tokens_signed secret db"
  by (simp add: tokens_signed_def)

lemma auth_routes_signed:
  assumes "users_wf db" "tokens_signed secret db"
  shows "tokens_signed secret (snd (register secret now salt b db))"
    "tokens_signed secret (snd (login secret now salt b db))"
    "tokens_signed secret (snd (logout secret now salt hdr db))"
    "tokens_signed secret (snd (me secret now hdr db))"
proof -
  show "tokens_signed secret (snd (login secret now salt b db))"
    using assms
    by (auto simp: login_def Let_def split: sum.split option.split prod.split
             dest: find_user_by_email_Some
             intro: generate_auth_token_signed stored_user_signed)
  show "tokens_signed secret (snd (me secret now hdr db))"
    using assms by (simp add: me_def with_auth_def split: sum.split prod.split)
  show "tokens_signed secret (snd (logout secret now salt hdr db))"
  proof (cases "auth secret now db hdr")
    case (Inr ut)
    obtain u tok where ut: "ut = (u, tok)" by (cases ut)
    with Inr have u: "u \<in> set (users db)" by (auto dest: auth_Inr)
    show ?thesis
      using Inr ut stored_user_signed [OF assms u]
      by (auto simp: logout_def with_auth_def logout_handler_def Let_def token_payload_def split: sum.split
               intro: save_user_signed [OF _ assms(2)] assms(2))
  qed (use assms in \<open>simp add: logout_def with_auth_def\<close>)
  show "tokens_signed secret (snd (register secret now salt b db))"
    using assms
    by (auto simp: register_def Let_def split: sum.split option.split prod.split
             intro: register_signed_step register_insert_signed(1))
qed

lemma task_handlers_users:
  "users (snd (create_task pd now u b db)) = users db"
  "users (snd (update_task pd now u i b db)) = users db"
  "users (snd (delete_task u i db)) = users db"
  by (simp_all add: create_task_def update_task_def delete_task_def insert_task_def Let_def
           split: sum.split option.split prod.split)

lemma task_router_users:
  "task_router pd now u req ss db = Some (r, db') \<Longrightarrow> users db' = users db"
  by (auto simp: task_router_def list_tasks_db task_handlers_users get_task_def task_stats_def Let_def
           split: list.splits if_splits option.splits dest!: finish_snd)

lemma serve_tokens_signed:
  assumes "sys_wf db" and "tokens_signed secret db"
  shows "tokens_signed secret (snd (serve secret now salt pd req db))"
proof -
  have a: "tokens_signed secret db'" if "auth_router secret now salt req ss db = Some (r, db')" for ss r db'
    using that auth_routes_signed [OF _ assms(2)] assms(1)
    by (auto simp: auth_router_def sys_wf_def split: if_splits dest!: finish_snd)
  have t: "tokens_signed secret db'" if "task_router pd now u req ss db = Some (r, db')" for u ss r db'
    using task_router_users [OF that] assms(2) by (simp add: tokens_signed_def)
  have later: "tokens_signed secret (snd (if c1 then (r1, db) else if c2 then (r2, db) else not_found db))"
    for c1 c2 r1 r2 using assms(2) by (simp add: not_found_def)
  show ?thesis
    using assms(2) later a t
    by (auto simp: serve_def Let_def not_found_def split: option.split sum.split prod.split)
qed

lemma reachable_signed: "reachable secret db \<Longrightarrow> tokens_signed secret db"
proof (induction rule: reachable.induct)
  case start
  show ?case by (simp add: init_db_def tokens_signed_def)
next
  case (step db now salt pd req)
  then show ?case by (intro serve_tokens_signed reachable_wf)
qed

text \<open>
  C33. The whole database stays well formed in every reachable state of the
  server: unique lower-case e-mails and unique ids below the counter for users,
  the task invariant for tasks, and every task owned by a registered user.
\<close>

theorem reachable_sys_wf:
  "reachable secret db \<Longrightarrow>
   users_wf db \<and> tasks_wf db \<and> (\<forall>t \<in> set (tasks db). \<exists>u \<in> set (users db). user_id u = owner t)"
  by (drule reachable_wf) (force simp: sys_wf_def owners_registered_def)

text \<open>
  C34. The task API is closed without a session: any request, whatever its
  method and the rest of its path, under \<open>/api/tasks\<close> that the middleware
  refuses is answered 401 with the middleware's message and changes nothing.
\<close>

theorem tasks_require_auth:
  assumes "route_segs (r_path req) = Some ss" and "2 \<le> length ss"
    and "seg_is ''api'' (ss ! 0)" and "seg_is ''tasks'' (ss ! 1)"
    and "auth secret now db (r_auth req) = Inl e"
  shows "serve secret now salt pd req db = ((401, RError (auth_message e)), db)"
proof -
  have "\<not> seg_is ''auth'' (ss ! 1)" using assms(4) by (rule seg_is_distinct) simp
  with assms show ?thesis by (simp add: serve_def Let_def)
qed

text \<open>
  C35. Logging out through the server closes the task API for that header: once
  \<open>POST /api/auth/logout\<close> has answered 200, every later request under
  \<open>/api/tasks\<close> carrying the same \<open>Authorization\<close> header is answered 401
  \<open>Token is not valid\<close>, at any clock reading.
\<close>

theorem logout_closes_task_api:
  assumes lo: "r_method lreq = ''POST''" "route_segs (r_path lreq) = Some [''api'', ''auth'', ''logout'']"
    and res: "serve secret now salt pd lreq db = ((200, b), db')"
    and tr: "r_auth treq = r_auth lreq" "route_segs (r_path treq) = Some ss" "2 \<le> length ss"
            "seg_is ''api'' (ss ! 0)" "seg_is ''tasks'' (ss ! 1)"
  shows "serve secret now' salt' pd' treq db' = ((401, RError ''Token is not valid''), db')"
proof -
  have segs: "seg_is ''api'' ''api''" "seg_is ''auth'' ''auth''" "seg_is ''logout'' ''logout''"
    "\<not> seg_is ''register'' ''logout''" "\<not> seg_is ''login'' ''logout''" "\<not> seg_is ''me'' ''logout''"
    by (simp_all add: seg_is_def js_to_lower_def js_lower_char_def)
  have "finish RAuth (logout secret now salt (r_auth lreq) db) = ((200, b), db')"
    using res lo segs by (simp add: serve_def Let_def auth_router_def)
  then obtain b' where "logout secret now salt (r_auth lreq) db = (Respond 200 b', db')"
    by (blast dest: finish_200_Respond)
  from logout_unlists [OF this] obtain tok c where "bearer_token (r_auth lreq) = Some tok" "tok \<noteq> []"
    "jwt_verify secret now tok = Inr c" "find_user_by_token db' (p_id c) tok = None" by blast
  then have "auth secret now' db' (r_auth treq) = Inl TokenNotValid"
    using tr(1) by (auto intro: auth_refuses_unlisted)
  have "\<not> seg_is ''auth'' (ss ! 1)" using tr(5) by (rule seg_is_distinct) simp
  with tr \<open>auth secret now' db' (r_auth treq) = Inl TokenNotValid\<close> show ?thesis
    by (simp add: serve_def Let_def auth_message_def)
qed

text \<open>
  C36. In every reachable state of the server, each token listed in a user's
  \<open>tokens\<close> is one the server signed with its secret for that user: its
  payload is the user's \<open>_id\<close>, \<open>email\<close> and \<open>role\<close>. No request stores a
  token of another user or one the server did not issue.
\<close>

theorem reachable_tokens_signed:
  "reachable secret db \<Longrightarrow> u \<in> set (users db) \<Longrightarrow> t \<in> set (tokens u) \<Longrightarrow>
   \<exists>n. t = jwt_sign secret n \<lparr>p_id = user_id u, p_email = email u, p_role = role_name (role u)\<rparr>"
  by (drule reachable_signed) (auto simp: tokens_signed_def token_payload_def)

text \<open>
  C32. Every response of the server is well typed: whatever the request and the
  state, the status is one of 200, 201, 400, 401, 404 and 500, and the body is
  an error body \<open>{ error: message }\<close> exactly when the status is an error.
\<close>

theorem serve_response_typed: "response_typed (fst (serve secret now salt pd req db))"
proof -
  have "response_typed (fst r)" if "auth_router secret now salt req ss db = Some r" for ss r
    using that by (auto simp: auth_router_def auth_handlers_typed intro: finish_typed split: if_splits)
  moreover have "response_typed (fst r)" if "task_router pd now u req ss db = Some r" for u ss r
    using that by (auto simp: task_router_def task_handlers_typed intro: finish_typed split: if_splits list.splits)
  moreover have "response_typed (root_route now)" "response_typed (health_route now)"
    by (simp_all add: root_route_def health_route_def response_typed_def)
  moreover have "response_typed (fst (not_found db))" by (simp add: not_found_def response_typed_def)
  moreover have "response_typed (401, RError m)" for m by (simp add: response_typed_def)
  ultimately show ?thesis
    by (auto simp: serve_def Let_def split: option.split sum.split)
qed

end
