(* ===== verification/Api.thy ===== *)
theory Api
  imports Server
begin

text \<open>
  The API the repository documents, and the proof that the server implements
  it. The README (\<open>src/unnamed/part_000\<close>) lists ten endpoints by method and
  path template; the root route of \<open>src/server.js\<close> advertises the same ten
  under the keys of its \<open>endpoints\<close> object. \<open>api_step\<close> is the abstract
  API: what each documented operation does, as the handler it names, behind the
  middleware for the task operations. The refinement theorem shows that for
  every README entry and every request matching its template, \<open>serve\<close>
  computes exactly what \<open>api_step\<close> prescribes for the operation the root
  route names. The progress theorem shows that the service never locks a
  newcomer out: from every reachable state, a valid registration succeeds and
  its token opens the task API.
\<close>

section \<open>The README's endpoint table\<close>

text \<open>Method, path template and description, in the README's order.\<close>

definition readme_endpoints :: "(string \<times> string \<times> string) list" where
  "readme_endpoints =
     [(''POST'', ''/api/auth/register'', ''Register new user''),
      (''POST'', ''/api/auth/login'', ''Login user''),
      (''GET'', ''/api/auth/me'', ''Get current user profile''),
      (''POST'', ''/api/auth/logout'', ''Logout user''),
      (''GET'', ''/api/tasks'', ''Get all user's tasks''),
      (''POST'', ''/api/tasks'', ''Create new task''),
      (''GET'', ''/api/tasks/:id'', ''Get single task''),
      (''PUT'', ''/api/tasks/:id'', ''Update task''),
      (''DELETE'', ''/api/tasks/:id'', ''Delete task''),
      (''GET'', ''/api/tasks/stats/overview'', ''Get task statistics'')]"

section \<open>Route templates\<close>

text \<open>
  Express matches a path template segment by segment: a literal without regard
  to case, a parameter \<open>:id\<close> against one non-empty segment, whose value it
  binds.
\<close>

fun tmatch :: "string list \<Rightarrow> string list \<Rightarrow> string option \<Rightarrow> string option option" where
  "tmatch [] [] b = Some b"
| "tmatch (t # ts) (s # ss) b =
     (if t = '':id'' then (if s = [] then None else tmatch ts ss (Some s))
      else if seg_is t s then tmatch ts ss b else None)"
| "tmatch _ _ _ = None"

section \<open>The documented API\<close>

text \<open>
  The operations of the API, one per key of the root route's \<open>endpoints\<close>
  object, and what each does: the handler of the route, wrapped as the server
  wraps its answer, and for the task operations only after the middleware has
  admitted the request.
\<close>

datatype api_op =
    ApiRegister | ApiLogin | ApiProfile | ApiLogout
  | ApiGetTasks | ApiCreateTask | ApiGetTask string | ApiUpdateTask string | ApiDeleteTask string
  | ApiGetStats

definition api_of_key :: "string \<Rightarrow> string option \<Rightarrow> api_op option" where
  "api_of_key k b =
     (if k = ''register'' then Some ApiRegister
      else if k = ''login'' then Some ApiLogin
      else if k = ''profile'' then Some ApiProfile
      else if k = ''logout'' then Some ApiLogout
      else if k = ''getTasks'' then Some ApiGetTasks
      else if k = ''createTask'' then Some ApiCreateTask
      else if k = ''getTask'' then map_option ApiGetTask b
      else if k = ''updateTask'' then map_option ApiUpdateTask b
      else if k = ''deleteTask'' then map_option ApiDeleteTask b
      else if k = ''getStats'' then Some ApiGetStats
      else None)"

definition guarded ::
  "string \<Rightarrow> millis \<Rightarrow> 'a task_db_scheme \<Rightarrow> string option \<Rightarrow> (user \<Rightarrow> response \<times> 'a task_db_scheme) \<Rightarrow>
   response \<times> 'a task_db_scheme" where
  "guarded secret now db hdr f =
     (case auth secret now db hdr of Inl e \<Rightarrow> ((401, RError (auth_message e)), db) | Inr (u, tok) \<Rightarrow> f u)"

primrec api_step ::
  "string \<Rightarrow> millis \<Rightarrow> string \<Rightarrow> (string \<Rightarrow> int option) \<Rightarrow> api_op \<Rightarrow> request \<Rightarrow> 'a task_db_scheme \<Rightarrow>
   response \<times> 'a task_db_scheme" where
  "api_step secret now salt pd ApiRegister req db = finish RAuth (register secret now salt (r_body req) db)"
| "api_step secret now salt pd ApiLogin req db = finish RAuth (login secret now salt (r_body req) db)"
| "api_step secret now salt pd ApiProfile req db = finish RAuth (me secret now (r_auth req) db)"
| "api_step secret now salt pd ApiLogout req db = finish RAuth (logout secret now salt (r_auth req) db)"
| "api_step secret now salt pd ApiGetTasks req db =
     guarded secret now db (r_auth req) (\<lambda>u. finish RList (list_tasks u (r_query req) db))"
| "api_step secret now salt pd ApiCreateTask req db =
     guarded secret now db (r_auth req) (\<lambda>u. finish RTask (create_task pd now u (r_body req) db))"
| "api_step secret now salt pd (ApiGetTask i) req db =
     guarded secret now db (r_auth req) (\<lambda>u. finish RTask (get_task u i db))"
| "api_step secret now salt pd (ApiUpdateTask i) req db =
     guarded secret now db (r_auth req) (\<lambda>u. finish RTask (update_task pd now u i (r_body req) db))"
| "api_step secret now salt pd (ApiDeleteTask i) req db =
     guarded secret now db (r_auth req) (\<lambda>u. finish RTask (delete_task u i db))"
| "api_step secret now salt pd ApiGetStats req db =
     guarded secret now db (r_auth req) (\<lambda>u. finish RTask (task_stats u db))"

section \<open>Facts about templates and dispatch\<close>

lemma tmatch_length: "tmatch ts ss b = Some b' \<Longrightarrow> length ss = length ts"
  by (induction ts ss b rule: tmatch.induct) (auto split: if_splits)

lemma tmatch_lits:
  "list_all (\<lambda>t. t \<noteq> '':id'') ts \<Longrightarrow> tmatch ts ss b = Some b' \<longleftrightarrow> list_all2 seg_is ts ss \<and> b' = b"
  by (induction ts ss b rule: tmatch.induct) auto

lemma tmatch_param:
  "l1 \<noteq> '':id'' \<Longrightarrow> l2 \<noteq> '':id'' \<Longrightarrow>
   tmatch [l1, l2, '':id''] ss None = Some b \<longleftrightarrow>
   (\<exists>s1 s2 i. ss = [s1, s2, i] \<and> seg_is l1 s1 \<and> seg_is l2 s2 \<and> i \<noteq> [] \<and> b = Some i)"
proof
  assume "l1 \<noteq> '':id''" "l2 \<noteq> '':id''" "tmatch [l1, l2, '':id''] ss None = Some b"
  moreover from this(3) have "length ss = 3" by (auto dest: tmatch_length)
  ultimately show "\<exists>s1 s2 i. ss = [s1, s2, i] \<and> seg_is l1 s1 \<and> seg_is l2 s2 \<and> i \<noteq> [] \<and> b = Some i"
    by (auto simp: numeral_3_eq_3 length_Suc_conv split: if_splits)
qed auto

lemma readme_paths:
  "route_segs ''/api/auth/register'' = Some [''api'', ''auth'', ''register'']"
  "route_segs ''/api/auth/login'' = Some [''api'', ''auth'', ''login'']"
  "route_segs ''/api/auth/me'' = Some [''api'', ''auth'', ''me'']"
  "route_segs ''/api/auth/logout'' = Some [''api'', ''auth'', ''logout'']"
  "route_segs ''/api/tasks'' = Some [''api'', ''tasks'']"
  "route_segs ''/api/tasks/:id'' = Some [''api'', ''tasks'', '':id'']"
  "route_segs ''/api/tasks/stats/overview'' = Some [''api'', ''tasks'', ''stats'', ''overview'']"
  by code_simp+

lemma seg_is_same: "seg_is a s \<Longrightarrow> seg_is b s \<longleftrightarrow> b = a"
  by (auto simp: seg_is_def)

lemma serve_under_auth:
  assumes "route_segs (r_path req) = Some (a # c # rest)" "seg_is ''api'' a" "seg_is ''auth'' c"
    and "auth_router secret now salt req rest db = Some r"
  shows "serve secret now salt pd req db = r"
  using assms by (simp add: serve_def Let_def)

lemma serve_under_tasks:
  assumes "route_segs (r_path req) = Some (a # c # rest)" "seg_is ''api'' a" "seg_is ''tasks'' c"
    and "\<And>u. task_router pd now u req rest db = Some (f u)"
  shows "serve secret now salt pd req db = guarded secret now db (r_auth req) f"
proof -
  have "\<not> seg_is ''auth'' c" "\<not> seg_is ''health'' c" using assms(3) by (simp_all add: seg_is_distinct)
  with assms show ?thesis by (simp add: serve_def Let_def guarded_def split: sum.split)
qed

lemma readme_auth_endpoints:
  assumes "route_segs (r_path req) = Some [a, c, y]" "seg_is ''api'' a" "seg_is ''auth'' c"
  shows "seg_is ''register'' y \<Longrightarrow> r_method req = ''POST'' \<Longrightarrow>
           serve secret now salt pd req db = api_step secret now salt pd ApiRegister req db"
    and "seg_is ''login'' y \<Longrightarrow> r_method req = ''POST'' \<Longrightarrow>
           serve secret now salt pd req db = api_step secret now salt pd ApiLogin req db"
    and "seg_is ''me'' y \<Longrightarrow> r_method req = ''GET'' \<Longrightarrow>
           serve secret now salt pd req db = api_step secret now salt pd ApiProfile req db"
    and "seg_is ''logout'' y \<Longrightarrow> r_method req = ''POST'' \<Longrightarrow>
           serve secret now salt pd req db = api_step secret now salt pd ApiLogout req db"
  by (rule serve_under_auth [OF assms], simp add: auth_router_def seg_is_same)+

lemma readme_task_endpoints:
  assumes "seg_is ''api'' a" "seg_is ''tasks'' c"
  shows "route_segs (r_path req) = Some [a, c] \<Longrightarrow> r_method req = ''GET'' \<Longrightarrow>
           serve secret now salt pd req db = api_step secret now salt pd ApiGetTasks req db"
    and "route_segs (r_path req) = Some [a, c] \<Longrightarrow> r_method req = ''POST'' \<Longrightarrow>
           serve secret now salt pd req db = api_step secret now salt pd ApiCreateTask req db"
    and "route_segs (r_path req) = Some [a, c, i] \<Longrightarrow> i \<noteq> [] \<Longrightarrow> r_method req = ''GET'' \<Longrightarrow>
           serve secret now salt pd req db = api_step secret now salt pd (ApiGetTask i) req db"
    and "route_segs (r_path req) = Some [a, c, i] \<Longrightarrow> i \<noteq> [] \<Longrightarrow> r_method req = ''PUT'' \<Longrightarrow>
           serve secret now salt pd req db = api_step secret now salt pd (ApiUpdateTask i) req db"
    and "route_segs (r_path req) = Some [a, c, i] \<Longrightarrow> i \<noteq> [] \<Longrightarrow> r_method req = ''DELETE'' \<Longrightarrow>
           serve secret now salt pd req db = api_step secret now salt pd (ApiDeleteTask i) req db"
    and "route_segs (r_path req) = Some [a, c, s, v] \<Longrightarrow> seg_is ''stats'' s \<Longrightarrow> seg_is ''overview'' v \<Longrightarrow>
           r_method req = ''GET'' \<Longrightarrow> serve secret now salt pd req db = api_step secret now salt pd ApiGetStats req db"
  unfolding api_step.simps
  by (rule serve_under_tasks [OF _ assms], assumption, simp add: task_router_def)+

lemma template_auth:
  assumes "tmatch [''api'', ''auth'', x] ss None = Some b" "x \<noteq> '':id''"
  obtains a c y where "ss = [a, c, y]" "seg_is ''api'' a" "seg_is ''auth'' c" "seg_is x y" "b = None"
  using assms by (auto simp: tmatch_lits list_all2_Cons1)

lemma template_tasks:
  assumes "tmatch [''api'', ''tasks''] ss None = Some b"
  obtains a c where "ss = [a, c]" "seg_is ''api'' a" "seg_is ''tasks'' c" "b = None"
  using assms by (auto simp: tmatch_lits list_all2_Cons1)

lemma template_task_id:
  assumes "tmatch [''api'', ''tasks'', '':id''] ss None = Some b"
  obtains a c i where "ss = [a, c, i]" "seg_is ''api'' a" "seg_is ''tasks'' c" "i \<noteq> []" "b = Some i"
  using assms by (auto simp: tmatch_param)

lemma template_stats:
  assumes "tmatch [''api'', ''tasks'', ''stats'', ''overview''] ss None = Some b"
  obtains a c s v where "ss = [a, c, s, v]" "seg_is ''api'' a" "seg_is ''tasks'' c" "seg_is ''stats'' s"
    "seg_is ''overview'' v" "b = None"
  using assms by (auto simp: tmatch_lits list_all2_Cons1)

lemma readme_cases:
  assumes "(m, p, d) \<in> set readme_endpoints"
  obtains "m = ''POST''" "p = ''/api/auth/register''" | "m = ''POST''" "p = ''/api/auth/login''"
    | "m = ''GET''" "p = ''/api/auth/me''" | "m = ''POST''" "p = ''/api/auth/logout''"
    | "m = ''GET''" "p = ''/api/tasks''" | "m = ''POST''" "p = ''/api/tasks''"
    | "m = ''GET''" "p = ''/api/tasks/:id''" | "m = ''PUT''" "p = ''/api/tasks/:id''"
    | "m = ''DELETE''" "p = ''/api/tasks/:id''" | "m = ''GET''" "p = ''/api/tasks/stats/overview''"
  using assms unfolding readme_endpoints_def list.set insert_iff empty_iff prod.inject
  by (elim disjE conjE) (assumption | simp only:)+

lemmas readme_simps = readme_paths root_endpoints_def api_of_key_def

lemma api_tasks_lits: "seg_is ''api'' ''api''" "seg_is ''auth'' ''auth''" "seg_is ''register'' ''register''"
  "seg_is ''tasks'' ''tasks''"
  by (simp_all add: seg_is_def js_to_lower_def js_lower_char_def)

text \<open>
  C39. The server refines the documented API. For every endpoint of the
  README and every request whose method is the entry's and whose path matches
  its template, the root route advertises the entry under a key naming an
  operation of the API (binding \<open>:id\<close> to the path's segment), and
  \<open>serve\<close> answers the request, and changes the database, exactly as that
  operation prescribes.
\<close>

theorem server_implements_readme:
  assumes doc: "(m, p, d) \<in> set readme_endpoints" and ts: "route_segs p = Some ts"
    and tm: "tmatch ts ss None = Some b" and rm: "r_method req = m" and rs: "route_segs (r_path req) = Some ss"
  shows "\<exists>k op. (k, m @ '' '' @ p) \<in> set root_endpoints \<and> api_of_key k b = Some op \<and>
           serve secret now salt pd req db = api_step secret now salt pd op req db"
proof -
  have ex: "\<exists>k op. (k, m @ '' '' @ p) \<in> set root_endpoints \<and> api_of_key k b = Some op \<and>
           serve secret now salt pd req db = api_step secret now salt pd op req db"
    if "(k, m @ '' '' @ p) \<in> set root_endpoints" "api_of_key k b = Some op"
       "serve secret now salt pd req db = api_step secret now salt pd op req db" for k op
    using that by blast
  from doc show ?thesis
  proof (cases rule: readme_cases)
    case 1 with ts tm rm rs show ?thesis
      by (auto simp: readme_simps readme_auth_endpoints elim!: template_auth intro!: ex [of "''register''" "ApiRegister"])
  next
    case 2 with ts tm rm rs show ?thesis
      by (auto simp: readme_simps readme_auth_endpoints elim!: template_auth intro!: ex [of "''login''" "ApiLogin"])
  next
    case 3 with ts tm rm rs show ?thesis
      by (auto simp: readme_simps readme_auth_endpoints elim!: template_auth intro!: ex [of "''profile''" "ApiProfile"])
  next
    case 4 with ts tm rm rs show ?thesis
      by (auto simp: readme_simps readme_auth_endpoints elim!: template_auth intro!: ex [of "''logout''" "ApiLogout"])
  next
    case 5 with ts tm rm rs show ?thesis
      by (auto simp: readme_simps readme_task_endpoints elim!: template_tasks intro!: ex [of "''getTasks''" "ApiGetTasks"])
  next
    case 6 with ts tm rm rs show ?thesis
      by (auto simp: readme_simps readme_task_endpoints elim!: template_tasks intro!: ex [of "''createTask''" "ApiCreateTask"])
  next
    case 7 with ts tm rm rs show ?thesis
      by (auto simp: readme_simps readme_task_endpoints elim!: template_task_id intro!: ex [of "''getTask''" "ApiGetTask i"])
  next
    case 8 with ts tm rm rs show ?thesis
      by (auto simp: readme_simps readme_task_endpoints elim!: template_task_id intro!: ex [of "''updateTask''" "ApiUpdateTask i"])
  next
    case 9 with ts tm rm rs show ?thesis
      by (auto simp: readme_simps readme_task_endpoints elim!: template_task_id intro!: ex [of "''deleteTask''" "ApiDeleteTask i"])
  next
    case 10 with ts tm rm rs show ?thesis
      by (auto simp: readme_simps readme_task_endpoints elim!: template_stats intro!: ex [of "''getStats''" "ApiGetStats"])
  qed
qed

text \<open>
  C40. Progress for newcomers: in every state a run of the server reaches, a
  registration through \<open>POST /api/auth/register\<close> whose body both validators
  accept and whose e-mail is not taken answers 201 with a token, the state it
  leaves is again reachable, and until the token expires \<open>GET /api/tasks\<close>
  with that token answers 200 with the newcomer's (empty) first page.
\<close>

theorem newcomer_progress:
  assumes rc: "reachable secret db"
    and rq: "r_method rq = ''POST''" "route_segs (r_path rq) = Some [''api'', ''auth'', ''register'']"
    and v: "joi_validate no_dates now register_schema (r_body rq) = Inr v"
    and fresh: "find_user_by_email db (the_str v ''email'') = None"
    and ok: "user_validation_errors (new_user (next_oid db) now (the_str v ''name'') (the_str v ''email'')
               (the_str v ''password'')) = []"
  shows "\<exists>uj tok db'. serve secret now salt pd rq db = ((201, RAuth (AuthBody ''User registered successfully'' uj tok)), db') \<and>
           reachable secret db' \<and>
           (\<forall>lq now' salt' pd'. r_method lq = ''GET'' \<longrightarrow> route_segs (r_path lq) = Some [''api'', ''tasks''] \<longrightarrow>
              r_auth lq = Some (bearer @ tok) \<longrightarrow> q_page (r_query lq) = None \<longrightarrow> q_limit (r_query lq) = None \<longrightarrow>
              to_secs now' < to_secs now + seven_days \<longrightarrow>
              serve secret now' salt' pd' lq db' =
                ((200, RList (ListBody [] \<lparr>pg_page = 1, pg_limit = 10, pg_total = 0, pg_pages = Some 0\<rparr>)), db'))"
proof -
  have wf: "sys_wf db" using rc by (rule reachable_wf)
  obtain uj tok db' where reg: "register secret now salt (r_body rq) db =
      (Respond 201 (AuthBody ''User registered successfully'' uj tok), db')"
    using register_succeeds [OF v fresh ok] by blast
  have "serve secret now salt pd rq db = api_step secret now salt pd ApiRegister rq db"
    by (rule readme_auth_endpoints(1) [OF rq(2) api_tasks_lits(1,2,3) rq(1)])
  with reg have srv: "serve secret now salt pd rq db = ((201, RAuth (AuthBody ''User registered successfully'' uj tok)), db')"
    by (simp add: finish_def)
  have "reachable secret db'" using reachable.step [OF rc, of now salt pd rq] srv by simp
  moreover have "tasks db' = tasks db"
    using register_write [of db secret now salt "r_body rq"] reg by (simp add: user_write_tasks)
  moreover have "serve secret now' salt' pd' lq db' =
                ((200, RList (ListBody [] \<lparr>pg_page = 1, pg_limit = 10, pg_total = 0, pg_pages = Some 0\<rparr>)), db')"
    if lq: "r_method lq = ''GET''" "route_segs (r_path lq) = Some [''api'', ''tasks'']" "r_auth lq = Some (bearer @ tok)"
       "q_page (r_query lq) = None" "q_limit (r_query lq) = None" "to_secs now' < to_secs now + seven_days"
       "tasks db' = tasks db" for lq now' salt' pd'
  proof -
    obtain u where u: "auth secret now' db' (Some (bearer @ tok)) = Inr (u, tok)" "user_id u = next_oid db"
      using register_token_authenticates [OF reg lq(6)] by blast
    have own: "\<forall>t \<in> set (tasks db'). owner t \<noteq> user_id u"
      using lq(7) u(2) owners_below_next_oid [OF wf] by simp
    have "serve secret now' salt' pd' lq db' = api_step secret now' salt' pd' ApiGetTasks lq db'"
      by (rule readme_task_endpoints(1) [OF api_tasks_lits(1,4) lq(2,1)])
    with list_tasks_no_owned [OF own lq(4,5)] u lq(3) show ?thesis
      by (simp add: guarded_def finish_def)
  qed
  ultimately show ?thesis using srv by blast
qed

end
