(* ===== verification/Scenarios.thy ===== *)
theory Scenarios
  imports Task
begin

text \<open>
  Concrete runs of the handlers, evaluated in the logic by \<open>code_simp\<close>,
  at which the properties of the other theories are applied: a server secret
  \<^term>\<open>sk\<close>, a bcrypt salt \<^term>\<open>salt0\<close>, an empty database
  \<^term>\<open>db0\<close>, the registration of Ann at second 1000, her login at second
  2000, a logout of that second session. Each \<open>_witness\<close> theorem discharges
  the hypotheses of one property at such a run, so that the property is known to
  apply to a reachable state of the program.
\<close>

section \<open>The authentication scenario\<close>

definition sk :: string where "sk = ''k3y''"
definition salt0 :: string where "salt0 = ''$2a$12$abcdefghijklmnopqrstuv''"
definition db0 :: user_db where "db0 = \<lparr>users = [], next_oid = 0\<rparr>"
definition ann_body :: jbody where
  "ann_body = [(''name'', JStr ''Ann''), (''email'', JStr ''ann@ex.com''), (''password'', JStr ''secret1'')]"
definition ann_login :: jbody where
  "ann_login = [(''email'', JStr ''ann@ex.com''), (''password'', JStr ''secret1'')]"

definition auth_token_of :: "auth_body route_result \<times> 'a \<Rightarrow> string" where
  "auth_token_of r = (case fst r of Respond _ (AuthBody _ _ t) \<Rightarrow> t | _ \<Rightarrow> [])"

definition responds_auth :: "nat \<Rightarrow> auth_body route_result \<times> 'a \<Rightarrow> bool" where
  "responds_auth k r = (case fst r of Respond n (AuthBody _ _ _) \<Rightarrow> n = k | _ \<Rightarrow> False)"

definition reg1 :: "auth_body route_result \<times> user_db" where
  "reg1 = register sk 1000000 salt0 ann_body db0"
definition log2 :: "auth_body route_result \<times> user_db" where
  "log2 = login sk 2000000 salt0 ann_login (snd reg1)"
definition hdr1 :: "string option" where "hdr1 = Some (bearer @ auth_token_of reg1)"
definition hdr2 :: "string option" where "hdr2 = Some (bearer @ auth_token_of log2)"

lemma responds_auth_obtain:
  assumes "responds_auth k r"
  obtains m uj t d where "r = (Respond k (AuthBody m uj t), d)"
  using assms unfolding responds_auth_def
  by (cases r) (auto split: route_result.splits auth_body.splits)

lemma reg1_ok: "responds_auth 201 reg1"
  by code_simp

lemma log2_ok: "responds_auth 200 log2"
  by code_simp

definition auth_uid_of :: "auth_body route_result \<times> 'a \<Rightarrow> oid" where
  "auth_uid_of r = (case fst r of Respond _ (AuthBody _ uj _) \<Rightarrow> j_id uj | _ \<Rightarrow> 0)"

theorem register_then_login_witness:
  "\<exists>m uj tok db1. register sk 1000000 salt0 ann_body db0 = (Respond 201 (AuthBody m uj tok), db1) \<and>
     (\<exists>uj' tok' db2. login sk 2000000 salt0 [(''email'', JStr ''ann@ex.com''), (''password'', JStr ''secret1'')] db1 =
        (Respond 200 (AuthBody ''Login successful'' uj' tok'), db2) \<and> j_id uj' = j_id uj)"
proof -
  obtain m uj tok db1 where r: "register sk 1000000 salt0 ann_body db0 = (Respond 201 (AuthBody m uj tok), db1)"
    using reg1_ok unfolding reg1_def by (rule responds_auth_obtain)
  have "users_wf db0" by (simp add: users_wf_def db0_def)
  moreover have "bcrypt_salt_ok salt0" by (simp add: bcrypt_salt_ok_def salt0_def bcrypt_salt_len_def)
  moreover have "map_of ann_body ''email'' = Some (JStr ''ann@ex.com'')" "map_of ann_body ''password'' = Some (JStr ''secret1'')"
    by (simp_all add: ann_body_def)
  ultimately have "\<exists>uj' tok' db2. login sk 2000000 salt0 [(''email'', JStr ''ann@ex.com''), (''password'', JStr ''secret1'')] db1 =
        (Respond 200 (AuthBody ''Login successful'' uj' tok'), db2) \<and> j_id uj' = j_id uj"
    by (rule register_then_login [OF _ _ r])
  with r show ?thesis by blast
qed

lemma logout3_ok: "fst (logout sk 3000000 salt0 hdr2 (snd log2)) = Respond 200 (MessageBody ''Logged out successfully'')"
  by code_simp

theorem logout_revokes_witness:
  "auth sk 4000000 (snd (logout sk 3000000 salt0 hdr2 (snd log2))) hdr2 = Inl TokenNotValid"
  using logout_revokes [of sk 3000000 salt0 hdr2 "snd log2"] logout3_ok by (metis prod.collapse)

theorem login_token_authenticates_witness:
  "\<exists>u. auth sk 3000000 (snd log2) (Some (bearer @ auth_token_of log2)) = Inr (u, auth_token_of log2) \<and>
       user_id u = auth_uid_of log2"
proof -
  obtain m uj t d where l: "log2 = (Respond 200 (AuthBody m uj t), d)"
    using log2_ok by (rule responds_auth_obtain)
  have "to_secs 3000000 < to_secs 2000000 + seven_days" by (simp add: to_secs_def seven_days_def)
  from login_token_authenticates [OF l [unfolded log2_def] this] show ?thesis
    by (simp add: l auth_token_of_def auth_uid_of_def)
qed

definition lo3 :: "auth_body route_result \<times> user_db" where
  "lo3 = logout sk 3000000 salt0 hdr2 (snd log2)"

lemma guard2_ok: "\<not> isl (auth sk 2500000 (snd log2) hdr2)"
  by code_simp

theorem guard_requires_listed_token_witness:
  "fst (projr (auth sk 2500000 (snd log2) hdr2)) \<in> set (users (snd log2)) \<and>
   snd (projr (auth sk 2500000 (snd log2) hdr2)) \<in> set (tokens (fst (projr (auth sk 2500000 (snd log2) hdr2))))"
  using guard_requires_listed_token [of sk 2500000 "snd log2" hdr2
      "fst (projr (auth sk 2500000 (snd log2) hdr2))" "snd (projr (auth sk 2500000 (snd log2) hdr2))"]
    guard2_ok by (simp add: sum.collapse)

lemma guard1_ok: "\<not> isl (auth sk 2500000 (snd log2) hdr1)"
  by code_simp

lemma log2_wf: "users_wf (snd log2)"
  by code_simp

lemma hdr2_other: "bearer_token hdr2 \<noteq> Some (snd (projr (auth sk 2500000 (snd log2) hdr1)))"
  by code_simp

theorem logout_keeps_other_sessions_witness:
  "\<exists>u2'. auth sk 2500000 (snd lo3) hdr1 = Inr (u2', snd (projr (auth sk 2500000 (snd log2) hdr1))) \<and>
         user_id u2' = user_id (fst (projr (auth sk 2500000 (snd log2) hdr1)))"
proof -
  have lo: "logout sk 3000000 salt0 hdr2 (snd log2) = (Respond 200 (MessageBody ''Logged out successfully''), snd lo3)"
    using logout3_ok unfolding lo3_def by (metis prod.collapse)
  have a2: "auth sk 2500000 (snd log2) hdr1 =
      Inr (fst (projr (auth sk 2500000 (snd log2) hdr1)), snd (projr (auth sk 2500000 (snd log2) hdr1)))"
    using guard1_ok by (simp add: sum.collapse)
  show ?thesis by (rule logout_keeps_other_sessions [OF log2_wf lo a2 hdr2_other])
qed

definition ann2_body :: jbody where
  "ann2_body = [(''name'', JStr ''Ann B''), (''email'', JStr ''ANN@ex.com''), (''password'', JStr ''secret2'')]"

lemma ann2_valid: "\<not> isl (joi_validate no_dates 2000000 register_schema ann2_body)"
  by code_simp

theorem register_twice_refused_witness:
  "register sk 2000000 salt0 ann2_body (snd reg1) =
     (Respond 400 (ErrorBody ''User already exists with this email''), snd reg1)"
proof -
  obtain m uj tok db1 where r: "reg1 = (Respond 201 (AuthBody m uj tok), db1)"
    using reg1_ok by (rule responds_auth_obtain)
  have v: "joi_validate no_dates 2000000 register_schema ann2_body =
      Inr (projr (joi_validate no_dates 2000000 register_schema ann2_body))"
    using ann2_valid by (simp add: sum.collapse)
  have "js_to_lower ''ANN@ex.com'' = js_to_lower ''ann@ex.com''" by code_simp
  from register_twice_refused [OF r [unfolded reg1_def] _ _ v _ this]
  show ?thesis by (simp add: r ann_body_def ann2_body_def)
qed

theorem auth_routes_preserve_wf_witness:
  "users_wf (snd (register sk 1000000 salt0 ann_body db0)) \<and> users_wf (snd (login sk 1000000 salt0 ann_body db0)) \<and>
   users_wf (snd (logout sk 1000000 salt0 hdr2 db0)) \<and> snd (me sk 1000000 hdr2 db0) = db0"
  by (rule auth_routes_preserve_wf) (simp add: users_wf_def db0_def)

definition bob_login :: jbody where
  "bob_login = [(''email'', JStr ''bob@ex.com''), (''password'', JStr ''secret1'')]"
definition ann_wrong :: jbody where
  "ann_wrong = [(''email'', JStr ''ann@ex.com''), (''password'', JStr ''wrong-pw'')]"

lemma login_bodies_valid:
  "\<not> isl (joi_validate no_dates 2000000 login_schema bob_login)"
  "\<not> isl (joi_validate no_dates 2000000 login_schema ann_wrong)"
  by code_simp+

lemma login_lookups:
  "find_user_by_email (snd reg1) (the_str (projr (joi_validate no_dates 2000000 login_schema bob_login)) ''email'') = None"
  "find_user_by_email (snd reg1) (the_str (projr (joi_validate no_dates 2000000 login_schema ann_wrong)) ''email'') \<noteq> None"
  "\<not> compare_password (the (find_user_by_email (snd reg1) (the_str (projr (joi_validate no_dates 2000000 login_schema ann_wrong)) ''email'')))
      (the_str (projr (joi_validate no_dates 2000000 login_schema ann_wrong)) ''password'')"
  by code_simp+

theorem login_failure_uniform_witness:
  "login sk 2000000 salt0 bob_login (snd reg1) = (Respond 401 (ErrorBody ''Invalid credentials''), snd reg1) \<and>
   login sk 2000000 salt0 ann_wrong (snd reg1) = login sk 2000000 salt0 bob_login (snd reg1)"
  using login_failure_uniform [of 2000000 bob_login "projr (joi_validate no_dates 2000000 login_schema bob_login)"
      "snd reg1" ann_wrong "projr (joi_validate no_dates 2000000 login_schema ann_wrong)"
      "the (find_user_by_email (snd reg1) (the_str (projr (joi_validate no_dates 2000000 login_schema ann_wrong)) ''email''))"
      sk salt0 salt0]
    login_bodies_valid login_lookups by (simp add: sum.collapse)

definition p0 :: jwt_payload where
  "p0 = \<lparr>p_id = 0, p_email = ''ann@ex.com'', p_role = ''user''\<rparr>"

theorem guard_rejects_expired_witness:
  "auth sk 605800000 (snd reg1) (Some (bearer @ jwt_sign sk 1000000 p0)) = Inl TokenNotValid"
  by (rule guard_rejects_expired) (simp add: to_secs_def seven_days_def)

theorem guard_rejects_foreign_key_witness:
  "auth sk 2000000 (snd reg1) (Some (bearer @ jwt_sign ''other'' 1000000 p0)) = Inl TokenNotValid"
  by (rule guard_rejects_foreign_key) (simp add: sk_def)

definition ua :: user where
  "ua = \<lparr>user_id = 0, name = ''Ann'', email = ''ann@ex.com'', password = salt0, role = RoleAdmin,
         user_createdAt = 0, tokens = []\<rparr>"
definition dba :: user_db where "dba = \<lparr>users = [ua], next_oid = 1\<rparr>"

theorem generate_auth_token_claims_witness:
  "jwt_verify sk 2000000 (jwt_sign sk 1000000 (token_payload ua)) =
     Inr \<lparr>p_id = 0, p_email = ''ann@ex.com'', p_role = ''admin'', iat = 1000, exp = 605800\<rparr> \<and>
   (\<exists>v\<in>set [ua\<lparr>tokens := [jwt_sign sk 1000000 (token_payload ua)]\<rparr>].
      user_id v = 0 \<and> tokens v = [jwt_sign sk 1000000 (token_payload ua)])"
  using generate_auth_token_claims [of sk 1000000 salt0 ua dba "jwt_sign sk 1000000 (token_payload ua)"
      "ua\<lparr>tokens := [jwt_sign sk 1000000 (token_payload ua)]\<rparr>"
      "dba\<lparr>users := [ua\<lparr>tokens := [jwt_sign sk 1000000 (token_payload ua)]\<rparr>]\<rparr>" 2000000]
  by (simp add: generate_auth_token_Inr dba_def ua_def to_secs_def seven_days_def role_name_def)

definition long_pw :: string where
  "long_pw = concat (replicate 9 ''abcdefgh'') @ ''tail-one''"
definition bob_body :: jbody where
  "bob_body = [(''name'', JStr ''Bob''), (''email'', JStr ''bob@ex.com''), (''password'', JStr long_pw)]"
definition regb :: "auth_body route_result \<times> user_db" where
  "regb = register sk 1000000 salt0 bob_body db0"

lemma regb_facts:
  "users_wf (snd regb)" "hd (users (snd regb)) \<in> set (users (snd regb))"
  "password (hd (users (snd regb))) = bcrypt_hash salt0 long_pw"
  "email (hd (users (snd regb))) = js_to_lower ''bob@ex.com''" "joi_email_ok ''bob@ex.com''"
  by code_simp+

theorem login_accepts_password_prefix_witness:
  "fst (login sk 2000000 salt0 [(''email'', JStr ''bob@ex.com''), (''password'', JStr (take 72 long_pw @ ''tail-two''))] (snd regb)) =
     Respond 200 (AuthBody ''Login successful''
       (user_to_json ((hd (users (snd regb)))\<lparr>tokens := tokens (hd (users (snd regb))) @
          [jwt_sign sk 2000000 (token_payload (hd (users (snd regb))))]\<rparr>))
       (jwt_sign sk 2000000 (token_payload (hd (users (snd regb))))))"
proof -
  have salt: "bcrypt_salt_ok salt0" by (simp add: bcrypt_salt_ok_def salt0_def bcrypt_salt_len_def)
  have tk: "take 72 (take 72 long_pw @ ''tail-two'') = take 72 long_pw" by code_simp
  show ?thesis
    by (rule login_accepts_password_prefix [OF regb_facts(1) salt regb_facts(2,3,4) _ regb_facts(5) _ tk]) simp_all
qed

definition log2b :: "auth_body route_result \<times> user_db" where
  "log2b = login sk 2000400 salt0 ann_login (snd log2)"

lemma log2b_ok: "responds_auth 200 log2b" by code_simp
lemma reg1_wf: "users_wf (snd reg1)" by code_simp
lemma same_uid: "auth_uid_of log2 = auth_uid_of log2b" by code_simp

theorem same_second_logins_same_token_witness:
  "auth_token_of log2 = auth_token_of log2b"
proof -
  obtain m1 uj1 t1 d1 where l1: "log2 = (Respond 200 (AuthBody m1 uj1 t1), d1)"
    using log2_ok by (rule responds_auth_obtain)
  obtain m2 uj2 t2 d2 where l2: "log2b = (Respond 200 (AuthBody m2 uj2 t2), d2)"
    using log2b_ok by (rule responds_auth_obtain)
  have "j_id uj1 = j_id uj2" using same_uid by (simp add: l1 l2 auth_uid_of_def)
  moreover have "to_secs 2000000 = to_secs 2000400" by (simp add: to_secs_def)
  moreover have l2': "login sk 2000400 salt0 ann_login d1 = (Respond 200 (AuthBody m2 uj2 t2), d2)"
    using l2 by (simp add: log2b_def l1)
  ultimately have "t1 = t2"
    using same_second_logins_same_token [OF reg1_wf l1 [unfolded log2_def] l2'] by blast
  then show ?thesis by (simp add: l1 l2 auth_token_of_def)
qed

lemma token2_bare: "\<not> occurs bearer (auth_token_of log2)" by code_simp

theorem guard_accepts_bare_token_witness:
  "auth sk 3000000 (snd log2) (Some (auth_token_of log2)) = auth sk 3000000 (snd log2) hdr2"
  unfolding hdr2_def by (rule guard_accepts_bare_token [OF token2_bare])

lemma dup_register_fails:
  "fst (register sk 2000000 salt0 ann2_body (snd reg1)) = Respond 400 (ErrorBody ''User already exists with this email'')"
  by code_simp

theorem register_no_partial_write_witness:
  "users (snd (register sk 2000000 salt0 ann2_body (snd reg1))) = users (snd reg1)"
  by (rule register_no_partial_write) (simp add: dup_register_fails)

end
