(* ===== verification/Server_Scenarios.thy ===== *)
theory Server_Scenarios
  imports Server Scenarios
begin

text \<open>
  Concrete runs of the whole server from the empty database, evaluated by
  \<open>code_simp\<close>: Ann registers through \<open>POST /api/auth/register\<close>, creates
  a task through \<open>POST /api/tasks\<close> with the returned token, and
  logs out. Each \<open>_witness\<close> theorem applies one property of
  \<^theory_text>\<open>Server\<close> at such a run.
\<close>

definition empty_query :: list_query where
  "empty_query = \<lparr>q_status = None, q_priority = None, q_sortBy = None, q_sortOrder = None, q_page = None, q_limit = None\<rparr>"

definition mk_req :: "string \<Rightarrow> string \<Rightarrow> string option \<Rightarrow> jbody \<Rightarrow> request" where
  "mk_req m p h b = \<lparr>r_method = m, r_path = p, r_auth = h, r_body = b, r_query = empty_query\<rparr>"

definition s1 :: "response \<times> task_db" where
  "s1 = serve sk 1000000 salt0 no_dates (mk_req ''POST'' ''/api/auth/register'' None ann_body) init_db"

definition resp_token :: "response \<times> 'a \<Rightarrow> string" where
  "resp_token r = (case fst r of (_, RAuth (AuthBody _ _ t)) \<Rightarrow> t | _ \<Rightarrow> [])"

definition h1 :: "string option" where "h1 = Some (bearer @ resp_token s1)"

definition s2 :: "response \<times> task_db" where
  "s2 = serve sk 2000000 salt0 no_dates
          (mk_req ''POST'' ''/api/tasks'' h1 [(''title'', JStr ''Write spec'')]) (snd s1)"

lemma s2_reachable: "reachable sk (snd s2)"
  unfolding s2_def s1_def by (intro reachable.step reachable.start)

lemma s2_task: "tasks (snd s2) \<noteq> []" by code_simp

theorem reachable_sys_wf_witness:
  "users_wf (snd s2) \<and> tasks_wf (snd s2) \<and> tasks (snd s2) \<noteq> [] \<and>
   list_all (\<lambda>t. list_ex (\<lambda>u. user_id u = owner t) (users (snd s2))) (tasks (snd s2))"
  using reachable_sys_wf [OF s2_reachable] s2_task by (auto simp: list_all_iff list_ex_iff)

lemma tasks_segs: "route_segs ''/api/tasks'' = Some [''api'', ''tasks'']" by code_simp

lemma segs_lit:
  "seg_is ''api'' ''api''" "seg_is ''tasks'' ''tasks''" "seg_is ''stats'' ''stats''" "seg_is ''overview'' ''overview''"
  by code_simp+

theorem tasks_require_auth_witness:
  "serve sk 1000000 salt0 no_dates (mk_req ''GET'' ''/api/tasks'' None []) init_db =
     ((401, RError ''No token, authorization denied''), init_db)"
proof -
  have a: "auth sk 1000000 init_db (r_auth (mk_req ''GET'' ''/api/tasks'' None [])) = Inl NoToken"
    by (simp add: auth_def bearer_token_def mk_req_def)
  have p: "route_segs (r_path (mk_req ''GET'' ''/api/tasks'' None [])) = Some [''api'', ''tasks'']"
    by (simp add: mk_req_def tasks_segs)
  from tasks_require_auth [OF p _ _ _ a] segs_lit show ?thesis by (simp add: auth_message_def)
qed

definition lo_req :: request where "lo_req = mk_req ''POST'' ''/api/auth/logout'' h1 []"

lemma lo_ok: "fst (serve sk 1500000 salt0 no_dates lo_req (snd s1)) = (200, RAuth (MessageBody ''Logged out successfully''))"
  by code_simp

theorem logout_closes_task_api_witness:
  "serve sk 3000000 salt0 no_dates (mk_req ''GET'' ''/api/tasks'' h1 []) (snd (serve sk 1500000 salt0 no_dates lo_req (snd s1))) =
     ((401, RError ''Token is not valid''), snd (serve sk 1500000 salt0 no_dates lo_req (snd s1)))"
proof -
  have r: "serve sk 1500000 salt0 no_dates lo_req (snd s1) =
      ((200, RAuth (MessageBody ''Logged out successfully'')), snd (serve sk 1500000 salt0 no_dates lo_req (snd s1)))"
    using lo_ok by (metis prod.collapse)
  have "route_segs ''/api/auth/logout'' = Some [''api'', ''auth'', ''logout'']" by code_simp
  then have p1: "route_segs (r_path lo_req) = Some [''api'', ''auth'', ''logout'']" by (simp add: lo_req_def mk_req_def)
  have p2: "route_segs (r_path (mk_req ''GET'' ''/api/tasks'' h1 [])) = Some [''api'', ''tasks'']"
    by (simp add: mk_req_def tasks_segs)
  have m: "r_method lo_req = ''POST''" "r_auth (mk_req ''GET'' ''/api/tasks'' h1 []) = r_auth lo_req"
    by (simp_all add: lo_req_def mk_req_def)
  from logout_closes_task_api [OF m(1) p1 r m(2) p2] segs_lit show ?thesis by simp
qed

lemma ann_listed:
  "hd (users (snd s2)) \<in> set (users (snd s2))" "resp_token s1 \<in> set (tokens (hd (users (snd s2))))"
  "user_id (hd (users (snd s2))) = 0" "email (hd (users (snd s2))) = ''ann@ex.com''"
  "role (hd (users (snd s2))) = RoleUser"
  by code_simp+

theorem reachable_tokens_signed_witness:
  "\<exists>n. resp_token s1 = jwt_sign sk n \<lparr>p_id = 0, p_email = ''ann@ex.com'', p_role = ''user''\<rparr>"
  using reachable_tokens_signed [OF s2_reachable ann_listed(1,2)] ann_listed(3-5) by (simp add: role_name_def)

end
