(* ===== verification/Api_Scenarios.thy ===== *)
theory Api_Scenarios
  imports Api Server_Scenarios
begin

text \<open>
  Concrete requests for the properties of \<^theory_text>\<open>Api\<close>, evaluated by
  \<open>code_simp\<close>: a \<open>GET\<close> of a task whose path is written in mixed case with a
  trailing slash, and Bob registering in the state where Ann has registered and
  created a task, then listing his tasks with the token he was given.
\<close>

definition id_req :: request where "id_req = mk_req ''GET'' ''/API/Tasks/abc/'' None []"

definition bob_body :: jbody where
  "bob_body = [(''name'', JStr ''Bob''), (''email'', JStr ''bob@ex.com''), (''password'', JStr ''hunter22'')]"

definition bob_req :: request where "bob_req = mk_req ''POST'' ''/api/auth/register'' None bob_body"

definition bob_out :: "(string \<times> jout) list" where
  "bob_out = [(''name'', OStr ''Bob''), (''email'', OStr ''bob@ex.com''), (''password'', OStr ''hunter22'')]"

lemma id_req_facts:
  "(''GET'', ''/api/tasks/:id'', ''Get single task'') \<in> set readme_endpoints"
  "tmatch [''api'', ''tasks'', '':id''] [''API'', ''Tasks'', ''abc''] None = Some (Some ''abc'')"
  "route_segs (r_path id_req) = Some [''API'', ''Tasks'', ''abc'']"
  "r_method id_req = ''GET''"
  by code_simp+

theorem server_implements_readme_witness:
  "\<exists>k op. (k, ''GET /api/tasks/:id'') \<in> set root_endpoints \<and> api_of_key k (Some ''abc'') = Some op \<and>
     serve sk 0 salt0 no_dates id_req init_db = api_step sk 0 salt0 no_dates op id_req init_db"
  using server_implements_readme [OF id_req_facts(1) readme_paths(6) id_req_facts(2,4,3),
      of sk 0 salt0 no_dates init_db]
  by simp

lemma bob_facts:
  "r_method bob_req = ''POST''"
  "route_segs (r_path bob_req) = Some [''api'', ''auth'', ''register'']"
  "joi_validate no_dates 3000000 register_schema (r_body bob_req) = Inr bob_out"
  "find_user_by_email (snd s2) (the_str bob_out ''email'') = None"
  "user_validation_errors (new_user (next_oid (snd s2)) 3000000 (the_str bob_out ''name'')
     (the_str bob_out ''email'') (the_str bob_out ''password'')) = []"
  by code_simp+

theorem newcomer_progress_witness:
  "\<exists>uj tok db'. serve sk 3000000 salt0 no_dates bob_req (snd s2) =
       ((201, RAuth (AuthBody ''User registered successfully'' uj tok)), db') \<and> reachable sk db' \<and>
     serve sk 3600000 salt0 no_dates (mk_req ''GET'' ''/api/tasks'' (Some (bearer @ tok)) []) db' =
       ((200, RList (ListBody [] \<lparr>pg_page = 1, pg_limit = 10, pg_total = 0, pg_pages = Some 0\<rparr>)), db')"
proof -
  obtain uj tok db' where r: "serve sk 3000000 salt0 no_dates bob_req (snd s2) =
       ((201, RAuth (AuthBody ''User registered successfully'' uj tok)), db')" and rc: "reachable sk db'"
    and l: "\<forall>lq now' salt' pd'. r_method lq = ''GET'' \<longrightarrow> route_segs (r_path lq) = Some [''api'', ''tasks''] \<longrightarrow>
              r_auth lq = Some (bearer @ tok) \<longrightarrow> q_page (r_query lq) = None \<longrightarrow> q_limit (r_query lq) = None \<longrightarrow>
              to_secs now' < to_secs 3000000 + seven_days \<longrightarrow>
              serve sk now' salt' pd' lq db' =
                ((200, RList (ListBody [] \<lparr>pg_page = 1, pg_limit = 10, pg_total = 0, pg_pages = Some 0\<rparr>)), db')"
    using newcomer_progress [OF s2_reachable bob_facts, of salt0 no_dates] by blast
  have "to_secs 3600000 < to_secs 3000000 + seven_days" by (simp add: to_secs_def seven_days_def)
  with l [rule_format, of "mk_req ''GET'' ''/api/tasks'' (Some (bearer @ tok)) []" 3600000 salt0 no_dates]
  have "serve sk 3600000 salt0 no_dates (mk_req ''GET'' ''/api/tasks'' (Some (bearer @ tok)) []) db' =
          ((200, RList (ListBody [] \<lparr>pg_page = 1, pg_limit = 10, pg_total = 0, pg_pages = Some 0\<rparr>)), db')"
    by (simp add: mk_req_def empty_query_def tasks_segs)
  with r rc show ?thesis by blast
qed

end
