(* ===== verification/Task_Scenarios.thy ===== *)
theory Task_Scenarios
  imports Task
begin

text \<open>
  Concrete runs of the task handlers, evaluated by \<open>code_simp\<close>: Ann (id 0)
  creates a task in an empty collection whose counter stands at 5, reads and
  updates it; Bob (id 1) tries to reach it; a collection with three pending and
  one completed task of Ann's and one task of Bob's gives the statistics example
  of the specification. Each \<open>_witness\<close> theorem applies one property of
  \<^theory_text>\<open>Task\<close> at such a run.
\<close>

definition ann :: user where
  "ann = \<lparr>user_id = 0, name = ''Ann'', email = ''ann@ex.com'', password = ''h'', role = RoleUser,
          user_createdAt = 0, tokens = []\<rparr>"
definition bob :: user where
  "bob = \<lparr>user_id = 1, name = ''Bob'', email = ''bob@ex.com'', password = ''h'', role = RoleUser,
          user_createdAt = 0, tokens = []\<rparr>"
definition tdb0 :: task_db where
  "tdb0 = \<lparr>users = [], next_oid = 5, tasks = []\<rparr>"
definition write_body :: jbody where
  "write_body = [(''title'', JStr ''  Write spec ''), (''description'', JStr ''draft''), (''dueDate'', JNum 5000000)]"
definition cr1 :: "task_body route_result \<times> task_db" where
  "cr1 = create_task no_dates 1000000 ann write_body tdb0"

definition msg_task :: "nat \<Rightarrow> task_body route_result \<times> 'a \<Rightarrow> bool" where
  "msg_task k r = (case fst r of Respond n (TaskMsgBody _ _) \<Rightarrow> n = k | _ \<Rightarrow> False)"

lemma msg_task_obtain:
  assumes "msg_task k r"
  obtains m t d where "r = (Respond k (TaskMsgBody m t), d)"
  using assms unfolding msg_task_def
  by (cases r) (auto split: route_result.splits task_body.splits)

lemma cr1_ok: "msg_task 201 cr1" by code_simp
lemma tdb0_wf: "tasks_wf tdb0" by (simp add: tasks_wf_def tdb0_def)

theorem create_then_get_witness:
  "\<exists>m t d. cr1 = (Respond 201 (TaskMsgBody m t), d) \<and>
     get_task ann (oid_hex (task_id t)) d = (Respond 200 (TaskBody t), d)"
proof -
  obtain m t d where c: "cr1 = (Respond 201 (TaskMsgBody m t), d)" using cr1_ok by (rule msg_task_obtain)
  have "next_oid tdb0 < 16 ^ 24" by (simp add: tdb0_def)
  from create_then_get [OF tdb0_wf this c [unfolded cr1_def]] c show ?thesis by blast
qed

theorem create_task_fields_witness:
  "\<exists>m t d. cr1 = (Respond 201 (TaskMsgBody m t), d) \<and> title t = js_trim ''  Write spec '' \<and> owner t = 0 \<and>
     description t = Some ''draft'' \<and> status t = ''pending'' \<and> priority t = ''medium''"
proof -
  obtain m t d where c: "cr1 = (Respond 201 (TaskMsgBody m t), d)" using cr1_ok by (rule msg_task_obtain)
  have "map_of write_body ''title'' = Some (JStr ''  Write spec '')" by (simp add: write_body_def)
  from create_task_fields [OF c [unfolded cr1_def] this] c show ?thesis
    by (auto simp: write_body_def ann_def js_trim_def js_space_def)
qed

lemma cr1_due: "(case fst cr1 of Respond _ (TaskMsgBody _ t) \<Rightarrow> dueDate t | _ \<Rightarrow> None) = Some 5000000"
  by code_simp

theorem create_due_in_future_witness:
  "\<exists>m t d. cr1 = (Respond 201 (TaskMsgBody m t), d) \<and> dueDate t = Some 5000000 \<and> int 1000000 < 5000000"
proof -
  obtain m t d where c: "cr1 = (Respond 201 (TaskMsgBody m t), d)" using cr1_ok by (rule msg_task_obtain)
  have "dueDate t = Some 5000000" using cr1_due by (simp add: c)
  with create_due_in_future [OF c [unfolded cr1_def] this] c show ?thesis by blast
qed

definition t5 :: string where "t5 = oid_hex 5"

lemma get5_ok: "fst (get_task ann t5 (snd cr1)) \<noteq> Respond 404 (TErrorBody ''Task not found'') \<and>
  (case fst (get_task ann t5 (snd cr1)) of Respond n (TaskBody _) \<Rightarrow> n = 200 | _ \<Rightarrow> False)"
  by code_simp

theorem get_task_returns_owned_witness:
  "\<exists>t d. get_task ann t5 (snd cr1) = (Respond 200 (TaskBody t), d) \<and> t \<in> set (tasks (snd cr1)) \<and> owner t = 0"
proof -
  obtain t d where g: "get_task ann t5 (snd cr1) = (Respond 200 (TaskBody t), d)"
    using get5_ok by (cases "get_task ann t5 (snd cr1)") (auto split: route_result.splits task_body.splits)
  from get_task_returns_owned [OF g] g show ?thesis by (auto simp: ann_def)
qed

lemma t5_cast: "cast_oid t5 = Some 5" by code_simp
lemma t5_foreign: "\<forall>t \<in> set (tasks (snd cr1)). task_id t = 5 \<longrightarrow> owner t \<noteq> user_id bob" by code_simp

theorem foreign_task_not_found_witness:
  "get_task bob t5 (snd cr1) = (Respond 404 (TErrorBody ''Task not found''), snd cr1) \<and>
   delete_task bob t5 (snd cr1) = (Respond 404 (TErrorBody ''Task not found''), snd cr1) \<and>
   snd (update_task no_dates 1000000 bob t5 write_body (snd cr1)) = snd cr1"
  using foreign_task_not_found [OF t5_cast t5_foreign, of no_dates 1000000 write_body] by simp

theorem task_routes_preserve_wf_witness:
  "tasks_wf (snd (create_task no_dates 1000000 ann write_body tdb0)) \<and>
   tasks_wf (snd (update_task no_dates 1000000 ann t5 write_body tdb0)) \<and> tasks_wf (snd (delete_task ann t5 tdb0))"
  by (rule task_routes_preserve_wf [OF tdb0_wf])

definition upd_body :: jbody where
  "upd_body = [(''title'', JStr ''Write the spec''), (''priority'', JStr ''high'')]"
definition up2 :: "task_body route_result \<times> task_db" where
  "up2 = update_task no_dates 2000000 ann t5 upd_body (snd cr1)"

lemma up2_ok: "msg_task 200 up2" by code_simp

theorem update_task_writes_witness:
  "\<exists>m t' d. up2 = (Respond 200 (TaskMsgBody m t'), d) \<and>
     (\<exists>t. t \<in> set (tasks (snd cr1)) \<and> t' \<in> set (tasks d) \<and> updatedAt t' = updatedAt t \<and> status t' = status t)"
proof -
  obtain m t' d where u: "up2 = (Respond 200 (TaskMsgBody m t'), d)" using up2_ok by (rule msg_task_obtain)
  from update_task_writes [OF u [unfolded up2_def]] u show ?thesis by (auto simp: upd_body_def)
qed

theorem update_requires_title_witness:
  "update_task no_dates 2000000 ann t5 [(''status'', JStr ''completed'')] (snd cr1) =
     (Respond 400 (TErrorBody ''\"title\" is required''), snd cr1)"
  by (rule update_requires_title) simp

definition mk_task :: "oid \<Rightarrow> oid \<Rightarrow> string \<Rightarrow> task" where
  "mk_task i uid st = \<lparr>task_id = i, title = ''t'', description = None, status = st, priority = ''low'',
     dueDate = None, owner = uid, task_createdAt = 0, updatedAt = 0\<rparr>"
definition stats_db :: task_db where
  "stats_db = \<lparr>users = [], next_oid = 6,
     tasks = [mk_task 0 0 ''pending'', mk_task 1 0 ''completed'', mk_task 2 1 ''in-progress'',
              mk_task 3 0 ''pending'', mk_task 4 0 ''pending'']\<rparr>"

lemma stats_db_statuses: "\<forall>t \<in> set (owned_tasks ann stats_db). status t \<in> set status_values"
  by code_simp

theorem stats_overview_counts_witness:
  "task_stats ann stats_db =
     (Respond 200 (StatsBody (StatsOverview
        [(''total'', 4), (''pending'', 3), (''in-progress'', 0), (''completed'', 1)])), stats_db)"
proof -
  have "[(''total'', length (owned_tasks ann stats_db)),
         (''pending'', count_list (map status (owned_tasks ann stats_db)) ''pending''),
         (''in-progress'', count_list (map status (owned_tasks ann stats_db)) ''in-progress''),
         (''completed'', count_list (map status (owned_tasks ann stats_db)) ''completed'')] =
        [(''total'', 4), (''pending'', 3), (''in-progress'', 0), (''completed'', 1)]"
    by code_simp
  with stats_overview_counts [OF stats_db_statuses] show ?thesis by simp
qed

lemma failing_requests:
  "\<not> msg_task 201 (create_task no_dates 1000000 bob [] (snd cr1))"
  "\<not> msg_task 200 (update_task no_dates 1000000 bob t5 [] (snd cr1))"
  "fst (delete_task bob t5 (snd cr1)) \<noteq> Respond 200 (TMessageBody ''Task deleted successfully'')"
  by code_simp+

theorem task_failures_write_nothing_witness:
  "tasks (snd (create_task no_dates 1000000 bob [] (snd cr1))) = tasks (snd cr1) \<and>
   snd (update_task no_dates 1000000 bob t5 [] (snd cr1)) = snd cr1 \<and>
   snd (delete_task bob t5 (snd cr1)) = snd cr1"
proof -
  have "\<forall>m t. fst (create_task no_dates 1000000 bob [] (snd cr1)) \<noteq> Respond 201 (TaskMsgBody m t)"
    "\<forall>m t. fst (update_task no_dates 1000000 bob t5 [] (snd cr1)) \<noteq> Respond 200 (TaskMsgBody m t)"
    using failing_requests(1,2) by (auto simp: msg_task_def)
  with failing_requests(3) show ?thesis
    using task_failures_write_nothing [of no_dates 1000000 bob "[]" "snd cr1" t5] by blast
qed

end
