(* ===== verification/List_Scenarios.thy ===== *)
theory List_Scenarios
  imports Task_Scenarios Task_List
begin

text \<open>
  Concrete runs of the listing: Ann owns fifteen tasks and Bob one, and Ann
  lists them with the query strings a client sends. The second page of ten
  holds five tasks and \<open>pagination.pages\<close> is 2, the example of the
  specification. Each \<open>_witness\<close> theorem applies one property of
  \<^theory_text>\<open>Task_List\<close> at such a run.
\<close>

definition list_db :: task_db where
  "list_db = \<lparr>users = [], next_oid = 20,
     tasks = map (\<lambda>i. mk_task i 0 (if even i then ''pending'' else ''completed'')) [0..<15] @
             [mk_task 15 1 ''pending'']\<rparr>"

definition page_query :: "string option \<Rightarrow> string option \<Rightarrow> list_query" where
  "page_query pg lm = \<lparr>q_status = None, q_priority = None, q_sortBy = None, q_sortOrder = None,
                       q_page = pg, q_limit = lm\<rparr>"

lemma ten: "js_parse_int ''10'' = Some 10" by code_simp
lemma two: "js_parse_int ''2'' = Some 2" by code_simp
lemma zero: "js_parse_int ''0'' = Some 0" by code_simp

theorem list_tasks_page_witness:
  "\<exists>items pgn c. list_tasks ann (page_query (Some ''2'') (Some ''10'')) list_db = (Respond 200 (ListBody items pgn), list_db) \<and>
     length items = min 10 (pg_total pgn - 10) \<and> pg_total pgn = 15 \<and>
     pg_pages pgn = Some c \<and> int (pg_total pgn) \<le> c * 10 \<and> (c - 1) * 10 < int (pg_total pgn)"
proof -
  have tot: "length (filter (list_filter ann (page_query (Some ''2'') (Some ''10''))) (tasks list_db)) = 15" by code_simp
  obtain items pgn c where
    r: "list_tasks ann (page_query (Some ''2'') (Some ''10'')) list_db = (Respond 200 (ListBody items pgn), list_db)"
    and l: "length items = min (nat 10) (pg_total pgn - nat ((2 - 1) * 10))"
    and t: "pg_total pgn = length (filter (list_filter ann (page_query (Some ''2'') (Some ''10''))) (tasks list_db))"
    and c: "pg_pages pgn = Some c" "int (pg_total pgn) \<le> c * 10" "(c - 1) * 10 < int (pg_total pgn)"
    using list_tasks_page [of "page_query (Some ''2'') (Some ''10'')" "''2''" 2 "''10''" 10 ann list_db] two ten
    by (auto simp: page_query_def)
  have "length items = min 10 (pg_total pgn - 10)" using l by simp
  with r t tot c show ?thesis by auto
qed

theorem list_only_matching_witness:
  "list_all (\<lambda>t. owner t = 0) (list_items (list_tasks ann (page_query (Some ''2'') (Some ''10'')) list_db))"
proof -
  obtain items pgn where r: "list_tasks ann (page_query (Some ''2'') (Some ''10'')) list_db = (Respond 200 (ListBody items pgn), list_db)"
    using list_tasks_ok [of "page_query (Some ''2'') (Some ''10'')" 2 10 ann list_db] two ten
    by (simp add: page_query_def)
  from list_only_matching [OF r] r show ?thesis by (auto simp: list_items_def ann_def list_all_iff)
qed

theorem list_pages_partition_witness:
  "concat (map (\<lambda>p. list_items (list_tasks ann ((page_query None (Some ''10''))\<lparr>q_page := Some (dec_digits p)\<rparr>) list_db)) [1..<Suc 2]) =
   list_sorted ann (page_query None (Some ''10'')) list_db"
proof -
  have "js_ceil_div (int (length (list_sorted ann (page_query None (Some ''10'')) list_db))) 10 = Some 2" by code_simp
  from list_pages_partition [of "page_query None (Some ''10'')" "''10''" 10 ann list_db 2, OF _ ten _ this]
  show ?thesis by (simp add: page_query_def)
qed

theorem list_sorted_correct_witness:
  "mset (list_sorted ann (page_query None None) list_db) =
     mset (filter (list_filter ann (page_query None None)) (tasks list_db)) \<and>
   sorted_wrt (\<lambda>x y. field_value ''createdAt'' y \<le> field_value ''createdAt'' x)
     (list_sorted ann (page_query None None) list_db)"
  using list_sorted_correct [of "page_query None None" ann list_db] by (simp add: page_query_def)

theorem list_sorted_sort_key_witness:
  "list_sorted ann ((page_query None None)\<lparr>q_sortBy := Some ''title'', q_sortOrder := Some ''asc''\<rparr>) list_db =
   sort_key (field_value ''title'') (filter (list_filter ann ((page_query None None)\<lparr>q_sortBy := Some ''title'', q_sortOrder := Some ''asc''\<rparr>)) (tasks list_db))"
  using list_sorted_sort_key [of "(page_query None None)\<lparr>q_sortBy := Some ''title'', q_sortOrder := Some ''asc''\<rparr>" "''asc''" ann list_db]
  by (simp add: page_query_def)

theorem list_nonpositive_page_error_witness:
  "list_tasks ann (page_query (Some ''0'') (Some ''10'')) list_db =
     (NextError (ServerError ''skip value must be non-negative''), list_db)"
  by (rule list_nonpositive_page_error [of _ "''0''" 0 "''10''" 10]) (simp_all add: page_query_def zero ten)

theorem list_limit_zero_witness:
  "list_tasks ann (page_query None (Some ''0'')) list_db =
     (Respond 200 (ListBody (list_sorted ann (page_query None (Some ''0'')) list_db)
        \<lparr>pg_page = 1, pg_limit = 0, pg_total = length (filter (list_filter ann (page_query None (Some ''0''))) (tasks list_db)),
         pg_pages = None\<rparr>), list_db)"
  by (rule list_limit_zero [of _ "''0''"]) (simp_all add: page_query_def zero)

end
