(* ===== verification/Email_Regex.thy ===== *)
theory Email_Regex
  imports User
begin

text \<open>
  The \<open>match\<close> validator of the user schema's \<open>email\<close> path
  (\<open>src/unnamed/part_002\<close>, line 18) runs the regular expression
  \<open>/^\\w+([.-]?\\w+)*@\\w+([.-]?\\w+)*(\\.\\w{2,3})+$/\<close> with JavaScript's backtracking
  engine. This theory writes the pattern as a regular expression
  \<open>email_re\<close> and the engine as a continuation-passing matcher
  \<open>bt\<close> that tries the alternatives in the engine's order (greedy
  repetition first) and, as ECMAScript prescribes, fails a repetition that
  consumed nothing. The matcher takes fuel, the depth of its recursion, so that
  its termination is a theorem: with the fuel \<open>need\<close> computes from the
  pattern and the input length, it returns, and its answer is the direct
  characterisation \<open>email_regex_match\<close> the user model uses.
\<close>

section \<open>Regular expressions and the backtracking matcher\<close>

datatype rx = REps | RWord | RLit char | RAlt rx rx | RSeq rx rx | RStar rx

definition ROpt :: "rx \<Rightarrow> rx" where "ROpt a = RAlt a REps"

definition RPlus :: "rx \<Rightarrow> rx" where "RPlus a = RSeq a (RStar a)"

primrec bt :: "nat \<Rightarrow> rx \<Rightarrow> string \<Rightarrow> (string \<Rightarrow> bool option) \<Rightarrow> bool option" where
  "bt 0 r s k = None"
| "bt (Suc n) r s k =
     (case r of
        REps \<Rightarrow> k s
      | RWord \<Rightarrow> (case s of c # s' \<Rightarrow> if is_word c then k s' else Some False | [] \<Rightarrow> Some False)
      | RLit a \<Rightarrow> (case s of c # s' \<Rightarrow> if c = a then k s' else Some False | [] \<Rightarrow> Some False)
      | RAlt a b \<Rightarrow> (case bt n a s k of Some False \<Rightarrow> bt n b s k | res \<Rightarrow> res)
      | RSeq a b \<Rightarrow> bt n a s (\<lambda>s'. bt n b s' k)
      | RStar a \<Rightarrow>
          (case bt n a s (\<lambda>s'. if length s' < length s then bt n (RStar a) s' k else Some False) of
             Some False \<Rightarrow> k s
           | res \<Rightarrow> res))"

text \<open>
  The language of a pattern. A repetition is a sequence of non-empty pieces,
  which is the language of the ECMAScript repetition with its empty check.
\<close>

inductive star_ne :: "string set \<Rightarrow> string \<Rightarrow> bool" for L :: "string set" where
  nil: "star_ne L []"
| app: "x \<in> L \<Longrightarrow> x \<noteq> [] \<Longrightarrow> star_ne L y \<Longrightarrow> star_ne L (x @ y)"

primrec lang :: "rx \<Rightarrow> string set" where
  "lang REps = {[]}"
| "lang RWord = {[c] | c. is_word c}"
| "lang (RLit a) = {[a]}"
| "lang (RAlt a b) = lang a \<union> lang b"
| "lang (RSeq a b) = {x @ y | x y. x \<in> lang a \<and> y \<in> lang b}"
| "lang (RStar a) = {x. star_ne (lang a) x}"

declare lang.simps [simp del]

text \<open>The fuel that suffices: the recursion depth grows with the input only under a star.\<close>

fun need :: "rx \<Rightarrow> nat \<Rightarrow> nat" where
  "need (RAlt a b) l = Suc (max (need a l) (need b l))"
| "need (RSeq a b) l = Suc (max (need a l) (need b l))"
| "need (RStar a) l = (l + 1) * (need a l + 1)"
| "need _ l = 1"

section \<open>The pattern of the e-mail validator\<close>

text \<open>
  \<open>\\w+([.-]?\\w+)*\<close> is \<open>re_word_run\<close>, \<open>(\\.\\w{2,3})+\<close> is
  \<open>re_tld\<close> (a greedy \<open>{2,3}\<close> is two repetitions and an optional
  third). \<open>RegExp.prototype.test\<close> tries every start index, but \<open>^\<close>
  without the multiline flag matches at index 0 only, and \<open>$\<close> asks for
  the end of the input: \<open>email_match\<close> runs the matcher from the start
  with the continuation that accepts the empty rest.
\<close>

definition re_word_run :: rx where
  "re_word_run = RSeq (RPlus RWord) (RStar (RSeq (ROpt (RAlt (RLit CHR ''.'') (RLit CHR ''-''))) (RPlus RWord)))"

definition re_tld_group :: rx where
  "re_tld_group = RSeq (RLit CHR ''.'') (RSeq RWord (RSeq RWord (ROpt RWord)))"

definition re_tld :: rx where
  "re_tld = RPlus re_tld_group"

definition email_re :: rx where
  "email_re = RSeq re_word_run (RSeq (RLit CHR ''@'') (RSeq re_word_run re_tld))"

definition re_sep :: rx where "re_sep = RAlt (RLit CHR ''.'') (RLit CHR ''-'')"

definition re_piece :: rx where "re_piece = RSeq (ROpt re_sep) (RPlus RWord)"

definition email_match :: "nat \<Rightarrow> string \<Rightarrow> bool option" where
  "email_match n e = bt n email_re e (\<lambda>r. Some (r = []))"

text \<open>The tail of a word run: empty, or word characters and single separators ending in a word character.\<close>

definition tail_ok :: "string \<Rightarrow> bool" where
  "tail_ok z \<longleftrightarrow> z = [] \<or> (list_all (\<lambda>c. is_word c \<or> is_sep c) z \<and> is_word (last z) \<and> no_double_sep z)"

section \<open>The matcher computes the language\<close>

lemma lang_mem [simp]:
  "x \<in> lang REps \<longleftrightarrow> x = []"
  "x \<in> lang RWord \<longleftrightarrow> (\<exists>c. x = [c] \<and> is_word c)"
  "x \<in> lang (RLit d) \<longleftrightarrow> x = [d]"
  "x \<in> lang (RAlt a b) \<longleftrightarrow> x \<in> lang a \<or> x \<in> lang b"
  "x \<in> lang (RSeq a b) \<longleftrightarrow> (\<exists>u v. x = u @ v \<and> u \<in> lang a \<and> v \<in> lang b)"
  "x \<in> lang (RStar a) \<longleftrightarrow> star_ne (lang a) x"
  by (auto simp: lang.simps)

lemma lang_opt [simp]: "x \<in> lang (ROpt a) \<longleftrightarrow> x = [] \<or> x \<in> lang a"
  by (auto simp: ROpt_def)

lemma need_mono: "l' \<le> l \<Longrightarrow> need r l' \<le> need r l"
proof (induction r)
  case (RStar a)
  then have "(l' + 1) * (need a l' + 1) \<le> (l + 1) * (need a l + 1)"
    by (intro mult_le_mono) simp_all
  then show ?case by (simp only: need.simps)
qed auto

lemma star_ne_unfold:
  "star_ne L z \<longleftrightarrow> z = [] \<or> (\<exists>x y. z = x @ y \<and> x \<in> L \<and> x \<noteq> [] \<and> star_ne L y)"
  by (auto intro: star_ne.intros elim: star_ne.cases)

lemma need_pos: "0 < need r l"
  by (cases r) simp_all

lemma split_single [simp]:
  "(\<exists>x y. c # s = x @ y \<and> (\<exists>d. x = [d] \<and> P d) \<and> Q y) \<longleftrightarrow> P c \<and> Q s"
  "(\<exists>x y. c # s = x @ y \<and> x = [a] \<and> Q y) \<longleftrightarrow> c = a \<and> Q s"
proof -
  show "(\<exists>x y. c # s = x @ y \<and> (\<exists>d. x = [d] \<and> P d) \<and> Q y) \<longleftrightarrow> P c \<and> Q s"
  proof
    assume "P c \<and> Q s"
    then show "\<exists>x y. c # s = x @ y \<and> (\<exists>d. x = [d] \<and> P d) \<and> Q y"
      by (intro exI [of _ "[c]"] exI [of _ s]) simp
  qed auto
  show "(\<exists>x y. c # s = x @ y \<and> x = [a] \<and> Q y) \<longleftrightarrow> c = a \<and> Q s" by auto
qed

lemma split_cong:
  "(\<And>x y. s = x @ y \<Longrightarrow> P x y \<longleftrightarrow> P' x y) \<Longrightarrow>
   (\<exists>x y. s = x @ y \<and> P x y) \<longleftrightarrow> (\<exists>x y. s = x @ y \<and> P' x y)"
  by blast

lemma split_assoc:
  "(\<exists>x y. s = x @ y \<and> x \<in> A \<and> (\<exists>u v. y = u @ v \<and> u \<in> B \<and> Q v)) \<longleftrightarrow>
   (\<exists>x y. s = x @ y \<and> (\<exists>u v. x = u @ v \<and> u \<in> A \<and> v \<in> B) \<and> Q y)"
proof
  assume "\<exists>x y. s = x @ y \<and> x \<in> A \<and> (\<exists>u v. y = u @ v \<and> u \<in> B \<and> Q v)"
  then obtain x u v where "s = x @ u @ v" "x \<in> A" "u \<in> B" "Q v" by blast
  then show "\<exists>x y. s = x @ y \<and> (\<exists>u v. x = u @ v \<and> u \<in> A \<and> v \<in> B) \<and> Q y"
    by (intro exI [of _ "x @ u"] exI [of _ v]) auto
next
  assume "\<exists>x y. s = x @ y \<and> (\<exists>u v. x = u @ v \<and> u \<in> A \<and> v \<in> B) \<and> Q y"
  then obtain y u v where "s = u @ v @ y" "u \<in> A" "v \<in> B" "Q y" by auto
  then show "\<exists>x y. s = x @ y \<and> x \<in> A \<and> (\<exists>u v. y = u @ v \<and> u \<in> B \<and> Q v)"
    by (intro exI [of _ u] exI [of _ "v @ y"]) auto
qed

lemma star_split:
  "(\<exists>x y. s = x @ y \<and> star_ne L x \<and> Q y) \<longleftrightarrow>
   Q s \<or> (\<exists>x y. s = x @ y \<and> x \<in> L \<and> x \<noteq> [] \<and> (\<exists>u v. y = u @ v \<and> star_ne L u \<and> Q v))"
proof
  assume "\<exists>x y. s = x @ y \<and> star_ne L x \<and> Q y"
  then obtain x y where xy: "s = x @ y" "star_ne L x" "Q y" by blast
  from xy(2) show "Q s \<or> (\<exists>x y. s = x @ y \<and> x \<in> L \<and> x \<noteq> [] \<and> (\<exists>u v. y = u @ v \<and> star_ne L u \<and> Q v))"
  proof (cases rule: star_ne.cases)
    case nil
    with xy show ?thesis by simp
  next
    case (app x1 y1)
    with xy show ?thesis by (intro disjI2 exI [of _ x1] exI [of _ "y1 @ y"]) auto
  qed
next
  assume "Q s \<or> (\<exists>x y. s = x @ y \<and> x \<in> L \<and> x \<noteq> [] \<and> (\<exists>u v. y = u @ v \<and> star_ne L u \<and> Q v))"
  then show "\<exists>x y. s = x @ y \<and> star_ne L x \<and> Q y"
  proof
    assume "Q s"
    then show ?thesis by (intro exI [of _ "[]"] exI [of _ s]) (simp add: star_ne.nil)
  next
    assume "\<exists>x y. s = x @ y \<and> x \<in> L \<and> x \<noteq> [] \<and> (\<exists>u v. y = u @ v \<and> star_ne L u \<and> Q v)"
    then obtain x u v where "s = x @ u @ v" "x \<in> L" "x \<noteq> []" "star_ne L u" "Q v" by blast
    then show ?thesis by (intro exI [of _ "x @ u"] exI [of _ v]) (auto intro: star_ne.app)
  qed
qed

lemma bt_correct:
  assumes "need r (length s) \<le> n" and "\<forall>x y. s = x @ y \<longrightarrow> k y \<noteq> None"
  shows "bt n r s k = Some (\<exists>x y. s = x @ y \<and> x \<in> lang r \<and> k y = Some True)"
  using assms
proof (induction n arbitrary: r s k)
  case 0
  then show ?case using need_pos [of r "length s"] by simp
next
  case (Suc n)
  note IH = Suc.IH and fuel = Suc.prems(1) and tot = Suc.prems(2)
  show ?case
  proof (cases r)
    case REps
    from tot have "k s \<noteq> None" by (metis append_Nil)
    with REps show ?thesis by (cases "k s") auto
  next
    case RWord
    show ?thesis
    proof (cases s)
      case (Cons c s')
      with tot have "k s' \<noteq> None" by (metis append_Cons append_Nil)
      with RWord Cons show ?thesis by (cases "k s'") auto
    qed (simp add: RWord)
  next
    case (RLit a)
    show ?thesis
    proof (cases s)
      case (Cons c s')
      with tot have "k s' \<noteq> None" by (metis append_Cons append_Nil)
      with RLit Cons show ?thesis by (cases "k s'") auto
    qed (simp add: RLit)
  next
    case (RAlt a b)
    with fuel have "need a (length s) \<le> n" "need b (length s) \<le> n" by simp_all
    from IH [OF this(1) tot] IH [OF this(2) tot] RAlt show ?thesis by (auto split: bool.split)
  next
    case (RSeq a b)
    with fuel have na: "need a (length s) \<le> n" and nb: "need b (length s) \<le> n" by simp_all
    have kb: "bt n b y k = Some (\<exists>x2 y2. y = x2 @ y2 \<and> x2 \<in> lang b \<and> k y2 = Some True)"
      if "s = x @ y" for x y
    proof (rule IH)
      show "need b (length y) \<le> n" using nb need_mono [of "length y" "length s" b] that by simp
      show "\<forall>x2 y2. y = x2 @ y2 \<longrightarrow> k y2 \<noteq> None" using tot that by simp
    qed
    have "bt n a s (\<lambda>s'. bt n b s' k) =
          Some (\<exists>x y. s = x @ y \<and> x \<in> lang a \<and> bt n b y k = Some True)"
      using IH [OF na] kb by simp
    also have "(\<exists>x y. s = x @ y \<and> x \<in> lang a \<and> bt n b y k = Some True) \<longleftrightarrow>
               (\<exists>x y. s = x @ y \<and> x \<in> lang a \<and> (\<exists>u v. y = u @ v \<and> u \<in> lang b \<and> k v = Some True))"
      by (rule split_cong) (simp add: kb)
    also have "\<dots> \<longleftrightarrow> (\<exists>x y. s = x @ y \<and> x \<in> lang (RSeq a b) \<and> k y = Some True)"
      by (simp only: split_assoc) simp
    finally show ?thesis using RSeq by simp
  next
    case (RStar a)
    let ?L = "length s"
    from fuel RStar have nst: "(?L + 1) * (need a ?L + 1) \<le> Suc n" by simp
    then have na: "need a ?L \<le> n" and nl: "?L * (need a ?L + 1) \<le> n" by simp_all
    define k' where "k' = (\<lambda>s'. if length s' < ?L then bt n (RStar a) s' k else Some False)"
    have ks: "k' y = Some (length y < ?L \<and> (\<exists>u v. y = u @ v \<and> u \<in> lang (RStar a) \<and> k v = Some True))"
      if "s = x @ y" for x y
    proof (cases "length y < ?L")
      case True
      have "(length y + 1) * (need a (length y) + 1) \<le> ?L * (need a ?L + 1)"
        using True need_mono [of "length y" ?L a] by (intro mult_le_mono) simp_all
      with nl have "need (RStar a) (length y) \<le> n" by simp
      from IH [OF this] tot that True show ?thesis by (simp add: k'_def)
    qed (simp add: k'_def)
    have "bt (Suc n) r s k = (case bt n a s k' of Some False \<Rightarrow> k s | res \<Rightarrow> res)"
      by (simp add: RStar k'_def)
    also have "bt n a s k' = Some (\<exists>x y. s = x @ y \<and> x \<in> lang a \<and> k' y = Some True)"
      using ks by (intro IH [OF na]) simp
    also have "(\<exists>x y. s = x @ y \<and> x \<in> lang a \<and> k' y = Some True) \<longleftrightarrow>
               (\<exists>x y. s = x @ y \<and> x \<in> lang a \<and> x \<noteq> [] \<and>
                  (\<exists>u v. y = u @ v \<and> star_ne (lang a) u \<and> k v = Some True))"
      by (rule split_cong) (auto simp: ks)
    finally have res: "bt (Suc n) r s k =
      (case Some (\<exists>x y. s = x @ y \<and> x \<in> lang a \<and> x \<noteq> [] \<and>
                  (\<exists>u v. y = u @ v \<and> star_ne (lang a) u \<and> k v = Some True)) of
         Some False \<Rightarrow> k s | res \<Rightarrow> res)" .
    from tot have "k s \<noteq> None" by (metis append_Nil)
    with res show ?thesis
      using star_split [of s "lang a" "\<lambda>y. k y = Some True"] RStar
      by (cases "k s") (auto split: bool.split)
  qed
qed

section \<open>The language of the e-mail pattern\<close>

lemma star_words: "star_ne (lang RWord) z \<longleftrightarrow> list_all is_word z"
proof
  show "star_ne (lang RWord) z \<Longrightarrow> list_all is_word z"
    by (induction rule: star_ne.induct) auto
  show "list_all is_word z \<Longrightarrow> star_ne (lang RWord) z"
  proof (induction z)
    case (Cons c z)
    then have "[c] \<in> lang RWord" "star_ne (lang RWord) z" by auto
    from star_ne.app [OF this(1) _ this(2)] show ?case by simp
  qed (rule star_ne.nil)
qed

lemma lang_word_plus: "w \<in> lang (RPlus RWord) \<longleftrightarrow> w \<noteq> [] \<and> list_all is_word w"
proof
  assume "w \<in> lang (RPlus RWord)"
  then show "w \<noteq> [] \<and> list_all is_word w" by (auto simp: RPlus_def star_words)
next
  assume w: "w \<noteq> [] \<and> list_all is_word w"
  then obtain c z where "w = [c] @ z" "[c] \<in> lang RWord" "star_ne (lang RWord) z"
    by (cases w) (auto simp: star_words)
  then show "w \<in> lang (RPlus RWord)" unfolding RPlus_def lang_mem by blast
qed

lemma tld_group:
  "x \<in> lang (RSeq (RLit CHR ''.'') (RSeq RWord (RSeq RWord (ROpt RWord)))) \<longleftrightarrow>
   (\<exists>w. x = CHR ''.'' # w \<and> (length w = 2 \<or> length w = 3) \<and> list_all is_word w)"
proof
  assume "x \<in> lang (RSeq (RLit CHR ''.'') (RSeq RWord (RSeq RWord (ROpt RWord))))"
  then show "\<exists>w. x = CHR ''.'' # w \<and> (length w = 2 \<or> length w = 3) \<and> list_all is_word w"
    by auto
next
  assume "\<exists>w. x = CHR ''.'' # w \<and> (length w = 2 \<or> length w = 3) \<and> list_all is_word w"
  then obtain w where x: "x = CHR ''.'' # w" and l: "length w = 2 \<or> length w = 3"
    and ww: "list_all is_word w" by blast
  from l consider a b where "w = [a, b]" | a b c where "w = [a, b, c]"
    by (auto simp: numeral_2_eq_2 numeral_3_eq_3 length_Suc_conv)
  then show "x \<in> lang (RSeq (RLit CHR ''.'') (RSeq RWord (RSeq RWord (ROpt RWord))))"
  proof cases
    case 1
    with x ww show ?thesis
      by simp
  next
    case 2
    with x ww show ?thesis
      by simp
  qed
qed

lemma ex_prefix:
  "(\<exists>x y. s = x @ y \<and> (\<exists>w. x = c # w \<and> R w) \<and> P y) \<longleftrightarrow> (\<exists>w y. s = c # w @ y \<and> R w \<and> P y)"
proof
  assume "\<exists>w y. s = c # w @ y \<and> R w \<and> P y"
  then obtain w y where "s = c # w @ y" "R w" "P y" by blast
  then show "\<exists>x y. s = x @ y \<and> (\<exists>w. x = c # w \<and> R w) \<and> P y"
    by (intro exI [of _ "c # w"] exI [of _ y]) auto
next
  assume "\<exists>x y. s = x @ y \<and> (\<exists>w. x = c # w \<and> R w) \<and> P y"
  then obtain w y where "s = c # w @ y" "R w" "P y" by auto
  then show "\<exists>w y. s = c # w @ y \<and> R w \<and> P y" by blast
qed

lemma plus_unfold:
  assumes ne: "\<And>x. x \<in> lang a \<Longrightarrow> x \<noteq> []"
  shows "s \<in> lang (RPlus a) \<longleftrightarrow> (\<exists>x y. s = x @ y \<and> x \<in> lang a \<and> (y = [] \<or> y \<in> lang (RPlus a)))"
proof -
  have plus: "z \<in> lang (RPlus a) \<longleftrightarrow> (\<exists>x y. z = x @ y \<and> x \<in> lang a \<and> star_ne (lang a) y)" for z
    by (simp add: RPlus_def)
  have "star_ne (lang a) y \<longleftrightarrow> y = [] \<or> y \<in> lang (RPlus a)" for y
    unfolding plus using star_ne_unfold [of "lang a" y] ne by blast
  then show ?thesis unfolding plus [of s] by simp
qed

lemma split_take:
  "(\<exists>w y. s = w @ y \<and> length w = m \<and> Q w y) \<longleftrightarrow> m \<le> length s \<and> Q (take m s) (drop m s)"
proof
  assume "\<exists>w y. s = w @ y \<and> length w = m \<and> Q w y"
  then obtain w y where "s = w @ y" "length w = m" "Q w y" by blast
  then show "m \<le> length s \<and> Q (take m s) (drop m s)" by simp
next
  assume "m \<le> length s \<and> Q (take m s) (drop m s)"
  then show "\<exists>w y. s = w @ y \<and> length w = m \<and> Q w y"
    by (intro exI [of _ "take m s"] exI [of _ "drop m s"]) simp
qed

lemma tld_unfold:
  "c # s \<in> lang re_tld \<longleftrightarrow>
   c = CHR ''.'' \<and>
   ((2 \<le> length s \<and> list_all is_word (take 2 s) \<and> (drop 2 s = [] \<or> drop 2 s \<in> lang re_tld)) \<or>
    (3 \<le> length s \<and> list_all is_word (take 3 s) \<and> (drop 3 s = [] \<or> drop 3 s \<in> lang re_tld)))"
  (is "_ \<longleftrightarrow> _ \<and> (?two \<or> ?three)")
proof -
  let ?R = "\<lambda>w y. list_all is_word w \<and> (y = [] \<or> y \<in> lang re_tld)"
  have ne: "x \<in> lang re_tld_group \<Longrightarrow> x \<noteq> []" for x by (auto simp: re_tld_group_def)
  have "c # s \<in> lang re_tld \<longleftrightarrow>
        (\<exists>x y. c # s = x @ y \<and> x \<in> lang re_tld_group \<and> (y = [] \<or> y \<in> lang re_tld))"
    unfolding re_tld_def by (rule plus_unfold [OF ne])
  also have "\<dots> \<longleftrightarrow> (\<exists>w y. c # s = CHR ''.'' # w @ y \<and> (length w = 2 \<or> length w = 3) \<and> ?R w y)"
    unfolding re_tld_group_def tld_group by (simp only: ex_prefix conj_assoc)
  also have "\<dots> \<longleftrightarrow> c = CHR ''.'' \<and>
      ((\<exists>w y. s = w @ y \<and> length w = 2 \<and> ?R w y) \<or> (\<exists>w y. s = w @ y \<and> length w = 3 \<and> ?R w y))"
    by (simp only: append_Cons list.inject) blast
  also have "\<dots> \<longleftrightarrow> c = CHR ''.'' \<and> (?two \<or> ?three)"
    by (simp only: split_take)
  finally show ?thesis .
qed

lemma tld_nil: "[] \<notin> lang re_tld"
  by (auto simp: re_tld_def RPlus_def re_tld_group_def)

lemma lang_tld: "s \<in> lang re_tld \<longleftrightarrow> tld_groups s"
proof (induction "length s" arbitrary: s rule: less_induct)
  case less
  show ?case
  proof (cases s)
    case (Cons c s')
    with less have "drop 2 s' \<in> lang re_tld \<longleftrightarrow> tld_groups (drop 2 s')"
      "drop 3 s' \<in> lang re_tld \<longleftrightarrow> tld_groups (drop 3 s')" by simp_all
    with Cons show ?thesis by (simp only: tld_unfold tld_groups.simps)
  qed (simp add: tld_nil)
qed

lemma word_not_sep: "is_word c \<Longrightarrow> \<not> is_sep c"
  by (auto simp: is_word_def is_sep_def)

lemma lang_sep: "x \<in> lang re_sep \<longleftrightarrow> (\<exists>c. x = [c] \<and> is_sep c)"
  by (auto simp: re_sep_def is_sep_def)

lemma lang_piece:
  "x \<in> lang re_piece \<longleftrightarrow>
   (\<exists>p w. x = p @ w \<and> (p = [] \<or> (\<exists>c. p = [c] \<and> is_sep c)) \<and> w \<noteq> [] \<and> list_all is_word w)"
  by (simp add: re_piece_def lang_sep lang_word_plus del: lang_mem(2))

lemma nds_cons: "no_double_sep (a # t) \<longleftrightarrow> (t = [] \<or> \<not> (is_sep a \<and> is_sep (hd t))) \<and> no_double_sep t"
  by (cases t) simp_all

lemma nds_words: "list_all is_word w \<Longrightarrow> no_double_sep y \<Longrightarrow> no_double_sep (w @ y)"
  by (induction w) (auto simp: nds_cons word_not_sep)

lemma star_piece_tail: "star_ne (lang re_piece) z \<Longrightarrow> tail_ok z"
proof (induction rule: star_ne.induct)
  case nil
  then show ?case by (simp add: tail_ok_def)
next
  case (app x y)
  then obtain p w where x: "x = p @ w" "p = [] \<or> (\<exists>c. p = [c] \<and> is_sep c)" "w \<noteq> []" "list_all is_word w"
    by (auto simp: lang_piece)
  have ny: "no_double_sep y" using app.IH by (auto simp: tail_ok_def)
  have nw: "no_double_sep (w @ y)" using nds_words [OF x(4) ny] .
  have "no_double_sep (p @ w @ y)"
    using x(2) nw x(3,4) by (cases w) (auto simp: nds_cons word_not_sep)
  moreover have "list_all (\<lambda>c. is_word c \<or> is_sep c) (p @ w @ y)" "is_word (last (p @ w @ y))"
    using x(2-4) app.IH by (auto simp: tail_ok_def list_all_iff last_append)
  ultimately show ?case using x(1) by (simp add: tail_ok_def)
qed

lemma piece_word: "is_word c \<Longrightarrow> [c] \<in> lang re_piece"
  unfolding lang_piece by (intro exI [of _ "[]"] exI [of _ "[c]"]) simp

lemma piece_sep_word: "is_sep c \<Longrightarrow> is_word d \<Longrightarrow> [c, d] \<in> lang re_piece"
  unfolding lang_piece by (intro exI [of _ "[c]"] exI [of _ "[d]"]) simp

lemma tail_ok_tl: "tail_ok (c # z) \<Longrightarrow> tail_ok z"
  by (cases z) (auto simp: tail_ok_def nds_cons)

lemma tail_star_piece: "tail_ok z \<Longrightarrow> star_ne (lang re_piece) z"
proof (induction "length z" arbitrary: z rule: less_induct)
  case less
  show ?case
  proof (cases z)
    case Nil
    then show ?thesis by (simp add: star_ne.nil)
  next
    case (Cons c z')
    have all: "is_word c \<or> is_sep c" using less.prems Cons by (simp add: tail_ok_def)
    show ?thesis
    proof (cases "is_word c")
      case True
      have "[c] \<in> lang re_piece" using True by (rule piece_word)
      moreover have "star_ne (lang re_piece) z'"
        using less.hyps [of z'] tail_ok_tl [of c z'] less.prems Cons by simp
      ultimately show ?thesis using Cons star_ne.app [of "[c]"] by simp
    next
      case False
      with all have sep: "is_sep c" by simp
      have "z' \<noteq> []" using less.prems Cons sep word_not_sep by (auto simp: tail_ok_def)
      then obtain d z'' where z': "z' = d # z''" by (cases z') auto
      have "is_word d" using less.prems Cons z' sep by (auto simp: tail_ok_def nds_cons)
      then have "[c, d] \<in> lang re_piece" using sep by (intro piece_sep_word)
      moreover have "tail_ok z''" using less.prems Cons z' by (blast intro: tail_ok_tl)
      then have "star_ne (lang re_piece) z''" using less.hyps [of z''] Cons z' by simp
      ultimately show ?thesis using Cons z' star_ne.app [of "[c, d]"] by simp
    qed
  qed
qed

lemma star_piece_words: "list_all is_word w \<Longrightarrow> star_ne (lang re_piece) z \<Longrightarrow> star_ne (lang re_piece) (w @ z)"
proof (induction w)
  case (Cons a w)
  then have "[a] \<in> lang re_piece" by (simp add: piece_word)
  with Cons show ?case using star_ne.app [of "[a]"] by simp
qed simp

lemma lang_word_run_split:
  "s \<in> lang re_word_run \<longleftrightarrow> (\<exists>c z. s = c # z \<and> is_word c \<and> star_ne (lang re_piece) z)"
proof
  assume "s \<in> lang re_word_run"
  then obtain w z where "s = w @ z" "w \<noteq> []" "list_all is_word w" "star_ne (lang re_piece) z"
    by (auto simp: re_word_run_def re_piece_def re_sep_def lang_word_plus simp del: lang_mem(2))
  then show "\<exists>c z. s = c # z \<and> is_word c \<and> star_ne (lang re_piece) z"
    by (cases w) (auto intro: star_piece_words)
next
  assume "\<exists>c z. s = c # z \<and> is_word c \<and> star_ne (lang re_piece) z"
  then obtain c z where "s = [c] @ z" "[c] \<in> lang (RPlus RWord)" "star_ne (lang re_piece) z"
    by (auto simp: lang_word_plus)
  then show "s \<in> lang re_word_run"
    unfolding re_word_run_def lang_mem(5) lang_mem(6) re_piece_def [symmetric] re_sep_def [symmetric]
    by blast
qed

lemma word_run_split: "word_run s \<longleftrightarrow> (\<exists>c z. s = c # z \<and> is_word c \<and> tail_ok z)"
proof
  assume w: "word_run s"
  then obtain c z where s: "s = c # z" by (cases s) (auto simp: word_run_def)
  with w show "\<exists>c z. s = c # z \<and> is_word c \<and> tail_ok z"
    by (cases z) (auto simp: word_run_def tail_ok_def nds_cons)
next
  assume "\<exists>c z. s = c # z \<and> is_word c \<and> tail_ok z"
  then obtain c z where "s = c # z" "is_word c" "tail_ok z" by blast
  then show "word_run s"
    by (cases z) (auto simp: word_run_def tail_ok_def nds_cons word_not_sep)
qed

lemma lang_word_run: "s \<in> lang re_word_run \<longleftrightarrow> word_run s"
  unfolding lang_word_run_split word_run_split using star_piece_tail tail_star_piece by blast

lemma word_run_no_at: "word_run x \<Longrightarrow> CHR ''@'' \<notin> set x"
  by (auto simp: word_run_def list_all_iff is_word_def is_sep_def)

lemma email_domain_split: "email_domain_ok d \<longleftrightarrow> (\<exists>u v. d = u @ v \<and> word_run u \<and> tld_groups v)"
proof
  assume "email_domain_ok d"
  then obtain k where "word_run (take k d)" "tld_groups (drop k d)" by (auto simp: email_domain_ok_def)
  then show "\<exists>u v. d = u @ v \<and> word_run u \<and> tld_groups v"
    by (intro exI [of _ "take k d"] exI [of _ "drop k d"]) simp
next
  assume "\<exists>u v. d = u @ v \<and> word_run u \<and> tld_groups v"
  then obtain u v where "d = u @ v" "word_run u" "tld_groups v" by blast
  then show "email_domain_ok d"
    unfolding email_domain_ok_def by (intro bexI [of _ "length u"]) simp_all
qed

lemma email_regex_split:
  "email_regex_match e \<longleftrightarrow> (\<exists>x d. e = x @ CHR ''@'' # d \<and> word_run x \<and> email_domain_ok d)"
proof
  assume m: "email_regex_match e"
  then obtain c d where dw: "dropWhile (\<lambda>c. c \<noteq> CHR ''@'') e = c # d"
    by (auto simp: email_regex_match_def split: list.splits)
  then have "c = CHR ''@''" using hd_dropWhile [of "\<lambda>c. c \<noteq> CHR ''@''" e] by simp
  moreover have "e = takeWhile (\<lambda>c. c \<noteq> CHR ''@'') e @ c # d"
    using takeWhile_dropWhile_id [of "\<lambda>c. c \<noteq> CHR ''@''" e] dw by simp
  ultimately show "\<exists>x d. e = x @ CHR ''@'' # d \<and> word_run x \<and> email_domain_ok d"
    using m dw by (auto simp: email_regex_match_def)
next
  assume "\<exists>x d. e = x @ CHR ''@'' # d \<and> word_run x \<and> email_domain_ok d"
  then obtain x d where e: "e = x @ CHR ''@'' # d" and x: "word_run x" and "email_domain_ok d" by blast
  moreover from x have "\<forall>c \<in> set x. c \<noteq> CHR ''@''" using word_run_no_at by blast
  ultimately show "email_regex_match e"
    by (simp add: email_regex_match_def takeWhile_append2 dropWhile_append2)
qed

lemma lang_email: "e \<in> lang email_re \<longleftrightarrow> email_regex_match e"
proof -
  have "e \<in> lang email_re \<longleftrightarrow>
        (\<exists>x r. e = x @ r \<and> word_run x \<and> (\<exists>a q. r = a @ q \<and> a = [CHR ''@''] \<and>
           (\<exists>u v. q = u @ v \<and> word_run u \<and> tld_groups v)))"
    by (simp add: email_re_def lang_word_run lang_tld del: lang_mem(2))
  also have "\<dots> \<longleftrightarrow> (\<exists>x d. e = x @ CHR ''@'' # d \<and> word_run x \<and> email_domain_ok d)"
    unfolding email_domain_split by auto blast
  finally show ?thesis by (simp add: email_regex_split)
qed

text \<open>
  C31. Termination of the e-mail validator: the backtracking match of the user
  schema's e-mail pattern returns on every input once it has the fuel
  \<^const>\<open>need\<close> computes (quadratic in the length of the input), and its
  answer is the characterisation \<^const>\<open>email_regex_match\<close> that the
  user model's validation uses.
\<close>

theorem email_match_terminates:
  "need email_re (length e) \<le> n \<Longrightarrow> email_match n e = Some (email_regex_match e)"
  unfolding email_match_def by (subst bt_correct) (auto simp: lang_email)

theorem email_match_terminates_witness:
  "email_match (need email_re (length ''ann@ex.com'')) ''ann@ex.com'' = Some True"
proof -
  have "email_regex_match ''ann@ex.com''" by code_simp
  with email_match_terminates [OF le_refl, of "''ann@ex.com''"] show ?thesis by simp
qed

end
