(* ===== verification/Spec2Isabelle.thy ===== *)
theory Spec2Isabelle
  imports Api_Scenarios List_Scenarios Email_Regex
begin

text \<open>
  \<^bold>\<open>A verification model of the task-management API.\<close>

  The program (\<open>src/\<close>) is an Express application over MongoDB. Users
  register and log in (\<open>src/routes/auth.js\<close>); each login issues a JSON Web
  Token that is also appended to the user's \<open>tokens\<close> list
  (\<open>generateAuthToken\<close> in the user model, \<open>src/unnamed/part_002\<close>). The
  middleware \<open>src/middleware/auth.js\<close> admits a request when the token in the
  \<open>Authorization\<close> header verifies with the server secret and is still listed
  for the user it names; logout removes the token from the list. All task routes
  (\<open>src/unnamed/part_001\<close>, the router file; \<open>src/models/task.js\<close>, the
  schema) run behind that middleware and scope every query with the caller's id.

  \<^bold>\<open>Theories and what they model.\<close>
  \<^item> \<^theory_text>\<open>Prelude\<close>: the types of identifiers and clock readings, rule
    collections, and list facts for first-match search, in-place update and
    removal (\<open>findOne\<close>, \<open>findOneAndUpdate\<close>, \<open>findOneAndDelete\<close>).
  \<^item> \<^theory_text>\<open>Jwt\<close>, \<^theory_text>\<open>Js_Builtins\<close>, \<^theory_text>\<open>Joi\<close>: the libraries the
    code calls, modelled from their documented behaviour: \<open>jwt.sign\<close> and
    \<open>jwt.verify\<close> (a symbolic signature, seven-day expiry),
    \<open>String.replace\<close>, \<open>toLowerCase\<close>, \<open>trim\<close>, \<open>Math.ceil\<close> of a
    quotient, and the Joi rules the schemas use with \<open>abortEarly\<close>.
  \<^item> \<^theory_text>\<open>User\<close>: the user schema (setters, defaults, validators, the
    e-mail regular expression, the unique index), bcrypt (salt plus the first 72
    bytes), the password-hashing \<open>pre('save')\<close> hook, \<open>generateAuthToken\<close>,
    \<open>comparePassword\<close>, \<open>toJSON\<close>; the users collection is the record
    \<^typ>\<open>user_db\<close> of documents and an identifier counter.
  \<^item> \<^theory_text>\<open>Email_Regex\<close>: the schema's e-mail pattern (line 18 of
    \<open>src/unnamed/part_002\<close>) as a regular expression \<^const>\<open>email_re\<close>, run
    by \<^const>\<open>bt\<close>, a model of JavaScript's backtracking engine (greedy
    repetition, the empty check of ECMAScript) with fuel, and the proof that it
    agrees with the direct characterisation \<^const>\<open>email_regex_match\<close> of
    \<^theory_text>\<open>User\<close>.
  \<^item> \<^theory_text>\<open>Auth_Guard\<close>: the middleware \<^const>\<open>auth\<close>.
  \<^item> \<^theory_text>\<open>Auth_Routes\<close>: \<^const>\<open>register\<close>, \<^const>\<open>login\<close>,
    \<^const>\<open>me\<close>, \<^const>\<open>logout\<close> and the invariant \<^const>\<open>users_wf\<close>.
  \<^item> \<^theory_text>\<open>Task\<close>: the task schema, the database \<^typ>\<open>task_db\<close>
    (the users record extended by the tasks collection, so the authentication
    operations apply to it unchanged), ObjectId casting and printing, and the
    handlers \<^const>\<open>get_task\<close>, \<^const>\<open>create_task\<close>,
    \<^const>\<open>update_task\<close>, \<^const>\<open>delete_task\<close>, \<^const>\<open>task_stats\<close>
    with the invariant \<^const>\<open>tasks_wf\<close>.
  \<^item> \<^theory_text>\<open>Task_List\<close>: the listing \<^const>\<open>list_tasks\<close> with
    \<open>parseInt\<close>, the BSON sort order (a \<open>linorder\<close> instance), the
    stable sort, skip and limit, and the pagination object.
  \<^item> \<^theory_text>\<open>Server\<close>: \<open>src/server.js\<close>, the dispatch \<^const>\<open>serve\<close>
    of a request to the routers (the middleware first for every path under
    \<open>/api/tasks\<close>), the root route with its table of endpoints and its
    \<open>toISOString\<close> timestamp, the health route, the 404 fallback and the error
    handler \<^const>\<open>error_response\<close>, which the repository lacks and which is
    modelled from the error taxonomy of the specification. The server is a state
    machine: \<^const>\<open>reachable\<close> are the databases a run of requests reaches
    from \<^const>\<open>init_db\<close>, and \<^const>\<open>sys_wf\<close>, the invariant of both
    collections and of task ownership, holds in all of them, as does
    \<^const>\<open>tokens_signed\<close>: every token a user lists was signed by the
    server for that user. The relation
    \<^const>\<open>user_write\<close> is the interface of the two halves: what the
    authentication routes may write.
  \<^item> \<^theory_text>\<open>Api\<close>: the README's endpoint table
    (\<open>src/unnamed/part_000\<close>) as \<^const>\<open>readme_endpoints\<close>, Express's
    matching of path templates, and the documented API as an abstract step
    function \<^const>\<open>api_step\<close> (one operation per key of the root route's
    \<open>endpoints\<close> object, each the handler it names, behind the middleware for
    the task operations), which \<^const>\<open>serve\<close> is proved to refine.
  \<^item> \<^theory_text>\<open>Scenarios\<close>, \<^theory_text>\<open>Task_Scenarios\<close>,
    \<^theory_text>\<open>List_Scenarios\<close>, \<^theory_text>\<open>Server_Scenarios\<close>,
    \<^theory_text>\<open>Api_Scenarios\<close>: concrete runs evaluated by \<open>code_simp\<close> at
    which every property with hypotheses is applied.

  \<^bold>\<open>Correspondence.\<close> A handler is a function from the request's inputs and
  the database to a \<^typ>\<open>'b route_result\<close> (a status with a JSON body, or
  \<open>next(error)\<close> with a database error) and the database after the handler's
  writes; every early \<open>return res.status(...)\<close> and every thrown error of
  the source is a branch. Clock readings are parameters (\<open>Date.now()\<close> in
  milliseconds), as are the server secret and the bcrypt salt that
  \<open>genSalt\<close> would draw. Identifiers come from a counter in the database.

  \<^bold>\<open>What is proved.\<close> Authentication: a listed, unexpired token signed with the
  secret is needed and suffices; the token \<open>generateAuthToken\<close> issues
  decodes to the user's id, e-mail and role for seven days and is saved on that
  user; logout revokes exactly the presented token;
  registration then login succeeds; duplicate e-mails are refused; login
  failures are uniform; the users invariant is kept; a registration that does
  not succeed writes nothing. Tasks: every handler is
  owner-scoped (other owners' tasks are untouched and never returned, and a
  foreign id is indistinguishable from a missing one); the tasks invariant is
  kept; create then get round-trips through the printed ObjectId; update writes
  only the supplied fields; a failed create, update or delete writes nothing;
  the statistics are exact counts. Listing: it is a permutation of the
  caller's matching tasks, descending by the \<open>sortBy\<close> field when
  \<open>sortOrder\<close> is absent or \<open>desc\<close> and otherwise the stable ascending sort
  by that field; its pages partition it,
  and \<open>parseInt\<close> reads back decimal page numbers. Server: every reachable
  database is well formed and every task has a registered owner, and every
  token a user lists is one the server signed for that user; the task API
  answers 401 to any request without a session, also after a logout through the
  server; the
  e-mail validator's backtracking match terminates and computes the
  characterisation used throughout; every
  response is well typed (a status among 200, 201, 400, 401, 404, 500, with an
  error body exactly for the error statuses). API:
  the server refines the documented API (every README endpoint is advertised by
  the root route and served, for every request matching its template, exactly
  as the abstract operation prescribes), and from every reachable state a
  newcomer can register and then use the task API. Findings (behaviour the
  code has and the specification does not promise) are proved as theorems too:
  a header without \<open>Bearer\<close> is accepted, passwords are compared on their
  first 72 bytes, two logins in one second share a token, update does not
  refresh \<open>updatedAt\<close> and needs a title, a page of 0 is a server error, a
  limit of 0 lists everything, the e-mail pattern backtracks catastrophically on
  long domain labels, and the listing the README calls "all user's
  tasks" is a first page of ten.

  \<^bold>\<open>Bounds.\<close> Every loop of the program is a recursion over a list and
  every function of the model is total, with one exception: the regular
  expression engine, whose backtracking is modelled with fuel (the depth of its
  recursion). The termination theorem of \<^theory_text>\<open>Email_Regex\<close> says how much
  is enough: \<^term>\<open>need email_re (length e)\<close>, quadratic in the length of the
  input, after which the answer no longer depends on the fuel. The fuel bounds the
  depth only; the number of steps of a failing match can be exponential (see
  the findings). ObjectIds print as 24
  hexadecimal digits, so the create/get round trip assumes fewer than
  \<open>16^24\<close> documents. Numbers from \<open>parseInt\<close> are unbounded integers (the
  program's doubles are exact below \<open>2^53\<close>).

  \<^bold>\<open>Not modelled.\<close> Server bootstrap (dotenv, helmet, cors, body parsers,
  \<open>mongoose.connect\<close>, \<open>listen\<close>), which configures but computes nothing;
  the exact messages of \<open>src/middleware/errorHandler.js\<close>, which
  \<open>server.js\<close> requires but the repository does not contain (only its status
  codes follow the specification); malformed JSON bodies rejected by
  \<open>express.json\<close>; \<open>HEAD\<close> requests and percent-decoding of path
  parameters; concurrency between requests (each handler is
  one atomic step, so interleavings inside a handler and Mongoose's document
  versioning are not modelled); query parameters given as arrays or objects;
  the order MongoDB gives to tasks with equal sort keys (the model keeps
  natural order). The router file holds two copies of the task router that agree
  up to formatting; the definitions model both, and the map names the second.
  The README's prose (features, setup, technologies) states nothing checkable;
  its endpoint table is modelled.
\<close>

end
